(* ===== verification/Gkfs_Prelude.thy ===== *)
theory Gkfs_Prelude
  imports Main "HOL-Library.Word" "HOL-Library.AList"
begin

unbundle bit_operations_syntax

text \<open>
  Shared vocabulary of the development: the fixed-width integer types of the C++ code, error
  numbers, byte buffers, the half-open iteration over 64-bit chunk identifiers, and the generic
  lemmas on words and lists that every component uses.

  The collection \<open>gkfs_simps\<close> holds the equations that move a 64-bit computation to
  natural numbers.
\<close>

named_theorems gkfs_simps \<open>equations that read a 64-bit computation as natural numbers\<close>

section \<open>Types\<close>

type_synonym u16 = "16 word"
type_synonym u32 = "32 word"
type_synonym u64 = "64 word"
type_synonym byte = "8 word"
type_synonym bytes = "byte list"
type_synonym errno = int

text \<open>The error numbers of \<open>errno.h\<close> (Linux) that the sources name.\<close>

abbreviation ENOENT :: errno where "ENOENT \<equiv> 2"
abbreviation EINTR :: errno where "EINTR \<equiv> 4"
abbreviation EIO :: errno where "EIO \<equiv> 5"
abbreviation EBADF :: errno where "EBADF \<equiv> 9"
abbreviation EAGAIN :: errno where "EAGAIN \<equiv> 11"
abbreviation EBUSY :: errno where "EBUSY \<equiv> 16"
abbreviation EEXIST :: errno where "EEXIST \<equiv> 17"
abbreviation ENOTDIR :: errno where "ENOTDIR \<equiv> 20"
abbreviation EISDIR :: errno where "EISDIR \<equiv> 21"
abbreviation EINVAL :: errno where "EINVAL \<equiv> 22"
abbreviation ENOTEMPTY :: errno where "ENOTEMPTY \<equiv> 39"
abbreviation ELOOP :: errno where "ELOOP \<equiv> 40"
abbreviation ENOTSUP :: errno where "ENOTSUP \<equiv> 95"
abbreviation ENOBUFS :: errno where "ENOBUFS \<equiv> 105"

section \<open>Words\<close>

lemma unat_of_nat_small [gkfs_simps]:
  "n < 2 ^ 64 \<Longrightarrow> unat (of_nat n :: u64) = n"
  by (simp add: unat_of_nat)

lemma of_nat_u64_inject:
  assumes "m < 2 ^ 64" and "n < 2 ^ 64"
  shows "(of_nat m :: u64) = of_nat n \<longleftrightarrow> m = n"
  using assms by (metis unat_of_nat_small)

lemma of_nat_u64_le:
  assumes "m < 2 ^ 64" and "n < 2 ^ 64"
  shows "(of_nat m :: u64) \<le> of_nat n \<longleftrightarrow> m \<le> n"
  using assms by (simp add: word_le_nat_alt unat_of_nat_small)

lemma of_nat_u64_less:
  assumes "m < 2 ^ 64" and "n < 2 ^ 64"
  shows "(of_nat m :: u64) < of_nat n \<longleftrightarrow> m < n"
  using assms by (simp add: word_less_nat_alt unat_of_nat_small)

lemma unat_u64_less: "unat (w :: u64) < 2 ^ 64"
  using unsigned_less [of w, where ?'a = nat] by simp

text \<open>A number below half the range is the same as a signed number.\<close>

lemma sint_small:
  fixes w :: "'a :: len word"
  assumes "unat w < 2 ^ (LENGTH('a) - Suc 0)"
  shows "sint w = int (unat w)"
proof -
  have "int (unat w) < 2 ^ (LENGTH('a) - Suc 0)"
    using assms unfolding of_nat_less_iff [where 'a = int, symmetric] by (simp del: of_nat_less_iff)
  moreover have "- (2 ^ (LENGTH('a) - Suc 0)) \<le> int (unat w)" by (rule order_trans [OF _ of_nat_0_le_iff]) simp
  ultimately have "signed_take_bit (LENGTH('a) - Suc 0) (int (unat w)) = int (unat w)"
    by (intro signed_take_bit_int_eq_self)
  then show ?thesis by (simp add: sint_uint)
qed

section \<open>Intervals\<close>

lemma div_image_interval:
  fixes off n b :: nat
  assumes b: "0 < b" and n: "0 < n"
  shows "(\<lambda>i. i div b) ` {off ..< off + n} = {off div b .. (off + n - 1) div b}" (is "?L = ?R")
proof (intro equalityI subsetI)
  fix c assume "c \<in> ?L"
  then show "c \<in> ?R" using n by (auto intro!: div_le_mono)
next
  fix c assume c: "c \<in> ?R"
  let ?i = "max off (c * b)"
  have "?i < off + n"
    using c b n by (auto simp: less_eq_div_iff_mult_less_eq)
  moreover have "?i div b = c"
    using c b by (cases "off \<le> c * b") (auto simp: max_def intro: le_antisym div_le_mono
        simp: less_eq_div_iff_mult_less_eq)
  ultimately show "c \<in> ?L" by (intro image_eqI [of _ _ ?i]) auto
qed

section \<open>Association lists\<close>

lemma map_of_delete: "map_of (filter (\<lambda>e. fst e \<noteq> k) db) = (map_of db)(k := None)"
  by (induction db) (auto simp: fun_eq_iff)

end
