(* ===== verification/Byte_Buffers.thy ===== *)
theory Byte_Buffers
  imports Gkfs_Prelude
begin

text \<open>
  Byte sequences as files and buffers see them: a positional write with zero fill (\<open>pwrite\<close>), a
  positional read (\<open>pread\<close>), resizing (\<open>truncate\<close>), and a copy into a buffer of fixed size
  (\<open>memcpy\<close>), each described by the byte found at every position afterwards.
\<close>

definition pwrite_bytes :: "bytes \<Rightarrow> nat \<Rightarrow> bytes \<Rightarrow> bytes" where
  "pwrite_bytes old off data =
     (if data = [] then old
      else take off old @ replicate (off - length old) 0 @ data @ drop (off + length data) old)"

definition pread_bytes :: "bytes \<Rightarrow> nat \<Rightarrow> nat \<Rightarrow> bytes" where
  "pread_bytes content off n = take n (drop off content)"

definition truncate_bytes :: "bytes \<Rightarrow> nat \<Rightarrow> bytes" where
  "truncate_bytes content n = take n content @ replicate (n - length content) 0"

text \<open>Reading past the end of a file gives zero in the byte view of a file.\<close>

definition byte0 :: "bytes \<Rightarrow> nat \<Rightarrow> byte" where
  "byte0 content i = (if i < length content then content ! i else 0)"

definition blit :: "bytes \<Rightarrow> nat \<Rightarrow> bytes \<Rightarrow> bytes" where
  "blit dst pos data = take pos dst @ data @ drop (pos + length data) dst"

section \<open>Positional writes\<close>

lemma pwrite_nil [simp]: "pwrite_bytes old off [] = old"
  by (simp add: pwrite_bytes_def)

lemma length_pwrite:
  "length (pwrite_bytes old off data) =
     (if data = [] then length old else max (length old) (off + length data))"
  by (auto simp: pwrite_bytes_def max_def min_def)

lemma nth_pwrite:
  assumes "i < length (pwrite_bytes old off data)"
  shows "pwrite_bytes old off data ! i =
    (if off \<le> i \<and> i < off + length data then data ! (i - off) else byte0 old i)"
proof (cases "data = []")
  case False
  then show ?thesis
    using assms by (auto simp: pwrite_bytes_def byte0_def nth_append nth_Cons' min_def split: if_splits)
qed (use assms in \<open>auto simp: byte0_def\<close>)

lemma byte0_pwrite:
  "byte0 (pwrite_bytes old off data) i =
     (if off \<le> i \<and> i < off + length data then data ! (i - off) else byte0 old i)"
proof (cases "i < length (pwrite_bytes old off data)")
  case True
  then show ?thesis by (simp add: byte0_def nth_pwrite)
next
  case False
  then show ?thesis by (auto simp: byte0_def length_pwrite split: if_splits)
qed

lemma bytes_eqI:
  assumes "length xs = length ys" and "\<And>i. byte0 xs i = byte0 ys i"
  shows "xs = ys"
proof (rule nth_equalityI)
  fix i assume "i < length xs"
  then show "xs ! i = ys ! i" using assms(1) assms(2) [of i] by (simp add: byte0_def)
qed (rule assms(1))

lemma pwrite_append:
  "pwrite_bytes (pwrite_bytes old off d1) (off + length d1) d2 = pwrite_bytes old off (d1 @ d2)"
  by (rule bytes_eqI) (auto simp: length_pwrite byte0_pwrite nth_append)

lemma pwrite_commute:
  assumes "off1 + length d1 \<le> off2"
  shows "pwrite_bytes (pwrite_bytes old off1 d1) off2 d2 = pwrite_bytes (pwrite_bytes old off2 d2) off1 d1"
  using assms by (intro bytes_eqI) (auto simp: length_pwrite byte0_pwrite)

lemma pread_pwrite:
  "pread_bytes (pwrite_bytes old off data) off (length data) = data"
proof (rule nth_equalityI)
  show len: "length (pread_bytes (pwrite_bytes old off data) off (length data)) = length data"
    by (auto simp: pread_bytes_def length_pwrite)
  fix i assume "i < length (pread_bytes (pwrite_bytes old off data) off (length data))"
  then have "i < length data" using len by simp
  moreover from this have "off + i < length (pwrite_bytes old off data)"
    by (auto simp: length_pwrite)
  ultimately show "pread_bytes (pwrite_bytes old off data) off (length data) ! i = data ! i"
    by (simp add: pread_bytes_def nth_pwrite)
qed

section \<open>Positional reads\<close>

lemma length_pread [simp]: "length (pread_bytes c off n) = min n (length c - off)"
  by (simp add: pread_bytes_def)

lemma nth_pread:
  "i < length (pread_bytes c off n) \<Longrightarrow> pread_bytes c off n ! i = c ! (off + i)"
  by (auto simp: pread_bytes_def)

lemma pread_split:
  "m \<le> n \<Longrightarrow> pread_bytes c off m @ pread_bytes c (off + m) (n - m) = pread_bytes c off n"
  using take_add [of m "n - m" "drop off c"] by (simp add: pread_bytes_def add.commute)

section \<open>Resizing\<close>

lemma length_truncate [simp]: "length (truncate_bytes c n) = n"
  by (simp add: truncate_bytes_def)

lemma byte0_truncate: "byte0 (truncate_bytes c n) i = (if i < n then byte0 c i else 0)"
  by (auto simp: byte0_def truncate_bytes_def nth_append)

section \<open>Copies into a buffer\<close>

lemma length_blit [simp]: "pos + length data \<le> length dst \<Longrightarrow> length (blit dst pos data) = length dst"
  by (simp add: blit_def)

lemma nth_blit:
  assumes "pos + length data \<le> length dst" and "i < length dst"
  shows "blit dst pos data ! i =
    (if pos \<le> i \<and> i < pos + length data then data ! (i - pos) else dst ! i)"
  using assms by (auto simp: blit_def nth_append min_def)

lemma take_drop_blit:
  assumes "pos + length data \<le> length dst"
  shows "take (length data) (drop pos (blit dst pos data)) = data"
  using assms by (simp add: blit_def)

section \<open>Several copies into one buffer\<close>

definition blits :: "(nat \<times> bytes) list \<Rightarrow> bytes \<Rightarrow> bytes" where
  "blits ws b = fold (\<lambda>(p, d) b. blit b p d) ws b"

definition blits_fit :: "(nat \<times> bytes) list \<Rightarrow> nat \<Rightarrow> bool" where
  "blits_fit ws n \<longleftrightarrow> list_all (\<lambda>(p, d). p + length d \<le> n) ws"

definition apart :: "nat \<times> bytes \<Rightarrow> nat \<times> bytes \<Rightarrow> bool" where
  "apart w v \<longleftrightarrow> fst w + length (snd w) \<le> fst v \<or> fst v + length (snd v) \<le> fst w"

lemma blits_simps [simp]:
  "blits [] b = b"
  "blits ((p, d) # ws) b = blits ws (blit b p d)"
  by (simp_all add: blits_def)

lemma blit_nil [simp]: "blit b p [] = b"
  by (simp add: blit_def)

lemma length_blits: "blits_fit ws (length b) \<Longrightarrow> length (blits ws b) = length b"
  by (induction ws arbitrary: b) (auto simp: blits_fit_def)

lemma nth_blits_outside:
  assumes "blits_fit ws (length b)" and "i < length b"
    and "\<And>p d. (p, d) \<in> set ws \<Longrightarrow> i < p \<or> p + length d \<le> i"
  shows "blits ws b ! i = b ! i"
  using assms
proof (induction ws arbitrary: b)
  case (Cons w ws)
  obtain p d where w: "w = (p, d)" by (cases w)
  have fit: "p + length d \<le> length b" "blits_fit ws (length b)"
    using Cons.prems(1) by (auto simp: w blits_fit_def)
  have "blits ws (blit b p d) ! i = blit b p d ! i"
    using Cons.prems fit by (intro Cons.IH) (auto simp: w)
  also have "\<dots> = b ! i" using Cons.prems(2) Cons.prems(3) [of p d] fit(1) by (auto simp: nth_blit w)
  finally show ?case by (simp add: w)
qed simp

lemma nth_blits_inside:
  assumes "blits_fit ws (length b)" and "sorted_wrt apart ws"
    and "(p, d) \<in> set ws" and "p \<le> i" and "i < p + length d"
  shows "blits ws b ! i = d ! (i - p)"
  using assms
proof (induction ws arbitrary: b)
  case (Cons w ws)
  obtain q e where w: "w = (q, e)" by (cases w)
  have fit: "q + length e \<le> length b" "blits_fit ws (length b)"
    using Cons.prems(1) by (auto simp: w blits_fit_def)
  show ?case
  proof (cases "(p, d) \<in> set ws")
    case True
    then show ?thesis using Cons fit by (simp add: w)
  next
    case False
    then have pd: "p = q" "d = e" using Cons.prems(3) by (auto simp: w)
    have i: "i < length b" using fit(1) Cons.prems(5) by (simp add: pd)
    have "blits ws (blit b q e) ! i = blit b q e ! i"
    proof (rule nth_blits_outside)
      fix p' d' assume "(p', d') \<in> set ws"
      then have "apart (q, e) (p', d')" using Cons.prems(2) by (auto simp: w)
      then show "i < p' \<or> p' + length d' \<le> i"
        using Cons.prems(4,5) by (auto simp: apart_def pd)
    qed (use fit i in auto)
    also have "\<dots> = d ! (i - p)" using Cons.prems(4,5) fit(1) i by (simp add: nth_blit pd)
    finally show ?thesis by (simp add: w)
  qed
qed simp

lemma slice_blits:
  assumes "blits_fit ws (length b)" and "sorted_wrt apart ws" and "(p, d) \<in> set ws"
  shows "take (length d) (drop p (blits ws b)) = d"
proof (rule nth_equalityI)
  have "p + length d \<le> length b" using assms(1,3) by (auto simp: blits_fit_def list_all_iff)
  then show len: "length (take (length d) (drop p (blits ws b))) = length d"
    using length_blits [OF assms(1)] by simp
  fix i assume "i < length (take (length d) (drop p (blits ws b)))"
  then have "i < length d" using len by simp
  then show "take (length d) (drop p (blits ws b)) ! i = d ! i"
    using nth_blits_inside [OF assms, of "p + i"] length_blits [OF assms(1)] \<open>p + length d \<le> length b\<close>
    by simp
qed

end
