(* ===== verification/Chunk_Store_Spec.thy ===== *)
theory Chunk_Store_Spec
  imports Byte_Buffers "HOL-Library.Multiset"
begin

text \<open>
  The contract of a store of byte chunks: writing at an offset of one chunk changes that chunk as
  \<open>pwrite\<close> does and no other. It is all the layers above rely on: a batch of writes to different
  chunks has one result, in whatever order the tasks of the daemon run.
\<close>

locale chunk_store =
  fixes wr :: "'s \<Rightarrow> 'k \<Rightarrow> nat \<Rightarrow> bytes \<Rightarrow> 's"
    and content :: "'s \<Rightarrow> 'k \<Rightarrow> bytes"
  assumes content_wr:
    "content (wr s k off d) k' = (if k' = k then pwrite_bytes (content s k) off d else content s k')"
begin

lemma content_batch:
  assumes "distinct (map fst ws)"
  shows "content (fold (\<lambda>(k, off, d) s. wr s k off d) ws s) k =
    (case map_of ws k of None \<Rightarrow> content s k | Some (off, d) \<Rightarrow> pwrite_bytes (content s k) off d)"
  using assms
proof (induction ws arbitrary: s)
  case (Cons w ws)
  obtain k' off d where w: "w = (k', off, d)" by (cases w) auto
  have "map_of ws k' = None" using Cons.prems by (simp add: w map_of_eq_None_iff)
  then show ?case
    using Cons by (auto simp: w content_wr split: option.splits)
qed simp

lemma content_batch_order:
  assumes "distinct (map fst ws)" and "mset ws' = mset ws"
  shows "content (fold (\<lambda>(k, off, d) s. wr s k off d) ws' s) =
    content (fold (\<lambda>(k, off, d) s. wr s k off d) ws s)"
proof -
  have d': "distinct (map fst ws')"
    using assms(1) mset_eq_imp_distinct_iff [of "map fst ws'" "map fst ws"] by (simp add: assms(2))
  have "map_of ws' = map_of ws"
    using map_of_inject_set [OF d' assms(1)] mset_eq_setD [OF assms(2)] by simp
  then show ?thesis
    by (intro ext) (simp add: content_batch [OF assms(1)] content_batch [OF d'])
qed

lemma read_back:
  "pread_bytes (content (wr s k off d) k) off (length d) = d"
  by (simp add: content_wr pread_pwrite)

end

end
