(* ===== verification/Decimal.thy ===== *)
theory Decimal
  imports Gkfs_Prelude
begin

text \<open>
  Decimal conversions of the C++ standard library as the sources use them: \<open>std::to_string\<close> and
  \<open>fmt::format_int\<close> print a number, \<open>std::stoul\<close> and \<open>std::stol\<close> parse one (leading blanks, an
  optional sign, the longest run of digits) and report how many characters they consumed. Their
  exceptions are values of a sum type.
\<close>

datatype conv_error = Invalid_argument | Out_of_range

section \<open>Printing\<close>

definition digit_char :: "nat \<Rightarrow> char" where
  "digit_char d = char_of (48 + d)"

fun show_nat :: "nat \<Rightarrow> string" where
  "show_nat n = (if n < 10 then [digit_char n] else show_nat (n div 10) @ [digit_char (n mod 10)])"

declare show_nat.simps [simp del]

definition show_int :: "int \<Rightarrow> string" where
  "show_int i = (if i < 0 then CHR ''-'' # show_nat (nat (- i)) else show_nat (nat i))"

section \<open>Parsing\<close>

definition is_digit :: "char \<Rightarrow> bool" where
  "is_digit c \<longleftrightarrow> 48 \<le> (of_char c :: nat) \<and> (of_char c :: nat) \<le> 57"

definition is_space :: "char \<Rightarrow> bool" where
  "is_space c \<longleftrightarrow> of_char c = (32 :: nat) \<or> (9 \<le> (of_char c :: nat) \<and> (of_char c :: nat) \<le> 13)"

definition digits_value :: "string \<Rightarrow> nat" where
  "digits_value ds = foldl (\<lambda>v c. 10 * v + (of_char c - 48)) 0 ds"

text \<open>Sign, digits and the number of characters read; no digit is \<open>invalid_argument\<close>.\<close>

definition scan_number :: "string \<Rightarrow> conv_error + bool \<times> nat \<times> nat" where
  "scan_number s =
     (let s1 = dropWhile is_space s;
          signed = (case s1 of c # _ \<Rightarrow> c = CHR ''-'' \<or> c = CHR ''+'' | [] \<Rightarrow> False);
          neg = (case s1 of c # _ \<Rightarrow> c = CHR ''-'' | [] \<Rightarrow> False);
          s2 = (if signed then tl s1 else s1);
          ds = takeWhile is_digit s2
      in if ds = [] then Inl Invalid_argument
         else Inr (neg, digits_value ds, length s - length s2 + length ds))"

definition stoul :: "string \<Rightarrow> conv_error + nat \<times> nat" where
  "stoul s = (case scan_number s of
       Inl e \<Rightarrow> Inl e
     | Inr (neg, v, read) \<Rightarrow>
         if 2 ^ 64 \<le> v then Inl Out_of_range
         else Inr (if neg then (2 ^ 64 - v) mod 2 ^ 64 else v, read))"

definition stol :: "string \<Rightarrow> conv_error + int \<times> nat" where
  "stol s = (case scan_number s of
       Inl e \<Rightarrow> Inl e
     | Inr (neg, v, read) \<Rightarrow>
         (let i = (if neg then - int v else int v)
          in if i < - (2 ^ 63) \<or> 2 ^ 63 \<le> i then Inl Out_of_range else Inr (i, read)))"

section \<open>Parsing undoes printing\<close>

lemma of_digit_char: "d < 10 \<Longrightarrow> (of_char (digit_char d) :: nat) = 48 + d"
  by (simp add: digit_char_def)

lemma is_digit_digit_char [simp]: "d < 10 \<Longrightarrow> is_digit (digit_char d)"
  by (simp add: is_digit_def of_digit_char)

lemma show_nat_digits: "list_all is_digit (show_nat n)"
proof (induction n rule: show_nat.induct)
  case (1 n)
  then show ?case by (cases "n < 10") (simp_all add: show_nat.simps [of n])
qed

lemma show_nat_nonempty [simp]: "show_nat n \<noteq> []"
  by (simp add: show_nat.simps [of n])

lemma digits_value_snoc: "digits_value (ds @ [c]) = 10 * digits_value ds + (of_char c - 48)"
  by (simp add: digits_value_def)

lemma digits_value_show_nat [simp]: "digits_value (show_nat n) = n"
proof (induction n rule: show_nat.induct)
  case (1 n)
  show ?case
  proof (cases "n < 10")
    case True
    then show ?thesis by (simp add: show_nat.simps [of n] digits_value_def of_digit_char)
  next
    case False
    with 1 show ?thesis
      by (simp add: show_nat.simps [of n] digits_value_snoc of_digit_char)
  qed
qed

definition ends_number :: "string \<Rightarrow> bool" where
  "ends_number rest \<longleftrightarrow> (case rest of [] \<Rightarrow> True | c # _ \<Rightarrow> \<not> is_digit c)"

lemma takeWhile_show_nat:
  "ends_number rest \<Longrightarrow> takeWhile is_digit (show_nat n @ rest) = show_nat n"
  using show_nat_digits [of n]
  by (auto simp: ends_number_def takeWhile_append list_all_iff split: list.splits)

lemma digit_not_space_or_sign:
  assumes "is_digit c"
  shows "\<not> is_space c" and "c \<noteq> CHR ''-''" and "c \<noteq> CHR ''+''"
  using assms by (auto simp: is_digit_def is_space_def)

lemma hd_show_nat: "\<exists>c cs. show_nat n = c # cs \<and> is_digit c"
  using show_nat_digits [of n] by (cases "show_nat n") simp_all

lemma scan_number_show_nat:
  assumes "ends_number rest"
  shows "scan_number (show_nat n @ rest) = Inr (False, n, length (show_nat n))"
proof -
  obtain c cs where c: "show_nat n = c # cs" "is_digit c" using hd_show_nat by blast
  have "takeWhile is_digit (c # cs @ rest) = c # cs" "digits_value (c # cs) = n"
    using takeWhile_show_nat [OF assms, of n] digits_value_show_nat [of n] by (simp_all add: c)
  then show ?thesis
    using c digit_not_space_or_sign [OF c(2)] by (simp add: scan_number_def Let_def)
qed

lemma scan_number_neg_show_nat:
  assumes "ends_number rest"
  shows "scan_number (CHR ''-'' # show_nat n @ rest) = Inr (True, n, Suc (length (show_nat n)))"
proof -
  have "takeWhile is_digit (show_nat n @ rest) = show_nat n"
    by (rule takeWhile_show_nat [OF assms])
  then show ?thesis
    by (simp add: scan_number_def Let_def is_space_def)
qed

lemma stoul_show_nat:
  "ends_number rest \<Longrightarrow> n < 2 ^ 64 \<Longrightarrow> stoul (show_nat n @ rest) = Inr (n, length (show_nat n))"
  by (simp add: stoul_def scan_number_show_nat)

lemma stol_show_int:
  assumes "ends_number rest" and "- (2 ^ 63) \<le> i" and "i < 2 ^ 63"
  shows "stol (show_int i @ rest) = Inr (i, length (show_int i))"
  using assms
  by (auto simp: stol_def show_int_def scan_number_show_nat scan_number_neg_show_nat Let_def)

lemma show_nat_inject [simp]: "show_nat m = show_nat n \<longleftrightarrow> m = n"
  by (metis digits_value_show_nat)

end
