(* ===== verification/Chunk_Storage.thy ===== *)
theory Chunk_Storage
  imports Chunk_Store_Spec Decimal
begin

text \<open>
  The daemon's chunk storage (\<open>src/daemon/backend/data/chunk_storage.cpp\<close>): every GekkoFS file is a
  directory of the node-local file system, every chunk a file in it named by its decimal index.

  The node-local file system maps directory paths to directories, a directory is the list of its
  entries in iteration order. What a system call may do besides succeeding (fail, transfer less
  than asked) is an argument: an \<open>io_env\<close> per call. The events of a transfer loop are a finite
  list after which the kernel transfers everything; \<open>pread\<close> returns 0 only at the end of the file.

  \<open>write_chunk\<close> and \<open>read_chunk\<close> assert that the range lies within a chunk. Assertions are compiled out of
  the default release build, which is the one modelled; properties of the two carry the assertion as a
  hypothesis.
\<close>

section \<open>The node-local file system\<close>

type_synonym chunk_dir = "(string \<times> bytes) list"
type_synonym local_fs = "string \<rightharpoonup> chunk_dir"

datatype io_event = Transferred nat | Failed errno

record io_env =
  mkdir_err :: "errno option"
  open_err :: "errno option"
  io_events :: "io_event list"

datatype storage_exn = ChunkStorageException errno | StdException

definition quiet_env :: io_env where
  "quiet_env = \<lparr>mkdir_err = None, open_err = None, io_events = []\<rparr>"

definition dirname :: "string \<Rightarrow> string" where
  "dirname p = rev (tl (dropWhile (\<lambda>c. c \<noteq> CHR ''/'') (rev p)))"

definition basename :: "string \<Rightarrow> string" where
  "basename p = rev (takeWhile (\<lambda>c. c \<noteq> CHR ''/'') (rev p))"

definition fs_lookup :: "local_fs \<Rightarrow> string \<Rightarrow> bytes option" where
  "fs_lookup fs p = (case fs (dirname p) of None \<Rightarrow> None | Some d \<Rightarrow> map_of d (basename p))"

definition fs_store :: "local_fs \<Rightarrow> string \<Rightarrow> bytes \<Rightarrow> local_fs" where
  "fs_store fs p c = (case fs (dirname p) of
       None \<Rightarrow> fs
     | Some d \<Rightarrow> fs(dirname p \<mapsto> AList.update (basename p) c d))"

text \<open>\<open>mkdir\<close>, and \<open>open\<close> with and without \<open>O_CREAT\<close>; the second component is the state afterwards.\<close>

definition fs_mkdir :: "errno option \<Rightarrow> local_fs \<Rightarrow> string \<Rightarrow> errno option \<times> local_fs" where
  "fs_mkdir err fs dir = (case err of
       Some e \<Rightarrow> (Some e, fs)
     | None \<Rightarrow> if fs dir = None then (None, fs(dir \<mapsto> [])) else (Some EEXIST, fs))"

definition fs_open_creat :: "errno option \<Rightarrow> local_fs \<Rightarrow> string \<Rightarrow> errno + bytes" where
  "fs_open_creat err fs p = (case err of
       Some e \<Rightarrow> Inl e
     | None \<Rightarrow> if fs (dirname p) = None then Inl ENOENT
              else Inr (case fs_lookup fs p of None \<Rightarrow> [] | Some c \<Rightarrow> c))"

definition fs_open_read :: "errno option \<Rightarrow> local_fs \<Rightarrow> string \<Rightarrow> errno + bytes" where
  "fs_open_read err fs p = (case err of
       Some e \<Rightarrow> Inl e
     | None \<Rightarrow> (case fs_lookup fs p of None \<Rightarrow> Inl ENOENT | Some c \<Rightarrow> Inr c))"

section \<open>ChunkStorage\<close>

record chunk_storage =
  root_path :: string
  chunksize :: u64

definition limbo_mode :: bool where
  "limbo_mode = False"

definition absolute :: "chunk_storage \<Rightarrow> string \<Rightarrow> string" where
  "absolute cs internal_path = root_path cs @ ''/'' @ internal_path"

definition get_chunks_dir :: "string \<Rightarrow> string" where
  "get_chunks_dir file_path =
     map (\<lambda>c. if c = CHR ''/'' then CHR '':'' else c) (drop 1 file_path)"

definition get_chunk_path :: "string \<Rightarrow> u64 \<Rightarrow> string" where
  "get_chunk_path file_path chunk_id = get_chunks_dir file_path @ ''/'' @ show_nat (unat chunk_id)"

definition init_chunk_space ::
    "chunk_storage \<Rightarrow> io_env \<Rightarrow> local_fs \<Rightarrow> string \<Rightarrow> storage_exn + local_fs" where
  "init_chunk_space cs env fs file_path =
     (case fs_mkdir (mkdir_err env) fs (absolute cs (get_chunks_dir file_path)) of
        (Some e, fs') \<Rightarrow> if e \<noteq> EEXIST then Inl (ChunkStorageException e) else Inr fs'
      | (None, fs') \<Rightarrow> Inr fs')"

text \<open>The constructor, given whether the root directory is readable and writable (\<open>access\<close>).\<close>

definition EPERM :: errno where "EPERM = 1"

definition ChunkStorage_new :: "bool \<Rightarrow> string \<Rightarrow> u64 \<Rightarrow> storage_exn + chunk_storage" where
  "ChunkStorage_new access_ok path csize =
     (if \<not> access_ok then Inl (ChunkStorageException EPERM)
      else Inr \<lparr>root_path = path, chunksize = csize\<rparr>)"

text \<open>
  \<open>fs::remove_all\<close> removes the directory with its entries, or fails after having removed some
  of them; a missing directory is no error.
\<close>

definition destroy_chunk_space ::
    "chunk_storage \<Rightarrow> (nat \<times> errno) option \<Rightarrow> local_fs \<Rightarrow> string \<Rightarrow> storage_exn option \<times> local_fs" where
  "destroy_chunk_space cs rm_err fs file_path =
     (let dir = absolute cs (get_chunks_dir file_path)
      in case rm_err of
           None \<Rightarrow> (None, fs(dir := None))
         | Some (removed, e) \<Rightarrow>
             (if e \<noteq> ENOENT then Some (ChunkStorageException e) else None,
              fs(dir := map_option (drop removed) (fs dir))))"

text \<open>\<open>EWOULDBLOCK\<close> and \<open>EAGAIN\<close> are the same number on Linux.\<close>

definition retryable :: "errno \<Rightarrow> bool" where
  "retryable e \<longleftrightarrow> e = EINTR \<or> e = EAGAIN"

text \<open>
  The loop of \<open>write_chunk\<close>. A \<open>continue\<close> in a do-while loop evaluates the loop condition, so
  an interrupted call is repeated only while something is left to write.
\<close>

primrec pwrite_loop ::
    "io_event list \<Rightarrow> bytes \<Rightarrow> nat \<Rightarrow> nat \<Rightarrow> nat \<Rightarrow> bytes \<Rightarrow> (storage_exn + nat) \<times> bytes" where
  "pwrite_loop [] buf sz offset wrote_total file =
     (let wrote = sz - wrote_total
      in (Inr (wrote_total + wrote),
          pwrite_bytes file (offset + wrote_total) (take wrote (drop wrote_total buf))))"
| "pwrite_loop (ev # evs) buf sz offset wrote_total file =
     (case ev of
        Failed e \<Rightarrow>
          if retryable e
          then (if wrote_total \<noteq> sz then pwrite_loop evs buf sz offset wrote_total file
                else (Inr wrote_total, file))
          else (Inl (ChunkStorageException e), file)
      | Transferred n \<Rightarrow>
          (let wrote = min n (sz - wrote_total);
               file' = pwrite_bytes file (offset + wrote_total) (take wrote (drop wrote_total buf));
               wrote_total' = wrote_total + wrote
           in if wrote_total' \<noteq> sz then pwrite_loop evs buf sz offset wrote_total' file'
              else (Inr wrote_total', file')))"

definition write_chunk ::
    "chunk_storage \<Rightarrow> io_env \<Rightarrow> local_fs \<Rightarrow> string \<Rightarrow> u64 \<Rightarrow> bytes \<Rightarrow> nat \<Rightarrow> nat
       \<Rightarrow> (storage_exn + nat) \<times> local_fs" where
  "write_chunk cs env fs file_path chunk_id buf sz offset =
     (if limbo_mode
      then (case open_err env of
              Some e \<Rightarrow> (Inl (ChunkStorageException e), fs)
            | None \<Rightarrow> (fst (pwrite_loop (io_events env) buf sz offset 0 []), fs))
      else (case init_chunk_space cs env fs file_path of
              Inl e \<Rightarrow> (Inl e, fs)
            | Inr fs1 \<Rightarrow>
                (let chunk_path = absolute cs (get_chunk_path file_path chunk_id)
                 in case fs_open_creat (open_err env) fs1 chunk_path of
                      Inl e \<Rightarrow> (Inl (ChunkStorageException e), fs1)
                    | Inr file \<Rightarrow>
                        (let (r, file') = pwrite_loop (io_events env) buf sz offset 0 file
                         in (r, fs_store fs1 chunk_path file')))))"

text \<open>
  The loop of \<open>read_chunk\<close>; the value is the data placed at the start of the caller's buffer,
  whose length is the value the source returns.
\<close>

primrec pread_loop ::
    "io_event list \<Rightarrow> bytes \<Rightarrow> nat \<Rightarrow> nat \<Rightarrow> bytes \<Rightarrow> storage_exn + bytes" where
  "pread_loop [] file sz offset got =
     Inr (got @ pread_bytes file (offset + length got) (sz - length got))"
| "pread_loop (ev # evs) file sz offset got =
     (case ev of
        Failed e \<Rightarrow>
          if retryable e
          then (if length got \<noteq> sz then pread_loop evs file sz offset got else Inr got)
          else Inl (ChunkStorageException e)
      | Transferred n \<Rightarrow>
          (let data = pread_bytes file (offset + length got) (min (max 1 n) (sz - length got))
           in if data = [] then Inr got
              else if length (got @ data) \<noteq> sz then pread_loop evs file sz offset (got @ data)
              else Inr (got @ data)))"

definition read_chunk ::
    "chunk_storage \<Rightarrow> io_env \<Rightarrow> local_fs \<Rightarrow> string \<Rightarrow> u64 \<Rightarrow> nat \<Rightarrow> nat \<Rightarrow> storage_exn + bytes" where
  "read_chunk cs env fs file_path chunk_id sz offset =
     (if limbo_mode
      then (case open_err env of
              Some e \<Rightarrow> Inl (ChunkStorageException e)
            | None \<Rightarrow> pread_loop (io_events env) (replicate (offset + sz) 0) sz offset [])
      else (case fs_open_read (open_err env) fs (absolute cs (get_chunk_path file_path chunk_id)) of
              Inl e \<Rightarrow> Inl (ChunkStorageException e)
            | Inr file \<Rightarrow> pread_loop (io_events env) file sz offset []))"

text \<open>
  The directory iteration of \<open>trim_chunk_space\<close>; \<open>unl\<close> gives the error of \<open>unlink\<close> on an entry, if
  any. A name \<open>std::stoul\<close> rejects raises an exception out of the loop.
\<close>

primrec trim_loop ::
    "(string \<Rightarrow> errno option) \<Rightarrow> u64 \<Rightarrow> chunk_dir \<Rightarrow> chunk_dir \<Rightarrow> bool
       \<Rightarrow> storage_exn option \<times> chunk_dir \<times> bool" where
  "trim_loop unl chunk_start [] d err_flag = (None, d, err_flag)"
| "trim_loop unl chunk_start (entry # entries) d err_flag =
     (case stoul (fst entry) of
        Inl _ \<Rightarrow> (Some StdException, d, err_flag)
      | Inr (chunk_id, _) \<Rightarrow>
          if unat chunk_start \<le> chunk_id
          then (case unl (fst entry) of
                  Some e \<Rightarrow> trim_loop unl chunk_start entries d (err_flag \<or> e \<noteq> ENOENT)
                | None \<Rightarrow> trim_loop unl chunk_start entries (AList.delete (fst entry) d) err_flag)
          else trim_loop unl chunk_start entries d err_flag)"

definition trim_chunk_space ::
    "chunk_storage \<Rightarrow> (string \<Rightarrow> errno option) \<Rightarrow> local_fs \<Rightarrow> string \<Rightarrow> u64
       \<Rightarrow> storage_exn option \<times> local_fs" where
  "trim_chunk_space cs unl fs file_path chunk_start =
     (let dir = absolute cs (get_chunks_dir file_path)
      in case fs dir of
           None \<Rightarrow> (Some StdException, fs)
         | Some d \<Rightarrow>
             (case trim_loop unl chunk_start d d False of
                (Some e, d', _) \<Rightarrow> (Some e, fs(dir \<mapsto> d'))
              | (None, d', err_flag) \<Rightarrow>
                  (if err_flag then Some (ChunkStorageException EIO) else None, fs(dir \<mapsto> d'))))"

definition truncate_chunk_file ::
    "chunk_storage \<Rightarrow> errno option \<Rightarrow> local_fs \<Rightarrow> string \<Rightarrow> u64 \<Rightarrow> nat \<Rightarrow> storage_exn option \<times> local_fs" where
  "truncate_chunk_file cs err fs file_path chunk_id len =
     (let chunk_path = absolute cs (get_chunk_path file_path chunk_id)
      in case err of
           Some e \<Rightarrow> (Some (ChunkStorageException e), fs)
         | None \<Rightarrow>
             (case fs_lookup fs chunk_path of
                None \<Rightarrow> (Some (ChunkStorageException ENOENT), fs)
              | Some c \<Rightarrow> (None, fs_store fs chunk_path (truncate_bytes c len))))"

record ChunkStat =
  chunk_size :: u64
  chunk_total :: u64
  chunk_free :: u64

text \<open>\<open>chunk_stat\<close>, given what \<open>statfs\<close> reports: block size, blocks and available blocks.\<close>

definition chunk_stat :: "chunk_storage \<Rightarrow> errno + u64 \<times> u64 \<times> u64 \<Rightarrow> storage_exn + ChunkStat" where
  "chunk_stat cs statfs = (case statfs of
       Inl e \<Rightarrow> Inl (ChunkStorageException e)
     | Inr (f_bsize, f_blocks, f_bavail) \<Rightarrow>
         (let bytes_total = f_bsize * f_blocks;
              bytes_free = f_bsize * f_bavail
          in Inr \<lparr>chunk_size = chunksize cs, chunk_total = bytes_total div chunksize cs,
                  chunk_free = bytes_free div chunksize cs\<rparr>))"

section \<open>Paths\<close>

lemma dirname_basename [simp]:
  assumes "CHR ''/'' \<notin> set n"
  shows "dirname (d @ CHR ''/'' # n) = d" and "basename (d @ CHR ''/'' # n) = n"
proof -
  have "takeWhile (\<lambda>c. c \<noteq> CHR ''/'') (rev n @ CHR ''/'' # rev d) = rev n"
    and "dropWhile (\<lambda>c. c \<noteq> CHR ''/'') (rev n @ CHR ''/'' # rev d) = CHR ''/'' # rev d"
    using assms by (auto simp: takeWhile_append dropWhile_append)
  then show "dirname (d @ CHR ''/'' # n) = d" "basename (d @ CHR ''/'' # n) = n"
    by (simp_all add: dirname_def basename_def)
qed

lemma slash_not_digit [simp]: "CHR ''/'' \<notin> set (show_nat n)"
  using show_nat_digits [of n] by (auto simp: list_all_iff is_digit_def)

lemma dirname_chunk_path [simp]:
  "dirname (absolute cs (get_chunk_path p i)) = absolute cs (get_chunks_dir p)"
  using dirname_basename(1) [OF slash_not_digit [of "unat i"], of "root_path cs @ ''/'' @ get_chunks_dir p"]
  by (simp add: absolute_def get_chunk_path_def)

lemma basename_chunk_path [simp]:
  "basename (absolute cs (get_chunk_path p i)) = show_nat (unat i)"
  using dirname_basename(2) [OF slash_not_digit [of "unat i"], of "root_path cs @ ''/'' @ get_chunks_dir p"]
  by (simp add: absolute_def get_chunk_path_def)

lemma absolute_inject [simp]: "absolute cs p = absolute cs q \<longleftrightarrow> p = q"
  by (simp add: absolute_def)

text \<open>Paths as the client sends them: absolute, and without the character that replaces '/'.\<close>

definition storable_path :: "string \<Rightarrow> bool" where
  "storable_path p \<longleftrightarrow> (case p of c # _ \<Rightarrow> c = CHR ''/'' | [] \<Rightarrow> False) \<and> CHR '':'' \<notin> set p"

lemma get_chunks_dir_inject:
  assumes "storable_path p" and "storable_path q"
  shows "get_chunks_dir p = get_chunks_dir q \<longleftrightarrow> p = q"
proof
  let ?f = "\<lambda>c. if c = CHR ''/'' then CHR '':'' else c"
  assume eq: "get_chunks_dir p = get_chunks_dir q"
  obtain p' q' where pq: "p = CHR ''/'' # p'" "q = CHR ''/'' # q'"
    using assms by (auto simp: storable_path_def split: list.splits)
  have "inj_on ?f (set p' \<union> set q')"
    using assms by (auto simp: pq storable_path_def inj_on_def split: if_splits)
  moreover have "map ?f p' = map ?f q'" using eq by (simp add: pq get_chunks_dir_def)
  ultimately have "p' = q'" by (rule map_inj_on [rotated])
  then show "p = q" by (simp add: pq)
qed simp

section \<open>The contents of a chunk\<close>

definition chunk_content :: "chunk_storage \<Rightarrow> local_fs \<Rightarrow> string \<Rightarrow> u64 \<Rightarrow> bytes option" where
  "chunk_content cs fs p i = fs_lookup fs (absolute cs (get_chunk_path p i))"

definition chunk_bytes :: "chunk_storage \<Rightarrow> local_fs \<Rightarrow> string \<Rightarrow> u64 \<Rightarrow> bytes" where
  "chunk_bytes cs fs p i = (case chunk_content cs fs p i of None \<Rightarrow> [] | Some c \<Rightarrow> c)"

text \<open>The state after a chunk was given new contents, its directory created on demand.\<close>

definition put_chunk :: "chunk_storage \<Rightarrow> local_fs \<Rightarrow> string \<Rightarrow> u64 \<Rightarrow> bytes \<Rightarrow> local_fs" where
  "put_chunk cs fs p i c =
     (let dir = absolute cs (get_chunks_dir p)
      in fs(dir \<mapsto> AList.update (show_nat (unat i)) c (case fs dir of None \<Rightarrow> [] | Some d \<Rightarrow> d)))"

lemma chunk_content_eq:
  "chunk_content cs fs p i =
     (case fs (absolute cs (get_chunks_dir p)) of None \<Rightarrow> None | Some d \<Rightarrow> map_of d (show_nat (unat i)))"
  by (simp add: chunk_content_def fs_lookup_def split: option.splits)

lemma chunk_content_put:
  "chunk_content cs (put_chunk cs fs p i c) q j =
     (if get_chunks_dir q = get_chunks_dir p \<and> j = i then Some c else chunk_content cs fs q j)"
  by (auto simp: chunk_content_eq put_chunk_def Let_def update_conv' word_unat_eq_iff split: option.splits)

lemma chunk_bytes_put:
  "chunk_bytes cs (put_chunk cs fs p i c) q j =
     (if get_chunks_dir q = get_chunks_dir p \<and> j = i then c else chunk_bytes cs fs q j)"
  by (simp add: chunk_bytes_def chunk_content_put)

section \<open>Transfer loops\<close>

definition transient :: "io_event list \<Rightarrow> bool" where
  "transient evs \<longleftrightarrow> list_all (\<lambda>ev. case ev of Failed e \<Rightarrow> retryable e | Transferred _ \<Rightarrow> True) evs"

lemma transient_simps [simp]:
  "transient []"
  "transient (Failed e # evs) \<longleftrightarrow> retryable e \<and> transient evs"
  "transient (Transferred n # evs) \<longleftrightarrow> transient evs"
  by (simp_all add: transient_def)

lemma pwrite_take_step:
  assumes "wt + n \<le> length buf"
  shows "pwrite_bytes (pwrite_bytes f off (take wt buf)) (off + wt) (take n (drop wt buf)) =
    pwrite_bytes f off (take (wt + n) buf)"
  using assms pwrite_append [of f off "take wt buf" "take n (drop wt buf)"]
  by (simp add: take_add)

text \<open>
  Whatever the kernel does, the file holds a prefix of the data at the requested offset; the
  loop reports success exactly when that prefix is all of it.
\<close>

lemma pwrite_loop_prefix:
  assumes "wt \<le> sz" and "sz \<le> length buf"
  shows "\<exists>n \<le> sz. snd (pwrite_loop evs buf sz off wt (pwrite_bytes f off (take wt buf))) =
        pwrite_bytes f off (take n buf) \<and>
      (case fst (pwrite_loop evs buf sz off wt (pwrite_bytes f off (take wt buf))) of
         Inr m \<Rightarrow> m = sz \<and> n = sz
       | Inl x \<Rightarrow> \<not> transient evs \<and> (\<exists>e. x = ChunkStorageException e \<and> \<not> retryable e))"
  using assms(1)
proof (induction evs arbitrary: wt)
  case Nil
  then show ?case using assms(2) pwrite_take_step [of wt "sz - wt" buf f off] by (auto simp: Let_def)
next
  case (Cons ev evs)
  show ?case
  proof (cases ev)
    case (Transferred n)
    define w where "w = min n (sz - wt)"
    have w: "wt + w \<le> sz" using Cons.prems by (simp add: w_def)
    have step: "pwrite_bytes (pwrite_bytes f off (take wt buf)) (off + wt) (take w (drop wt buf)) =
        pwrite_bytes f off (take (wt + w) buf)"
      using w assms(2) by (intro pwrite_take_step) simp
    have eq: "pwrite_loop (ev # evs) buf sz off wt (pwrite_bytes f off (take wt buf)) =
        (if wt + w \<noteq> sz then pwrite_loop evs buf sz off (wt + w) (pwrite_bytes f off (take (wt + w) buf))
         else (Inr (wt + w), pwrite_bytes f off (take (wt + w) buf)))"
      by (simp only: pwrite_loop.simps Transferred io_event.case Let_def w_def [symmetric] step)
    have t: "transient (ev # evs) = transient evs" by (simp add: Transferred)
    show ?thesis
      using Cons.IH [OF w] unfolding eq t by (cases "wt + w = sz") auto
  next
    case (Failed e)
    then show ?thesis using Cons by (auto cong: sum.case_cong)
  qed
qed

lemma pwrite_loop_ok:
  assumes "transient evs" and "sz \<le> length buf"
  shows "pwrite_loop evs buf sz off 0 f = (Inr sz, pwrite_bytes f off (take sz buf))"
  using pwrite_loop_prefix [of 0 sz buf evs off f] assms
  by (cases "pwrite_loop evs buf sz off 0 f"; cases "fst (pwrite_loop evs buf sz off 0 f)") auto

lemma pread_loop_ok:
  assumes "transient evs" and "length got \<le> sz" and "got = pread_bytes f off (length got)"
  shows "pread_loop evs f sz off got = Inr (pread_bytes f off sz)"
  using assms
proof (induction evs arbitrary: got)
  case Nil
  then show ?case using pread_split [of "length got" sz f off] by simp
next
  case (Cons ev evs)
  show ?case
  proof (cases ev)
    case (Transferred n)
    define k where "k = min (max 1 n) (sz - length got)"
    define data where "data = pread_bytes f (off + length got) k"
    have k: "k \<le> sz - length got" "k = 0 \<Longrightarrow> sz = length got"
      using Cons.prems(2) by (auto simp: k_def)
    have eq: "pread_loop (ev # evs) f sz off got =
        (if data = [] then Inr got
         else if length (got @ data) \<noteq> sz then pread_loop evs f sz off (got @ data)
         else Inr (got @ data))"
      by (simp only: pread_loop.simps Transferred io_event.case Let_def k_def [symmetric] data_def [symmetric])
    have "pread_bytes f off (length got) @ data = pread_bytes f off (length got + k)"
      using pread_split [of "length got" "length got + k" f off] by (simp add: data_def)
    then have app: "got @ data = pread_bytes f off (length got + k)"
      using Cons.prems(3) by simp
    have pre: "got @ data = pread_bytes f off (length (got @ data))"
      unfolding app by (simp add: pread_bytes_def min_def)
    have len: "length (got @ data) \<le> sz" using Cons.prems(2) k(1) by (simp add: data_def)
    have tr: "transient evs" using Cons.prems(1) by (simp add: Transferred)
    have eof: "got = pread_bytes f off sz" if "data = []"
    proof -
      have "length f \<le> off + length got \<or> sz = length got"
        using that k(2) length_pread [of f "off + length got" k] by (auto simp: data_def min_def split: if_splits)
      then show ?thesis
        using Cons.prems(2,3) pread_split [of "length got" sz f off] by (auto simp: pread_bytes_def)
    qed
    show ?thesis
      unfolding eq using eof pre Cons.IH [OF tr len pre] by (cases "data = []"; cases "length (got @ data) = sz") auto
  next
    case (Failed e)
    then show ?thesis using Cons by (cases "length got = sz") auto
  qed
qed

section \<open>The operations\<close>

definition benign_env :: "io_env \<Rightarrow> bool" where
  "benign_env env \<longleftrightarrow> mkdir_err env = None \<and> open_err env = None \<and> transient (io_events env)"

lemma benign_quiet [simp]: "benign_env quiet_env"
  by (simp add: benign_env_def quiet_env_def)

lemma store_after_mkdir:
  assumes "fs_mkdir None fs (absolute cs (get_chunks_dir p)) = (r, fs1)"
  shows "fs_store fs1 (absolute cs (get_chunk_path p i)) c = put_chunk cs fs p i c"
    and "fs1 (absolute cs (get_chunks_dir p)) \<noteq> None"
    and "chunk_content cs fs1 q j = chunk_content cs fs q j"
    and "r = None \<or> r = Some EEXIST"
  using assms
  by (auto simp: fs_mkdir_def fs_store_def put_chunk_def Let_def chunk_content_eq
      split: option.splits if_splits)

lemma write_chunk_ok:
  assumes "benign_env env" and "sz \<le> length buf"
  shows "write_chunk cs env fs p i buf sz off =
    (Inr sz, put_chunk cs fs p i (pwrite_bytes (chunk_bytes cs fs p i) off (take sz buf)))"
proof -
  obtain r fs1 where m: "fs_mkdir None fs (absolute cs (get_chunks_dir p)) = (r, fs1)"
    by fastforce
  have init: "init_chunk_space cs env fs p = Inr fs1"
    using m store_after_mkdir(4) [OF m] assms(1)
    by (auto simp: init_chunk_space_def benign_env_def)
  have "fs_open_creat (open_err env) fs1 (absolute cs (get_chunk_path p i)) = Inr (chunk_bytes cs fs p i)"
    using store_after_mkdir(2) [OF m] store_after_mkdir(3) [OF m, of p i] assms(1)
    by (simp add: fs_open_creat_def benign_env_def chunk_bytes_def chunk_content_def)
  then show ?thesis
    using init pwrite_loop_ok [OF _ assms(2)] assms(1) store_after_mkdir(1) [OF m]
    by (simp add: write_chunk_def limbo_mode_def benign_env_def)
qed

text \<open>
  For every behaviour of the system calls: other chunks are untouched, and the chunk holds a
  prefix of the data at the offset, all of it when the call reports success.
\<close>

definition same_elsewhere ::
    "chunk_storage \<Rightarrow> local_fs \<Rightarrow> local_fs \<Rightarrow> string \<Rightarrow> u64 \<Rightarrow> bool" where
  "same_elsewhere cs fs fs' p i \<longleftrightarrow>
     (\<forall>q j. (get_chunks_dir q, j) \<noteq> (get_chunks_dir p, i) \<longrightarrow>
        chunk_content cs fs' q j = chunk_content cs fs q j)"

lemma same_elsewhere_put: "same_elsewhere cs fs (put_chunk cs fs p i c) p i"
  by (simp add: same_elsewhere_def chunk_content_put)

lemma write_chunk_any:
  assumes "sz \<le> length buf" and "write_chunk cs env fs p i buf sz off = (r, fs')"
  shows "same_elsewhere cs fs fs' p i" (is ?same)
    and "\<exists>n \<le> sz. chunk_bytes cs fs' p i = pwrite_bytes (chunk_bytes cs fs p i) off (take n buf) \<and>
           (\<forall>m. r = Inr m \<longrightarrow> m = sz \<and> n = sz)" (is ?data)
proof -
  have stay: "?same \<and> ?data" if "\<And>q j. chunk_content cs fs' q j = chunk_content cs fs q j" "\<And>m. r \<noteq> Inr m"
    using that by (auto simp: same_elsewhere_def chunk_bytes_def intro!: exI [of _ 0])
  obtain m fs1 where mk: "fs_mkdir (mkdir_err env) fs (absolute cs (get_chunks_dir p)) = (m, fs1)"
    by fastforce
  have c1: "chunk_content cs fs1 q j = chunk_content cs fs q j" for q j
    using mk store_after_mkdir(3) [of fs cs p m fs1 q j] by (cases "mkdir_err env") (auto simp: fs_mkdir_def)
  let ?path = "absolute cs (get_chunk_path p i)"
  show ?same ?data
  proof (atomize (full), cases "init_chunk_space cs env fs p")
    case (Inl e)
    then show "?same \<and> ?data" using assms(2) by (intro stay) (auto simp: write_chunk_def limbo_mode_def)
  next
    case (Inr fs2)
    then have [simp]: "fs2 = fs1" using mk by (auto simp: init_chunk_space_def split: option.splits if_splits)
    show "?same \<and> ?data"
    proof (cases "fs_open_creat (open_err env) fs1 ?path")
      case (Inl e)
      then show ?thesis
        using assms(2) \<open>init_chunk_space cs env fs p = Inr fs2\<close> c1
        by (intro stay) (auto simp: write_chunk_def limbo_mode_def)
    next
      case opened: (Inr fl)
      have fl: "fl = chunk_bytes cs fs p i" and dir: "fs1 (absolute cs (get_chunks_dir p)) \<noteq> None"
        using opened c1 [of p i]
        by (auto simp: fs_open_creat_def chunk_bytes_def chunk_content_def split: option.splits if_splits)
      obtain fl' where l: "pwrite_loop (io_events env) buf sz off 0 fl = (r, fl')"
        and fs': "fs' = fs_store fs1 ?path fl'"
        using assms(2) Inr opened by (auto simp: write_chunk_def limbo_mode_def split: prod.splits)
      have put: "fs' = put_chunk cs fs1 p i fl'"
        using dir by (auto simp: fs' fs_store_def put_chunk_def)
      have ?same unfolding put by (simp add: same_elsewhere_def chunk_content_put c1)
      moreover have ?data
        using pwrite_loop_prefix [of 0 sz buf "io_events env" off fl] assms(1) l
        unfolding put by (cases r) (auto simp: chunk_bytes_put fl)
      ultimately show ?thesis ..
    qed
  qed
qed

lemma read_chunk_ok:
  assumes "open_err env = None" and "transient (io_events env)" and "chunk_content cs fs p i = Some c"
  shows "read_chunk cs env fs p i sz off = Inr (pread_bytes c off sz)"
  using assms pread_loop_ok [of "io_events env" "[]" sz c off]
  by (simp add: read_chunk_def limbo_mode_def fs_open_read_def chunk_content_def pread_bytes_def)

lemma read_chunk_missing:
  assumes "open_err env = None" and "chunk_content cs fs p i = None"
  shows "read_chunk cs env fs p i sz off = Inl (ChunkStorageException ENOENT)"
  using assms by (simp add: read_chunk_def limbo_mode_def fs_open_read_def chunk_content_def)

lemma truncate_chunk_file_ok:
  assumes "chunk_content cs fs p i = Some c"
  shows "truncate_chunk_file cs None fs p i len = (None, put_chunk cs fs p i (truncate_bytes c len))"
  using assms
  by (auto simp: truncate_chunk_file_def Let_def chunk_content_def fs_lookup_def fs_store_def put_chunk_def
      split: option.splits)

lemma chunk_content_destroy:
  "chunk_content cs (snd (destroy_chunk_space cs None fs p)) q i =
     (if get_chunks_dir q = get_chunks_dir p then None else chunk_content cs fs q i)"
  by (simp add: destroy_chunk_space_def Let_def chunk_content_eq)

section \<open>Trimming\<close>

text \<open>The names chunk files have: the decimal numeral of a 64-bit number, nothing else.\<close>

definition chunk_id_of :: "string \<Rightarrow> nat" where
  "chunk_id_of n = (case stoul n of Inr (v, _) \<Rightarrow> v | Inl _ \<Rightarrow> 0)"

definition canonical_name :: "string \<Rightarrow> bool" where
  "canonical_name n \<longleftrightarrow> (case stoul n of Inr (v, _) \<Rightarrow> n = show_nat v | Inl _ \<Rightarrow> False)"

lemma stoul_chunk_name [simp]:
  "stoul (show_nat (unat (i :: u64))) = Inr (unat i, length (show_nat (unat i)))"
  using stoul_show_nat [of "[]" "unat i"] unat_u64_less [of i] by (simp add: ends_number_def)

lemma canonical_chunk_name [simp]: "canonical_name (show_nat (unat (i :: u64)))"
  and chunk_id_of_name [simp]: "chunk_id_of (show_nat (unat i)) = unat i"
  by (simp_all add: canonical_name_def chunk_id_of_def)

lemma trim_loop_ok:
  assumes "list_all (canonical_name \<circ> fst) es"
  shows "\<exists>d'. trim_loop (\<lambda>_. None) start es d flag = (None, d', flag) \<and>
     map_of d' = (\<lambda>n. if n \<in> fst ` set es \<and> unat start \<le> chunk_id_of n then None else map_of d n) \<and>
     set d' \<subseteq> set d \<and> (distinct (map fst d) \<longrightarrow> distinct (map fst d'))"
  using assms
proof (induction es arbitrary: d)
  case (Cons e es)
  obtain v l where st: "stoul (fst e) = Inr (v, l)"
    using Cons.prems by (auto simp: canonical_name_def split: sum.splits)
  then have v: "chunk_id_of (fst e) = v" by (simp add: chunk_id_of_def)
  show ?case
  proof (cases "unat start \<le> v")
    case False
    then show ?thesis using Cons.IH [of d] Cons.prems st v by (auto simp: fun_eq_iff)
  next
    case True
    obtain d' where d': "trim_loop (\<lambda>_. None) start es (AList.delete (fst e) d) flag = (None, d', flag)"
      "map_of d' = (\<lambda>n. if n \<in> fst ` set es \<and> unat start \<le> chunk_id_of n then None
          else map_of (AList.delete (fst e) d) n)"
      "set d' \<subseteq> set (AList.delete (fst e) d)"
      "distinct (map fst (AList.delete (fst e) d)) \<longrightarrow> distinct (map fst d')"
      using Cons.IH [of "AList.delete (fst e) d"] Cons.prems by auto
    have "set (AList.delete (fst e) d) \<subseteq> set d" by (auto simp: AList.delete_eq)
    then show ?thesis
      using d' True st v by (auto simp: fun_eq_iff delete_conv' distinct_delete)
  qed
qed simp

definition canonical_dir :: "chunk_storage \<Rightarrow> local_fs \<Rightarrow> string \<Rightarrow> bool" where
  "canonical_dir cs fs p \<longleftrightarrow> (case fs (absolute cs (get_chunks_dir p)) of
     None \<Rightarrow> False | Some d \<Rightarrow> list_all (canonical_name \<circ> fst) d)"

lemma trim_chunk_space_ok:
  assumes "canonical_dir cs fs p"
  shows "fst (trim_chunk_space cs (\<lambda>_. None) fs p start) = None"
    and "chunk_content cs (snd (trim_chunk_space cs (\<lambda>_. None) fs p start)) q i =
      (if get_chunks_dir q = get_chunks_dir p \<and> start \<le> i then None else chunk_content cs fs q i)"
proof -
  obtain d where d: "fs (absolute cs (get_chunks_dir p)) = Some d" "list_all (canonical_name \<circ> fst) d"
    using assms by (auto simp: canonical_dir_def split: option.splits)
  obtain d' where d': "trim_loop (\<lambda>_. None) start d d False = (None, d', False)"
     "map_of d' = (\<lambda>n. if n \<in> fst ` set d \<and> unat start \<le> chunk_id_of n then None else map_of d n)"
    using trim_loop_ok [OF d(2), of start d False] by blast
  have t: "trim_chunk_space cs (\<lambda>_. None) fs p start = (None, fs(absolute cs (get_chunks_dir p) \<mapsto> d'))"
    using d d' by (simp add: trim_chunk_space_def)
  show "fst (trim_chunk_space cs (\<lambda>_. None) fs p start) = None" by (simp add: t)
  have "map_of d (show_nat (unat i)) = None" if "show_nat (unat i) \<notin> fst ` set d"
    using that by (simp add: map_of_eq_None_iff)
  then show "chunk_content cs (snd (trim_chunk_space cs (\<lambda>_. None) fs p start)) q i =
      (if get_chunks_dir q = get_chunks_dir p \<and> start \<le> i then None else chunk_content cs fs q i)"
    using d d' by (auto simp: t chunk_content_eq word_le_nat_alt)
qed

section \<open>The invariant of the chunk directories\<close>

text \<open>
  In every directory the names are pairwise different numerals, and no chunk file is larger than
  the chunk size. Every operation keeps it, whatever the system calls do.
\<close>

definition wf_chunk_dir :: "chunk_storage \<Rightarrow> chunk_dir \<Rightarrow> bool" where
  "wf_chunk_dir cs d \<longleftrightarrow> distinct (map fst d) \<and>
     list_all (\<lambda>(n, c). canonical_name n \<and> length c \<le> unat (chunksize cs)) d"

definition wf_fs :: "chunk_storage \<Rightarrow> local_fs \<Rightarrow> bool" where
  "wf_fs cs fs \<longleftrightarrow> (\<forall>dir d. fs dir = Some d \<longrightarrow> wf_chunk_dir cs d)"

lemma set_alist_update: "set (AList.update k v xs) \<subseteq> insert (k, v) (set xs)"
  by (induction xs) auto

lemma wf_chunk_dir_update:
  assumes "wf_chunk_dir cs d" and "canonical_name n" and "length c \<le> unat (chunksize cs)"
  shows "wf_chunk_dir cs (AList.update n c d)"
  using assms set_alist_update [of n c d]
  by (auto simp: wf_chunk_dir_def distinct_update list_all_iff)

lemma wf_chunk_dir_subset:
  assumes "wf_chunk_dir cs d" and "set d' \<subseteq> set d" and "distinct (map fst d')"
  shows "wf_chunk_dir cs d'"
  using assms by (auto simp: wf_chunk_dir_def list_all_iff)

lemma wf_fs_put_chunk:
  assumes "wf_fs cs fs" and "length c \<le> unat (chunksize cs)"
  shows "wf_fs cs (put_chunk cs fs p i c)"
proof -
  have "wf_chunk_dir cs (case fs dir of None \<Rightarrow> [] | Some d \<Rightarrow> d)" for dir
    using assms(1) by (auto simp: wf_fs_def wf_chunk_dir_def split: option.splits)
  then show ?thesis
    using assms by (auto simp: wf_fs_def put_chunk_def Let_def wf_chunk_dir_update)
qed

lemma wf_fs_chunk_bytes:
  "wf_fs cs fs \<Longrightarrow> length (chunk_bytes cs fs p i) \<le> unat (chunksize cs)"
  by (fastforce simp: wf_fs_def wf_chunk_dir_def chunk_bytes_def chunk_content_eq list_all_iff
      split: option.splits dest!: map_of_SomeD)

lemma wf_fs_mkdir:
  "wf_fs cs fs \<Longrightarrow> wf_fs cs (snd (fs_mkdir e fs dir))"
  by (auto simp: wf_fs_def fs_mkdir_def wf_chunk_dir_def split: option.splits)

lemma fs_store_put:
  "fs_store fs (absolute cs (get_chunk_path p i)) c =
     (if fs (absolute cs (get_chunks_dir p)) = None then fs else put_chunk cs fs p i c)"
  by (auto simp: fs_store_def put_chunk_def)

lemma wf_fs_write_chunk:
  assumes wf: "wf_fs cs fs" and sz: "sz \<le> length buf" and fit: "off + sz \<le> unat (chunksize cs)"
  shows "wf_fs cs (snd (write_chunk cs env fs p i buf sz off))"
proof (cases "init_chunk_space cs env fs p")
  case (Inl e)
  then show ?thesis using wf by (simp add: write_chunk_def limbo_mode_def)
next
  case (Inr fs1)
  then have wf1: "wf_fs cs fs1"
    using wf_fs_mkdir [OF wf, of "mkdir_err env" "absolute cs (get_chunks_dir p)"]
    by (auto simp: init_chunk_space_def split: prod.splits option.splits if_splits)
  show ?thesis
  proof (cases "fs_open_creat (open_err env) fs1 (absolute cs (get_chunk_path p i))")
    case (Inl e)
    then show ?thesis using Inr wf1 by (simp add: write_chunk_def limbo_mode_def)
  next
    case opened: (Inr f)
    have f: "f = chunk_bytes cs fs1 p i"
      using opened
      by (auto simp: fs_open_creat_def chunk_bytes_def chunk_content_def split: option.splits if_splits)
    obtain n where n: "n \<le> sz"
      "snd (pwrite_loop (io_events env) buf sz off 0 f) = pwrite_bytes f off (take n buf)"
      using pwrite_loop_prefix [of 0 sz buf "io_events env" off f] sz by auto
    have "length (pwrite_bytes f off (take n buf)) \<le> unat (chunksize cs)"
      using n(1) fit wf_fs_chunk_bytes [OF wf1, of p i] by (auto simp: length_pwrite f)
    then show ?thesis
      using Inr opened wf1 n(2)
      by (auto simp: write_chunk_def limbo_mode_def fs_store_put wf_fs_put_chunk split: prod.splits)
  qed
qed

lemma wf_fs_truncate_chunk_file:
  assumes "wf_fs cs fs" and "len \<le> unat (chunksize cs)"
  shows "wf_fs cs (snd (truncate_chunk_file cs err fs p i len))"
  using assms
  by (auto simp: truncate_chunk_file_def Let_def fs_store_put wf_fs_put_chunk split: option.splits)

lemma wf_fs_destroy_chunk_space:
  assumes "wf_fs cs fs"
  shows "wf_fs cs (snd (destroy_chunk_space cs err fs p))"
proof -
  have "wf_chunk_dir cs (drop n d)" if "wf_chunk_dir cs d" for n d
    using that by (auto intro: wf_chunk_dir_subset dest: in_set_dropD
        simp: wf_chunk_dir_def list_all_iff drop_map [symmetric])
  then show ?thesis
    using assms by (auto simp: destroy_chunk_space_def Let_def wf_fs_def split: option.splits)
qed

lemma wf_trim_loop:
  "wf_chunk_dir cs d \<Longrightarrow> wf_chunk_dir cs (fst (snd (trim_loop unl start es d flag)))"
proof (induction es arbitrary: d flag)
  case (Cons e es)
  have "wf_chunk_dir cs (AList.delete (fst e) d)"
    using Cons.prems by (rule wf_chunk_dir_subset)
      (use Cons.prems in \<open>auto simp: AList.delete_eq wf_chunk_dir_def distinct_map_filter\<close>)
  then show ?case
    using Cons by (auto split: sum.splits option.splits)
qed simp

lemma wf_fs_trim_chunk_space:
  assumes "wf_fs cs fs"
  shows "wf_fs cs (snd (trim_chunk_space cs unl fs p start))"
proof (cases "fs (absolute cs (get_chunks_dir p))")
  case None
  then show ?thesis using assms by (simp add: trim_chunk_space_def)
next
  case (Some d)
  then have "wf_chunk_dir cs (fst (snd (trim_loop unl start d d False)))"
    using assms by (intro wf_trim_loop) (simp add: wf_fs_def)
  then show ?thesis
    using assms Some
    by (auto simp: trim_chunk_space_def Let_def wf_fs_def split: prod.splits option.splits)
qed

section \<open>The chunk storage meets the contract\<close>

text \<open>
  The chunks of one file, under benign system calls, form a \<open>chunk_store\<close>; the tasks of a request
  may therefore run in any order.
\<close>

definition storage_write ::
    "chunk_storage \<Rightarrow> io_env \<Rightarrow> string \<Rightarrow> local_fs \<Rightarrow> u64 \<Rightarrow> nat \<Rightarrow> bytes \<Rightarrow> local_fs" where
  "storage_write cs env p fs i off d =
     snd (write_chunk cs (if benign_env env then env else quiet_env) fs p i d (length d) off)"

interpretation storage: chunk_store "storage_write cs env p" "\<lambda>fs. chunk_bytes cs fs p"
  for cs env p
  by unfold_locales (simp add: storage_write_def write_chunk_ok chunk_bytes_put)

end
