(* ===== verification/Block_Arith.thy ===== *)
theory Block_Arith
  imports Gkfs_Prelude
begin

text \<open>
  The power-of-two block arithmetic of \<open>include/common/arithmetic/arithmetic.hpp\<close>, which
  turns file offsets into chunk identifiers and in-chunk offsets. Every definition is the bit
  manipulation of the source on 64-bit words; the lemmas show that, for a power of two, each one
  computes the division, remainder or rounding its documentation promises.

  The \<open>assert\<close> calls of the source disappear in release builds, so they are hypotheses of the
  lemmas and not guards of the definitions.
\<close>

section \<open>Definitions\<close>

definition is_power_of_2 :: "u64 \<Rightarrow> bool" where
  "is_power_of_2 n \<longleftrightarrow> n \<noteq> 0 \<and> (n AND (n - 1)) = 0"

text \<open>The compiler builtin \<open>__builtin_clzll\<close>: the number of leading zero bits.\<close>

fun clz_from :: "nat \<Rightarrow> u64 \<Rightarrow> nat" where
  "clz_from 0 n = 0"
| "clz_from (Suc k) n = (if bit n k then 0 else Suc (clz_from k n))"

definition builtin_clzll :: "u64 \<Rightarrow> nat" where
  "builtin_clzll n = clz_from 64 n"

definition log2 :: "u64 \<Rightarrow> nat" where
  "log2 n = 8 * 8 - builtin_clzll n - 1"

text \<open>The mask of the source, \<open>1u << log2(block_size)\<close>, is a 32-bit computation.\<close>

definition is_aligned :: "u64 \<Rightarrow> u64 \<Rightarrow> bool" where
  "is_aligned n block_size \<longleftrightarrow>
     n AND ucast (push_bit (log2 block_size) (1 :: u32) - 1) = 0"

definition align_left :: "u64 \<Rightarrow> u64 \<Rightarrow> u64" where
  "align_left offset block_size = offset AND NOT (block_size - 1)"

definition align_right :: "u64 \<Rightarrow> u64 \<Rightarrow> u64" where
  "align_right offset block_size = align_left offset block_size + block_size"

definition block_overrun :: "u64 \<Rightarrow> u64 \<Rightarrow> u64" where
  "block_overrun offset block_size = offset AND (block_size - 1)"

definition block_underrun :: "u64 \<Rightarrow> u64 \<Rightarrow> u64" where
  "block_underrun offset block_size = align_right offset block_size - offset"

definition block_index :: "u64 \<Rightarrow> u64 \<Rightarrow> u64" where
  "block_index offset block_size =
     drop_bit (log2 block_size) (align_left offset block_size)"

definition block_count :: "u64 \<Rightarrow> u64 \<Rightarrow> u64 \<Rightarrow> u64" where
  "block_count offset sz block_size =
     (let first_block = align_left offset block_size;
          final_block = align_left (offset + sz) block_size;
          mask = (if sz \<noteq> 0 then - 1 else 0)
      in (drop_bit (log2 block_size) final_block - drop_bit (log2 block_size) first_block +
          of_bool (\<not> is_aligned (offset + sz) block_size)) AND mask)"

section \<open>Powers of two\<close>

lemma unat_exp [simp]:
  assumes "k < 64"
  shows "unat (2 ^ k :: u64) = 2 ^ k"
proof -
  from assms have "(2 :: nat) ^ k < 2 ^ 64" by (rule power_strict_increasing) simp
  from unat_of_nat_small [OF this] show ?thesis by simp
qed

lemma clz_from_eq:
  assumes "bit n k" and "k < m" and "\<And>i. k < i \<Longrightarrow> i < m \<Longrightarrow> \<not> bit n i"
  shows "clz_from m n = m - Suc k"
  using assms
proof (induction m)
  case 0
  then show ?case by simp
next
  case (Suc m)
  show ?case
  proof (cases "m = k")
    case True
    with Suc.prems show ?thesis by simp
  next
    case False
    with Suc.prems(2) have "k < m" by simp
    moreover from this Suc.prems(3) have "\<not> bit n m" by simp
    ultimately show ?thesis using Suc.IH Suc.prems(1,3) by (simp add: Suc_diff_le)
  qed
qed

lemma log2_exp [simp]:
  assumes "k < 64"
  shows "log2 (2 ^ k) = k"
proof -
  have "clz_from 64 (2 ^ k) = 64 - Suc k"
    by (rule clz_from_eq) (use assms in \<open>auto simp: bit_exp_iff\<close>)
  then show ?thesis using assms by (simp add: log2_def builtin_clzll_def)
qed

lemma bit_top:
  assumes "2 ^ k \<le> unat (x :: u64)" and "unat x < 2 ^ Suc k"
  shows "bit x k"
proof -
  have "unat x div 2 ^ k = 1"
    using assms by (intro div_nat_eqI) auto
  then have "bit (unat x) k" by (simp add: bit_iff_odd)
  then show ?thesis by (simp add: bit_unsigned_iff)
qed

lemma ex_log2_bounds: "0 < (m :: nat) \<Longrightarrow> \<exists>k. 2 ^ k \<le> m \<and> m < 2 ^ Suc k"
  using ex_power_ivl1 [of 2 m] by simp

lemma is_power_of_2_iff: "is_power_of_2 n \<longleftrightarrow> (\<exists>k < 64. n = 2 ^ k)"
proof
  assume p: "is_power_of_2 n"
  then have n0: "n \<noteq> 0" and a: "n AND (n - 1) = 0" by (auto simp: is_power_of_2_def)
  from n0 have pos: "0 < unat n" by (simp add: unat_gt_0)
  from ex_log2_bounds [OF this] obtain k where k: "2 ^ k \<le> unat n" "unat n < 2 ^ Suc k" by blast
  have "(2 :: nat) ^ k < 2 ^ 64" using k(1) unat_u64_less [of n] by (rule le_less_trans)
  then have k64: "k < 64" by (rule power_less_imp_less_exp [rotated]) simp
  have "unat n = 2 ^ k"
  proof (rule ccontr)
    assume ne: "unat n \<noteq> 2 ^ k"
    have u: "unat (n - 1) = unat n - 1" using n0 by (simp add: unat_minus_one)
    have "bit n k" by (rule bit_top [OF k])
    moreover have "bit (n - 1) k"
      by (rule bit_top) (use k ne u in auto)
    ultimately have "bit (n AND (n - 1)) k" by (simp add: bit_and_iff)
    with a show False by simp
  qed
  then have "n = 2 ^ k" using k64 by (simp add: word_unat_eq_iff)
  with k64 show "\<exists>k < 64. n = 2 ^ k" by blast
next
  assume "\<exists>k < 64. n = 2 ^ k"
  then obtain k where k: "k < 64" "n = 2 ^ k" by blast
  have "n \<noteq> 0" using k by (simp add: exp_eq_zero_iff)
  moreover have "n AND (n - 1) = 0"
    by (rule bit_word_eqI) (auto simp: k bit_and_iff bit_exp_iff bit_mask_iff
        simp flip: mask_eq_exp_minus_1)
  ultimately show "is_power_of_2 n" by (simp add: is_power_of_2_def)
qed

section \<open>The bit manipulations compute quotients and remainders\<close>

lemma block_overrun_exp: "k < 64 \<Longrightarrow> block_overrun off (2 ^ k) = take_bit k off"
  by (simp add: block_overrun_def take_bit_eq_mask mask_eq_exp_minus_1)

lemma align_left_exp: "k < 64 \<Longrightarrow> align_left off (2 ^ k) = off - take_bit k off"
proof -
  have "(off AND mask k) + (off AND NOT (mask k)) = off"
    by (subst disjunctive_add_eq_or) (auto intro!: bit_word_eqI simp: bit_simps)
  then show ?thesis
    by (simp add: align_left_def take_bit_eq_mask mask_eq_exp_minus_1 algebra_simps)
qed

lemma unat_take_bit_u64 [simp]: "unat (take_bit k (off :: u64)) = unat off mod 2 ^ k"
  by (metis unsigned_take_bit_eq take_bit_eq_mod)

lemma unat_block_overrun [gkfs_simps]:
  "is_power_of_2 bs \<Longrightarrow> unat (block_overrun off bs) = unat off mod unat bs"
  by (auto simp: is_power_of_2_iff block_overrun_exp)

lemma unat_align_left [gkfs_simps]:
  "is_power_of_2 bs \<Longrightarrow> unat (align_left off bs) = unat off div unat bs * unat bs"
proof -
  assume "is_power_of_2 bs"
  then obtain k where k: "k < 64" "bs = 2 ^ k" by (auto simp: is_power_of_2_iff)
  have "take_bit k off \<le> off" by (simp add: word_le_nat_alt)
  then show ?thesis
    using k by (simp add: align_left_exp unat_sub minus_mod_eq_div_mult)
qed

lemma block_index_exp: "k < 64 \<Longrightarrow> block_index off (2 ^ k) = drop_bit k off"
  by (rule bit_word_eqI)
    (auto simp: block_index_def align_left_def bit_and_iff bit_not_iff bit_drop_bit_eq bit_mask_iff
      simp flip: mask_eq_exp_minus_1 dest: bit_imp_le_length)

lemma unat_block_index [gkfs_simps]:
  "is_power_of_2 bs \<Longrightarrow> unat (block_index off bs) = unat off div unat bs"
  by (auto simp: is_power_of_2_iff block_index_exp drop_bit_eq_div unat_div_distrib)

lemma block_underrun_exp: "k < 64 \<Longrightarrow> block_underrun off (2 ^ k) = 2 ^ k - take_bit k off"
  by (simp add: block_underrun_def align_right_def align_left_exp)

lemma unat_block_underrun [gkfs_simps]:
  "is_power_of_2 bs \<Longrightarrow> unat (block_underrun off bs) = unat bs - unat off mod unat bs"
proof -
  assume "is_power_of_2 bs"
  then obtain k where k: "k < 64" "bs = 2 ^ k" by (auto simp: is_power_of_2_iff)
  then have "take_bit k off \<le> 2 ^ k" by (simp add: word_le_nat_alt less_imp_le)
  with k show ?thesis by (simp add: block_underrun_exp unat_sub)
qed

lemma unat_align_right [gkfs_simps]:
  assumes "is_power_of_2 bs" and "unat off + unat bs < 2 ^ 64"
  shows "unat (align_right off bs) = (unat off div unat bs + 1) * unat bs"
proof -
  have "unat (align_left off bs) \<le> unat off" using assms(1) by (simp add: unat_align_left)
  then have "unat (align_left off bs) + unat bs < 2 ^ 64" using assms(2) by linarith
  then show ?thesis
    using assms(1) by (simp add: align_right_def unat_align_left unat_word_ariths)
qed

lemma is_aligned_iff [gkfs_simps]:
  assumes "is_power_of_2 bs" and "bs < 2 ^ 32"
  shows "is_aligned n bs \<longleftrightarrow> unat n mod unat bs = 0"
proof -
  from assms(1) obtain k where k: "k < 64" "bs = 2 ^ k" by (auto simp: is_power_of_2_iff)
  with assms(2) have "(2 :: nat) ^ k < 2 ^ 32" by (simp add: word_less_nat_alt)
  then have k32: "k < 32" by (rule power_less_imp_less_exp [rotated]) simp
  have "ucast (push_bit k (1 :: u32) - 1) = (mask k :: u64)"
    by (rule bit_word_eqI)
      (use k32 in \<open>auto simp: bit_unsigned_iff bit_mask_iff push_bit_eq_mult
        simp flip: mask_eq_exp_minus_1\<close>)
  then have "is_aligned n bs \<longleftrightarrow> take_bit k n = 0"
    using k by (simp add: is_aligned_def take_bit_eq_mask)
  also have "\<dots> \<longleftrightarrow> unat n mod unat bs = 0" using k by (simp add: word_unat_eq_iff)
  finally show ?thesis .
qed

lemma blocks_touched_nat:
  fixes a b m :: nat
  assumes "a < b" and "0 < m"
  shows "b div m - a div m + of_bool (b mod m \<noteq> 0) = (b - 1) div m - a div m + 1"
proof (cases "b mod m = 0")
  case True
  then obtain q where q: "b = q * m" by (metis mod_0_imp_dvd dvd_def mult.commute)
  with assms have q0: "0 < q" by (cases q) auto
  have "(b - 1) div m = q - 1"
    using q q0 assms(2) by (intro div_nat_eqI) (auto simp: algebra_simps diff_mult_distrib)
  moreover have "a div m \<le> q - 1"
  proof -
    have "a \<le> b - 1" using assms(1) by simp
    then have "a div m \<le> (b - 1) div m" by (rule div_le_mono)
    then show ?thesis using \<open>(b - 1) div m = q - 1\<close> by simp
  qed
  ultimately show ?thesis using True q q0 assms(2) by simp
next
  case False
  have "(b - 1) div m = b div m"
  proof (rule div_nat_eqI)
    have "b div m * m + b mod m = b" by simp
    with False show "m * (b div m) \<le> b - 1"
      by (metis Nat.le_diff_conv2 One_nat_def add_leE add_le_cancel_left bot_nat_0.not_eq_extremum
          le_add1 less_eq_Suc_le mult.commute plus_1_eq_Suc Suc_eq_plus1)
    show "b - 1 < m * Suc (b div m)" using assms(2)
      by (metis dividend_less_times_div less_imp_diff_less mult_Suc_right)
  qed
  with False show ?thesis by simp
qed

lemma block_count_touched [gkfs_simps]:
  assumes p: "is_power_of_2 bs" and b: "bs < 2 ^ 32"
    and nov: "unat off + unat sz < 2 ^ 64"
  shows "unat (block_count off sz bs) =
    (if sz = 0 then 0 else (unat off + unat sz - 1) div unat bs - unat off div unat bs + 1)"
proof (cases "sz = 0")
  case True
  then show ?thesis by (simp add: block_count_def)
next
  case False
  then have sz: "0 < unat sz" by (simp add: unat_gt_0)
  from p have bs: "0 < unat bs" by (auto simp: is_power_of_2_def unat_gt_0)
  have s: "unat (off + sz) = unat off + unat sz" using nov by (simp add: unat_word_ariths)
  let ?q = "\<lambda>x. unat x div unat bs"
  let ?n = "?q (off + sz) - ?q off + of_bool (unat (off + sz) mod unat bs \<noteq> 0)"
  have le: "?q off \<le> ?q (off + sz)" by (simp add: s div_le_mono)
  have idx: "drop_bit (log2 bs) (align_left x bs) = of_nat (?q x)" for x
    using unat_block_index [OF p, of x] unfolding block_index_def
    by (metis unat_of_nat_small unat_u64_less word_unat_eq_iff)
  have "block_count off sz bs = of_nat (?q (off + sz)) - of_nat (?q off) +
      of_bool (unat (off + sz) mod unat bs \<noteq> 0)"
    using False p b by (simp add: block_count_def idx is_aligned_iff)
  also have "\<dots> = of_nat ?n" using le by (simp add: of_nat_diff)
  finally have w: "block_count off sz bs = of_nat ?n" .
  have n: "?n = (unat off + unat sz - 1) div unat bs - ?q off + 1"
    using blocks_touched_nat [of "unat off" "unat (off + sz)" "unat bs"] sz bs by (simp add: s)
  have "(unat off + unat sz - 1) div unat bs \<le> unat off + unat sz - 1" by (rule div_le_dividend)
  then have "?n < 2 ^ 64" using n nov sz by linarith
  then have "unat (block_count off sz bs) = ?n" unfolding w by (rule unat_of_nat_small)
  then show ?thesis unfolding n using False by simp
qed

end
