(* ===== verification/Chunk_Ops.thy ===== *)
theory Chunk_Ops
  imports Chunk_Storage Block_Arith
begin

text \<open>
  Chunk operations of the daemon (\<open>src/daemon/ops/data.cpp\<close>): one Argobots task per chunk, an
  eventual per task that carries its result, and the loops that collect the results.

  Argobots is a parameter: an \<open>abt_env\<close> says which creations and waits succeed, and in which order the
  I/O pool runs \<open>n\<close> tasks. A bulk transfer of Mercury is the parameter \<open>bulk_transfer\<close>: destination
  buffer and offset, source buffer and offset, size, to the new destination, or None on failure. Its
  documented behaviour, a copy when both ranges lie inside the buffers, is the hypothesis \<open>bulk_copies\<close>.
\<close>

type_synonym bulk_transfer = "bytes \<Rightarrow> u64 \<Rightarrow> bytes \<Rightarrow> u64 \<Rightarrow> u64 \<Rightarrow> bytes option"

definition bulk_copies :: "bulk_transfer \<Rightarrow> bool" where
  "bulk_copies bt \<longleftrightarrow> (\<forall>dst dpos src spos n.
     unat dpos + unat n \<le> length dst \<and> unat spos + unat n \<le> length src \<longrightarrow>
       bt dst dpos src spos n = Some (blit dst (unat dpos) (take (unat n) (drop (unat spos) src))))"

record chunk_task =
  task_chunk :: u64
  task_pos :: u64
  task_size :: u64
  task_off :: u64

record abt_env =
  create_ok :: "nat \<Rightarrow> bool"
  wait_ok :: "nat \<Rightarrow> bool"
  task_io :: "nat \<Rightarrow> io_env"
  task_order :: "nat \<Rightarrow> nat list"
  cancelled_after :: "nat list"

definition exn_code :: "storage_exn \<Rightarrow> errno" where
  "exn_code x = (case x of ChunkStorageException e \<Rightarrow> e | StdException \<Rightarrow> EIO)"

section \<open>Truncate\<close>

record trunc_env =
  trunc_err :: "errno option"
  unlink_err :: "string \<Rightarrow> errno option"

definition truncate_abt ::
    "u64 \<Rightarrow> chunk_storage \<Rightarrow> trunc_env \<Rightarrow> local_fs \<Rightarrow> string \<Rightarrow> u64 \<Rightarrow> errno \<times> local_fs" where
  "truncate_abt csz cs env fs path sz =
     (let chunk_id_start = block_index sz csz;
          left_pad = block_overrun sz csz;
          trim = (\<lambda>start fs1. case trim_chunk_space cs (unlink_err env) fs1 path start of
                    (None, fs2) \<Rightarrow> (0, fs2)
                  | (Some x, fs2) \<Rightarrow> (exn_code x, fs2))
      in if left_pad \<noteq> 0
         then (case truncate_chunk_file cs (trunc_err env) fs path chunk_id_start (unat left_pad) of
                 (Some x, fs1) \<Rightarrow> (exn_code x, fs1)
               | (None, fs1) \<Rightarrow> trim (chunk_id_start + 1) fs1)
         else trim chunk_id_start fs)"

text \<open>\<open>truncate\<close> followed by \<open>wait_for_task\<close>; None when no task could be created.\<close>

definition truncate_and_wait ::
    "u64 \<Rightarrow> chunk_storage \<Rightarrow> abt_env \<Rightarrow> trunc_env \<Rightarrow> local_fs \<Rightarrow> string \<Rightarrow> u64
       \<Rightarrow> errno option \<times> local_fs" where
  "truncate_and_wait csz cs abt env fs path sz =
     (if \<not> create_ok abt 0 then (None, fs)
      else let (task_err, fs') = truncate_abt csz cs env fs path sz
           in (Some (if wait_ok abt 0 then task_err else EIO), fs'))"

section \<open>Write\<close>

definition write_file_abt ::
    "chunk_storage \<Rightarrow> io_env \<Rightarrow> local_fs \<Rightarrow> string \<Rightarrow> bytes \<Rightarrow> chunk_task \<Rightarrow> int \<times> local_fs" where
  "write_file_abt cs env fs path buf t =
     (case write_chunk cs env fs path (task_chunk t) (drop (unat (task_pos t)) buf)
             (unat (task_size t)) (unat (task_off t)) of
        (Inr wrote, fs') \<Rightarrow> (int wrote, fs')
      | (Inl x, fs') \<Rightarrow> (- exn_code x, fs'))"

primrec run_write_tasks ::
    "chunk_storage \<Rightarrow> (nat \<Rightarrow> io_env) \<Rightarrow> string \<Rightarrow> bytes \<Rightarrow> chunk_task list \<Rightarrow> nat list
       \<Rightarrow> local_fs \<Rightarrow> (nat \<rightharpoonup> int) \<Rightarrow> (nat \<rightharpoonup> int) \<times> local_fs" where
  "run_write_tasks cs io path buf tasks [] fs res = (res, fs)"
| "run_write_tasks cs io path buf tasks (i # order) fs res =
     (if i < length tasks
      then let (wrote, fs') = write_file_abt cs (io i) fs path buf (tasks ! i)
           in run_write_tasks cs io path buf tasks order fs' (res(i \<mapsto> wrote))
      else run_write_tasks cs io path buf tasks order fs res)"

text \<open>
  The result each eventual delivers: None when the wait fails, also on an eventual for which no
  task was ever started.
\<close>

definition eventual_value :: "abt_env \<Rightarrow> (nat \<rightharpoonup> int) \<Rightarrow> nat \<Rightarrow> int option" where
  "eventual_value abt res i = (if wait_ok abt i then res i else None)"

primrec write_wait_loop :: "int option list \<Rightarrow> errno \<Rightarrow> u64 \<Rightarrow> errno \<times> u64" where
  "write_wait_loop [] io_err total_written = (io_err, total_written)"
| "write_wait_loop (e # es) io_err total_written =
     (case e of
        None \<Rightarrow> write_wait_loop es EIO total_written
      | Some task_sz \<Rightarrow>
          if io_err \<noteq> 0 then write_wait_loop es io_err total_written
          else if task_sz < 0 then write_wait_loop es (- task_sz) total_written
          else write_wait_loop es io_err (total_written + of_int task_sz))"

definition wait_for_tasks :: "abt_env \<Rightarrow> (nat \<rightharpoonup> int) \<Rightarrow> nat \<Rightarrow> errno \<times> u64" where
  "wait_for_tasks abt res n =
     (let (io_err, total_written) = write_wait_loop (map (eventual_value abt res) [0..<n]) 0 0
      in (io_err, if io_err \<noteq> 0 then 0 else total_written))"

section \<open>Read\<close>

definition read_file_abt ::
    "chunk_storage \<Rightarrow> io_env \<Rightarrow> local_fs \<Rightarrow> string \<Rightarrow> bytes \<Rightarrow> chunk_task \<Rightarrow> int \<times> bytes" where
  "read_file_abt cs env fs path buf t =
     (case read_chunk cs env fs path (task_chunk t) (unat (task_size t)) (unat (task_off t)) of
        Inr data \<Rightarrow> (int (length data), blit buf (unat (task_pos t)) data)
      | Inl x \<Rightarrow> (- exn_code x, buf))"

primrec run_read_tasks ::
    "chunk_storage \<Rightarrow> (nat \<Rightarrow> io_env) \<Rightarrow> local_fs \<Rightarrow> string \<Rightarrow> chunk_task list \<Rightarrow> nat list
       \<Rightarrow> bytes \<Rightarrow> (nat \<rightharpoonup> int) \<Rightarrow> (nat \<rightharpoonup> int) \<times> bytes" where
  "run_read_tasks cs io fs path tasks [] buf res = (res, buf)"
| "run_read_tasks cs io fs path tasks (i # order) buf res =
     (if i < length tasks
      then let (got, buf') = read_file_abt cs (io i) fs path buf (tasks ! i)
           in run_read_tasks cs io fs path tasks order buf' (res(i \<mapsto> got))
      else run_read_tasks cs io fs path tasks order buf res)"

text \<open>
  The collecting loop with \<open>spin_lock_read\<close> off: every result above 0 is pushed into the client's
  buffer, a missing chunk file and an end of file are skipped.
\<close>

primrec push_back_loop ::
    "bulk_transfer \<Rightarrow> (nat \<Rightarrow> int option) \<Rightarrow> (nat \<Rightarrow> u64) \<Rightarrow> (nat \<Rightarrow> u64) \<Rightarrow> bytes \<Rightarrow> nat list
       \<Rightarrow> errno \<Rightarrow> u64 \<Rightarrow> bytes \<Rightarrow> errno \<times> u64 \<times> bytes" where
  "push_back_loop bt ev origin_offsets local_offsets lbuf [] io_err total_read cbuf =
     (io_err, total_read, cbuf)"
| "push_back_loop bt ev origin_offsets local_offsets lbuf (i # is) io_err total_read cbuf =
     (case ev i of
        None \<Rightarrow> push_back_loop bt ev origin_offsets local_offsets lbuf is EIO total_read cbuf
      | Some task_sz \<Rightarrow>
          if io_err \<noteq> 0
          then push_back_loop bt ev origin_offsets local_offsets lbuf is io_err total_read cbuf
          else if task_sz < 0
          then push_back_loop bt ev origin_offsets local_offsets lbuf is
                 (if - task_sz = ENOENT then io_err else - task_sz) total_read cbuf
          else if task_sz = 0
          then push_back_loop bt ev origin_offsets local_offsets lbuf is io_err total_read cbuf
          else
            (case bt cbuf (origin_offsets i) lbuf (local_offsets i) (of_int task_sz) of
               None \<Rightarrow> push_back_loop bt ev origin_offsets local_offsets lbuf is EBUSY total_read cbuf
             | Some cbuf' \<Rightarrow>
                 push_back_loop bt ev origin_offsets local_offsets lbuf is io_err
                   (total_read + of_int task_sz) cbuf'))"

definition wait_for_tasks_and_push_back ::
    "bulk_transfer \<Rightarrow> abt_env \<Rightarrow> (nat \<rightharpoonup> int) \<Rightarrow> (nat \<Rightarrow> u64) \<Rightarrow> (nat \<Rightarrow> u64) \<Rightarrow> nat
       \<Rightarrow> bytes \<Rightarrow> bytes \<Rightarrow> errno \<times> u64 \<times> bytes" where
  "wait_for_tasks_and_push_back bt abt res origin_offsets local_offsets n lbuf cbuf =
     (let (io_err, total_read, cbuf') =
        push_back_loop bt (eventual_value abt res) origin_offsets local_offsets lbuf [0..<n] 0 0 cbuf
      in (io_err, if io_err \<noteq> 0 then 0 else total_read, cbuf'))"

section \<open>What the write tasks do\<close>

definition task_write :: "bytes \<Rightarrow> chunk_task \<Rightarrow> u64 \<times> nat \<times> bytes" where
  "task_write buf t =
     (task_chunk t, unat (task_off t), take (unat (task_size t)) (drop (unat (task_pos t)) buf))"

definition task_fits :: "bytes \<Rightarrow> chunk_task \<Rightarrow> bool" where
  "task_fits buf t \<longleftrightarrow> unat (task_pos t) + unat (task_size t) \<le> length buf"

lemma write_file_abt_ok:
  assumes "benign_env env" and "task_fits buf t"
  shows "write_file_abt cs env fs p buf t =
    (int (unat (task_size t)),
     (\<lambda>(k, off, d). storage_write cs quiet_env p fs k off d) (task_write buf t))"
  using assms
  by (simp add: write_file_abt_def task_write_def task_fits_def storage_write_def write_chunk_ok min_absorb2)

lemma run_write_tasks_ok:
  assumes "\<And>i. benign_env (io i)" and "list_all (task_fits buf) tasks"
    and "\<And>i. i \<in> set order \<Longrightarrow> i < length tasks"
  shows "run_write_tasks cs io p buf tasks order fs res =
    (\<lambda>i. if i \<in> set order then Some (int (unat (task_size (tasks ! i)))) else res i,
     fold (\<lambda>(k, off, d) s. storage_write cs quiet_env p s k off d)
       (map (\<lambda>i. task_write buf (tasks ! i)) order) fs)"
  using assms(3)
proof (induction order arbitrary: fs res)
  case (Cons i order)
  then have "task_fits buf (tasks ! i)" using assms(2) by (simp add: list_all_length)
  then show ?case
    using Cons by (auto simp: write_file_abt_ok [OF assms(1)] case_prod_beta)
qed simp

lemma map_nth_order:
  assumes "distinct order" and "set order = {..<length xs}"
  shows "mset (map (\<lambda>i. xs ! i) order) = mset xs"
proof -
  have "set order = set [0..<length xs]" using assms(2) by (simp only: set_upt atLeast0LessThan)
  then have m: "mset order = mset [0..<length xs]"
    by (rule set_eq_iff_mset_eq_distinct [OF assms(1) distinct_upt, THEN iffD1])
  have "mset (map (\<lambda>i. xs ! i) order) = mset (map (\<lambda>i. xs ! i) [0..<length xs])"
    unfolding mset_map m by (rule refl)
  then show ?thesis unfolding map_nth .
qed

lemma chunk_content_fold_frame:
  assumes "get_chunks_dir q \<noteq> get_chunks_dir p"
  shows "chunk_content cs (fold (\<lambda>(k, off, d) s. storage_write cs quiet_env p s k off d) ws fs) q j =
    chunk_content cs fs q j"
proof (induction ws arbitrary: fs)
  case (Cons w ws)
  then show ?case
    using assms by (cases w) (simp add: storage_write_def write_chunk_ok chunk_content_put)
qed simp

text \<open>In whatever order the pool runs them, tasks on different chunks leave the same chunks behind.\<close>

lemma run_write_tasks_content:
  assumes "\<And>i. benign_env (io i)" and "list_all (task_fits buf) tasks"
    and "distinct order" and "set order = {..<length tasks}" and "distinct (map task_chunk tasks)"
  shows "chunk_bytes cs (snd (run_write_tasks cs io p buf tasks order fs res)) p c =
    (case map_of (map (task_write buf) tasks) c of
       None \<Rightarrow> chunk_bytes cs fs p c
     | Some (off, d) \<Rightarrow> pwrite_bytes (chunk_bytes cs fs p c) off d)"
proof -
  let ?ws = "map (task_write buf) tasks"
  have d: "distinct (map fst ?ws)"
    using assms(5) by (simp add: task_write_def comp_def)
  have m: "mset (map (\<lambda>i. task_write buf (tasks ! i)) order) = mset ?ws"
    using arg_cong [OF map_nth_order [OF assms(3,4)], of "image_mset (task_write buf)"]
    by (simp add: multiset.map_comp comp_def)
  have r: "snd (run_write_tasks cs io p buf tasks order fs res) =
      fold (\<lambda>(k, off, d) s. storage_write cs quiet_env p s k off d)
        (map (\<lambda>i. task_write buf (tasks ! i)) order) fs"
    using assms(4) by (subst run_write_tasks_ok [OF assms(1,2)]) auto
  show ?thesis
    unfolding r storage.content_batch_order [OF d m] by (rule storage.content_batch [OF d])
qed

lemma run_write_tasks_frame:
  assumes "\<And>i. benign_env (io i)" and "list_all (task_fits buf) tasks"
    and "set order = {..<length tasks}" and "get_chunks_dir q \<noteq> get_chunks_dir p"
  shows "chunk_content cs (snd (run_write_tasks cs io p buf tasks order fs res)) q j = chunk_content cs fs q j"
  using assms(3) chunk_content_fold_frame [OF assms(4)]
  by (subst run_write_tasks_ok [OF assms(1,2)]) auto

lemma write_wait_loop_ok:
  "write_wait_loop (map (\<lambda>t. Some (int (f t))) ts) 0 tw = (0, tw + of_nat (\<Sum>t\<leftarrow>ts. f t))"
  by (induction ts arbitrary: tw) (simp_all add: add.assoc)

lemma write_wait_loop_err:
  "io_err \<noteq> 0 \<Longrightarrow> fst (write_wait_loop es io_err tw) \<noteq> 0"
  by (induction es arbitrary: io_err) (auto split: option.splits)

text \<open>One failing task makes the operation fail, with nothing reported as written.\<close>

lemma write_wait_loop_fails:
  "(\<exists>e \<in> set es. case e of None \<Rightarrow> True | Some v \<Rightarrow> v < 0) \<Longrightarrow> fst (write_wait_loop es io_err tw) \<noteq> 0"
proof (induction es arbitrary: io_err tw)
  case (Cons e es)
  then show ?case
    by (auto simp: write_wait_loop_err split: option.splits)
qed simp

section \<open>What the read tasks do\<close>

definition task_data :: "chunk_storage \<Rightarrow> local_fs \<Rightarrow> string \<Rightarrow> chunk_task \<Rightarrow> bytes" where
  "task_data cs fs p t =
     pread_bytes (chunk_bytes cs fs p (task_chunk t)) (unat (task_off t)) (unat (task_size t))"

definition task_result :: "chunk_storage \<Rightarrow> local_fs \<Rightarrow> string \<Rightarrow> chunk_task \<Rightarrow> int" where
  "task_result cs fs p t =
     (case chunk_content cs fs p (task_chunk t) of
        None \<Rightarrow> - ENOENT
      | Some _ \<Rightarrow> int (length (task_data cs fs p t)))"

lemma read_file_abt_ok:
  assumes "benign_env env"
  shows "read_file_abt cs env fs p buf t =
    (task_result cs fs p t, blit buf (unat (task_pos t)) (task_data cs fs p t))"
proof (cases "chunk_content cs fs p (task_chunk t)")
  case None
  then show ?thesis
    using assms by (simp add: read_file_abt_def read_chunk_missing benign_env_def task_result_def task_data_def
        chunk_bytes_def exn_code_def pread_bytes_def)
next
  case (Some c)
  then show ?thesis
    using assms by (simp add: read_file_abt_def read_chunk_ok benign_env_def task_result_def task_data_def
        chunk_bytes_def)
qed

lemma run_read_tasks_ok:
  assumes "\<And>i. benign_env (io i)" and "\<And>i. i \<in> set order \<Longrightarrow> i < length tasks"
  shows "run_read_tasks cs io fs p tasks order buf res =
    (\<lambda>i. if i \<in> set order then Some (task_result cs fs p (tasks ! i)) else res i,
     blits (map (\<lambda>i. (unat (task_pos (tasks ! i)), task_data cs fs p (tasks ! i))) order) buf)"
  using assms(2)
proof (induction order arbitrary: buf res)
  case (Cons i order)
  then show ?case by (auto simp: read_file_abt_ok [OF assms(1)])
qed simp

lemma push_back_loop_ok:
  assumes bt: "bulk_copies bt"
    and ev: "\<And>i. i \<in> set is \<Longrightarrow> ev i = Some (if dat i = [] then z i else int (length (dat i)))"
    and z: "\<And>i. i \<in> set is \<Longrightarrow> z i = 0 \<or> z i = - ENOENT"
    and sl: "\<And>i. i \<in> set is \<Longrightarrow> take (length (dat i)) (drop (unat (lo i)) lbuf) = dat i"
    and fit: "\<And>i. i \<in> set is \<Longrightarrow> dat i \<noteq> [] \<Longrightarrow> unat (lo i) + length (dat i) \<le> length lbuf \<and>
        unat (oo i) + length (dat i) \<le> length cbuf \<and> length (dat i) < 2 ^ 64"
  shows "push_back_loop bt ev oo lo lbuf is 0 tr cbuf =
    (0, tr + of_nat (\<Sum>i\<leftarrow>is. length (dat i)), blits (map (\<lambda>i. (unat (oo i), dat i)) is) cbuf)"
  using ev z sl fit
proof (induction "is" arbitrary: tr cbuf)
  case (Cons i "is")
  let ?d = "dat i"
  show ?case
  proof (cases "?d = []")
    case True
    have "ev i = Some (z i)" "z i = 0 \<or> z i = - ENOENT"
      using Cons.prems(1,2) [of i] True by simp_all
    moreover have "push_back_loop bt ev oo lo lbuf is 0 tr cbuf =
      (0, tr + of_nat (\<Sum>i\<leftarrow>is. length (dat i)), blits (map (\<lambda>i. (unat (oo i), dat i)) is) cbuf)"
      using Cons.prems by (intro Cons.IH) auto
    ultimately show ?thesis using True by auto
  next
    case False
    have fit: "unat (lo i) + length ?d \<le> length lbuf" "unat (oo i) + length ?d \<le> length cbuf"
      and len: "length ?d < 2 ^ 64"
      using Cons.prems(4) [of i] False by auto
    have n: "unat (of_nat (length ?d) :: u64) = length ?d" using len by (rule unat_of_nat_small)
    have "bt cbuf (oo i) lbuf (lo i) (of_nat (length ?d)) = Some (blit cbuf (unat (oo i)) ?d)"
      using bt fit Cons.prems(3) [of i] unfolding bulk_copies_def by (simp add: n)
    moreover have "push_back_loop bt ev oo lo lbuf is 0 (tr + of_nat (length ?d)) (blit cbuf (unat (oo i)) ?d) =
      (0, tr + of_nat (length ?d) + of_nat (\<Sum>i\<leftarrow>is. length (dat i)),
       blits (map (\<lambda>i. (unat (oo i), dat i)) is) (blit cbuf (unat (oo i)) ?d))"
      using Cons.prems fit(2) by (intro Cons.IH) auto
    ultimately show ?thesis using Cons.prems(1) [of i] False by (simp add: add.assoc)
  qed
qed simp

end
