(* ===== verification/Chunk_Pieces.thy ===== *)
theory Chunk_Pieces
  imports Byte_Buffers
begin

text \<open>
  How a byte range is cut at chunk borders, in natural numbers: \<open>C\<close> is the chunk size, \<open>o'\<close> the
  offset inside the first chunk and \<open>n\<close> the length. Piece \<open>r\<close> is what the range has in its \<open>r\<close>-th chunk.
  The client and the daemon compute these numbers in 64-bit arithmetic; the lemmas here are what
  their computations are compared with.
\<close>

definition piece_count :: "nat \<Rightarrow> nat \<Rightarrow> nat \<Rightarrow> nat" where
  "piece_count C o' n = (o' + n - 1) div C + 1"

definition piece_start :: "nat \<Rightarrow> nat \<Rightarrow> nat \<Rightarrow> nat" where
  "piece_start C o' r = (if r = 0 then 0 else r * C - o')"

definition piece_off :: "nat \<Rightarrow> nat \<Rightarrow> nat" where
  "piece_off o' r = (if r = 0 then o' else 0)"

definition piece_size :: "nat \<Rightarrow> nat \<Rightarrow> nat \<Rightarrow> nat \<Rightarrow> nat" where
  "piece_size C o' n r = min n (Suc r * C - o') - piece_start C o' r"

definition piece :: "nat \<Rightarrow> nat \<Rightarrow> nat \<Rightarrow> bytes \<Rightarrow> nat \<Rightarrow> bytes" where
  "piece C o' n buf r = take (piece_size C o' n r) (drop (piece_start C o' r) buf)"

lemma offset_le_mult: "o' < C \<Longrightarrow> r \<noteq> 0 \<Longrightarrow> o' \<le> r * (C :: nat)"
  by (cases r) auto

lemma piece_count_iff:
  assumes "o' < C" and "0 < n"
  shows "r < piece_count C o' n \<longleftrightarrow> r * C < o' + n"
  using assms by (simp add: piece_count_def less_Suc_eq_le less_eq_div_iff_mult_less_eq) linarith

lemma piece_start_less:
  assumes "o' < C" and "0 < n" and "r < piece_count C o' n"
  shows "piece_start C o' r < n"
  using assms by (auto simp: piece_count_iff piece_start_def)

lemma piece_start_le_end:
  assumes "o' < C"
  shows "piece_start C o' r < Suc r * C - o'"
proof (cases r)
  case 0
  then show ?thesis using assms by (simp add: piece_start_def)
next
  case (Suc q)
  have "C \<le> r * C" using Suc by simp
  then show ?thesis using Suc assms by (simp add: piece_start_def)
qed

lemma piece_size_pos:
  assumes "o' < C" and "0 < n" and "r < piece_count C o' n"
  shows "0 < piece_size C o' n r"
  using piece_start_less [OF assms] piece_start_le_end [OF assms(1), of r]
  by (simp add: piece_size_def)

lemma piece_end:
  assumes "o' < C" and "0 < n" and "r < piece_count C o' n"
  shows "piece_start C o' r + piece_size C o' n r = min n (Suc r * C - o')"
  using piece_start_less [OF assms] piece_start_le_end [OF assms(1), of r]
  by (simp add: piece_size_def)

lemma piece_end_le:
  assumes "o' < C" and "0 < n" and "r < piece_count C o' n"
  shows "piece_start C o' r + piece_size C o' n r \<le> n"
  using piece_end [OF assms] by simp

lemma piece_fits_chunk:
  assumes "o' < C" and "0 < n" and "r < piece_count C o' n"
  shows "piece_off o' r + piece_size C o' n r \<le> C"
proof (cases r)
  case 0
  then show ?thesis using assms by (simp add: piece_size_def piece_off_def piece_start_def)
next
  case (Suc q)
  have "C \<le> r * C" using Suc by simp
  then show ?thesis using Suc assms by (simp add: piece_size_def piece_off_def piece_start_def)
qed

lemma length_piece:
  assumes "o' < C" and "0 < n" and "r < piece_count C o' n" and "n \<le> length buf"
  shows "length (piece C o' n buf r) = piece_size C o' n r"
  using piece_end_le [OF assms(1-3)] assms(4) by (simp add: piece_def)

text \<open>All pieces but the last reach the end of their chunk.\<close>

lemma piece_size_inner:
  assumes "o' < C" and "Suc r < piece_count C o' n" and "0 < n"
  shows "piece_size C o' n r = C - piece_off o' r"
proof -
  have "Suc r * C < o' + n" using assms by (simp only: piece_count_iff)
  then have "min n (Suc r * C - o') = Suc r * C - o'" by simp
  then show ?thesis
    using assms(1) offset_le_mult [OF assms(1), of r]
    by (cases "r = 0") (auto simp: piece_size_def piece_off_def piece_start_def)
qed

lemma piece_inner_min:
  assumes "o' < C" and "Suc r < piece_count C o' n" and "0 < n" and "0 < r \<or> o' = 0"
  shows "min n C = C"
proof -
  have lt: "Suc r * C < o' + n" using assms by (simp only: piece_count_iff)
  then show ?thesis using assms(1,4) offset_le_mult [OF assms(1), of r] by (cases "r = 0") auto
qed

lemma piece_size_first:
  assumes "o' < C"
  shows "piece_size C o' n 0 = (if o' + n \<le> C then n else C - o')"
  using assms by (auto simp: piece_size_def piece_start_def)

lemma piece_size_last:
  assumes "o' < C" and "0 < n" and "Suc r = piece_count C o' n"
  shows "piece_size C o' n r =
    C - piece_off o' r - (if (o' + n) mod C = 0 then 0 else C - (o' + n) mod C)"
proof -
  let ?m = "o' + n"
  have r: "r = (?m - 1) div C" using assms by (simp add: piece_count_def)
  have lt: "r * C < ?m" using assms piece_count_iff [of o' C n r] by simp
  have ge: "?m \<le> Suc r * C" using assms piece_count_iff [of o' C n "Suc r"] by simp
  have mod: "?m mod C = (if ?m = Suc r * C then 0 else ?m - r * C)"
  proof (cases "?m = Suc r * C")
    case True
    then show ?thesis by simp
  next
    case False
    then have "?m = (?m - r * C) + r * C" "?m - r * C < C" using lt ge by auto
    then show ?thesis using False mod_mult_self1 [of "?m - r * C" r C] by simp
  qed
  have "min n (Suc r * C - o') = n" using ge by simp
  then show ?thesis
    using lt ge assms(1) offset_le_mult [OF assms(1), of r] unfolding piece_size_def mod
    by (cases "r = 0") (auto simp: piece_start_def piece_off_def)
qed

section \<open>Bytes and pieces\<close>

text \<open>Byte \<open>j\<close> of the range lies in piece \<open>(o' + j) div C\<close>, at chunk position \<open>(o' + j) mod C\<close>.\<close>

lemma piece_of_byte:
  assumes "o' < C" and "j < n"
  shows "(o' + j) div C < piece_count C o' n"
    and "piece_start C o' ((o' + j) div C) \<le> j"
    and "j < piece_start C o' ((o' + j) div C) + piece_size C o' n ((o' + j) div C)"
    and "piece_off o' ((o' + j) div C) + (j - piece_start C o' ((o' + j) div C)) = (o' + j) mod C"
proof -
  let ?r = "(o' + j) div C"
  have C: "0 < C" and n: "0 < n" using assms by auto
  have split: "?r * C + (o' + j) mod C = o' + j" by simp
  have lt: "(o' + j) mod C < C" using C by simp
  show cnt: "?r < piece_count C o' n"
    using split assms n by (simp only: piece_count_iff [OF assms(1) n])
  have "?r * C - o' \<le> j" using split by linarith
  then show st: "piece_start C o' ?r \<le> j" by (simp add: piece_start_def)
  have "j < Suc ?r * C - o'" using split lt unfolding mult_Suc by linarith
  then show "j < piece_start C o' ?r + piece_size C o' n ?r"
    using assms(2) by (simp add: piece_end [OF assms(1) n cnt])
  show "piece_off o' ?r + (j - piece_start C o' ?r) = (o' + j) mod C"
  proof (cases "?r = 0")
    case True
    then show ?thesis using split by (simp add: piece_start_def piece_off_def)
  next
    case False
    then have "j - (?r * C - o') = (o' + j) mod C"
      using split offset_le_mult [OF assms(1), of ?r] by linarith
    then show ?thesis using False by (simp add: piece_start_def piece_off_def)
  qed
qed

lemma nth_piece:
  assumes "n \<le> length buf" and "piece_start C o' r \<le> j" and "j < piece_start C o' r + piece_size C o' n r"
    and "o' < C" and "0 < n" and "r < piece_count C o' n"
  shows "piece C o' n buf r ! (j - piece_start C o' r) = buf ! j"
  using assms piece_end_le [OF assms(4-6)] by (simp add: piece_def)

text \<open>Conversely a position of a piece is a position of its chunk.\<close>

lemma piece_position:
  assumes "o' < C" and "piece_off o' r \<le> x" and "x < C" and "piece_start C o' r + (x - piece_off o' r) = j"
  shows "(o' + j) div C = r" and "(o' + j) mod C = x"
proof -
  have "o' + j = x + r * C"
    using assms offset_le_mult [OF assms(1), of r] by (cases "r = 0") (auto simp: piece_start_def piece_off_def)
  then show "(o' + j) div C = r" "(o' + j) mod C = x" using assms(3) by simp_all
qed

lemma piece_starts_mono:
  assumes "o' < C" and "0 < n" and "r < s" and "s < piece_count C o' n"
  shows "piece_start C o' r + piece_size C o' n r \<le> piece_start C o' s"
proof -
  have "Suc r * C \<le> s * C" using assms(3) by (intro mult_le_mono1) simp
  moreover have "piece_start C o' r + piece_size C o' n r = min n (Suc r * C - o')"
    using assms by (intro piece_end) auto
  ultimately show ?thesis using assms(3) by (simp add: piece_start_def)
qed

end
