(* ===== verification/Rpc_Bitset.thy ===== *)
theory Rpc_Bitset
  imports Gkfs_Prelude
begin

text \<open>
  The chunk bitset of \<open>src/common/rpc/rpc_util.cpp\<close>: one bit for every chunk of an I/O request,
  kept in a byte vector and sent to the daemon as a base64 string. The lemmas show that a set bit
  is read back, that other bits are untouched, and that the daemon decodes the vector the client
  encoded (followed, when its length is not a multiple of three, by one byte more).
\<close>

section \<open>Bit vectors\<close>

text \<open>The position is a \<open>uint16_t\<close> and the shifted one an \<open>int\<close>, as in the source.\<close>

definition get_bitset :: "bytes \<Rightarrow> u16 \<Rightarrow> bool" where
  "get_bitset data position =
     ((ucast (data ! (unat position div 8)) :: u32) AND push_bit (unat position mod 8) 1 \<noteq> 0)"

definition set_bitset :: "bytes \<Rightarrow> u16 \<Rightarrow> bytes" where
  "set_bitset data position =
     data[unat position div 8 :=
       ucast ((ucast (data ! (unat position div 8)) :: u32) OR push_bit (unat position mod 8) 1)]"

section \<open>Base64\<close>

definition base64_chars :: string where
  "base64_chars = ''ABCDEFGHIJKLMNOPQRSTUVWXYZabcdefghijklmnopqrstuvwxyz0123456789+/''"

text \<open>The inner loop of \<open>base64_encode\<close>: emit a character while six bits are pending.\<close>

fun emit_sextets :: "u32 \<Rightarrow> nat \<Rightarrow> string \<Rightarrow> nat \<times> string" where
  "emit_sextets buffer padding encoded =
     (if 6 \<le> padding
      then emit_sextets buffer (padding - 6)
             (encoded @ [base64_chars ! unat (drop_bit (padding - 6) buffer AND 0x3F)])
      else (padding, encoded))"

declare emit_sextets.simps [simp del]

fun encode_loop :: "bytes \<Rightarrow> u32 \<Rightarrow> nat \<Rightarrow> string \<Rightarrow> u32 \<times> nat \<times> string" where
  "encode_loop [] buffer padding encoded = (buffer, padding, encoded)"
| "encode_loop (b # bs) buffer padding encoded =
     (let buffer = push_bit 8 buffer OR ucast b;
          (padding, encoded) = emit_sextets buffer (padding + 8) encoded
      in encode_loop bs buffer padding encoded)"

definition pad_to_4 :: "string \<Rightarrow> string" where
  "pad_to_4 encoded = encoded @ replicate ((4 - length encoded mod 4) mod 4) (CHR ''='')"

definition base64_encode :: "bytes \<Rightarrow> string" where
  "base64_encode data =
     (let (buffer, padding, encoded) = encode_loop data 0 0 [];
          encoded = (if 0 < padding
                     then encoded @ [base64_chars ! unat (push_bit (6 - padding) buffer AND 0x3F)]
                     else encoded)
      in pad_to_4 encoded)"

text \<open>\<open>std::string::find\<close> of one character.\<close>

fun find_char :: "char \<Rightarrow> string \<Rightarrow> nat option" where
  "find_char c [] = None"
| "find_char c (x # xs) = (if x = c then Some 0 else map_option Suc (find_char c xs))"

fun decode_loop :: "string \<Rightarrow> u32 \<Rightarrow> nat \<Rightarrow> bytes \<Rightarrow> u32 \<times> nat \<times> bytes" where
  "decode_loop [] buffer padding data = (buffer, padding, data)"
| "decode_loop (c # cs) buffer padding data =
     (if c = CHR ''='' then (buffer, padding, data)
      else case find_char c base64_chars of
        None \<Rightarrow> decode_loop cs buffer padding data
      | Some v \<Rightarrow>
          let buffer = push_bit 6 buffer OR of_nat v; padding = padding + 6
          in if 8 \<le> padding
             then decode_loop cs buffer (padding - 8)
                    (data @ [ucast (drop_bit (padding - 8) buffer AND 0xFF)])
             else decode_loop cs buffer padding data)"

text \<open>The counter \<open>count\<close> of the source is the length of the decoded data.\<close>

definition base64_decode :: "string \<Rightarrow> bytes" where
  "base64_decode encoded =
     (let (buffer, padding, data) = decode_loop encoded 0 0 [];
          (buffer, padding, data) =
            (if 0 < padding \<and> padding < 6 \<and> buffer AND (push_bit padding 1 - 1) = 0
             then (drop_bit padding buffer, 0,
                   data @ [ucast (drop_bit 8 (drop_bit padding buffer) AND 0xFF)])
             else (buffer, padding, data))
      in if length data = 0 \<or> padding mod 8 \<noteq> 0 then [] else data)"

definition compress_bitset :: "bytes \<Rightarrow> string" where
  "compress_bitset bytes = base64_encode bytes"

definition decompress_bitset :: "string \<Rightarrow> bytes" where
  "decompress_bitset compressedString = base64_decode compressedString"

section \<open>Bit vector laws\<close>

lemma length_set_bitset [simp]: "length (set_bitset data p) = length data"
  by (simp add: set_bitset_def)

lemma get_bitset_iff:
  "get_bitset data p \<longleftrightarrow> bit (data ! (unat p div 8)) (unat p mod 8)"
proof -
  let ?b = "data ! (unat p div 8)" and ?k = "unat p mod 8"
  have k: "?k < 8" by simp
  have "(ucast ?b :: u32) AND push_bit ?k 1 = push_bit ?k (of_bool (bit ?b ?k))"
    by (rule bit_word_eqI) (use k in \<open>auto simp: bit_simps\<close>)
  then show ?thesis using k by (auto simp: get_bitset_def push_bit_eq_mult)
qed

lemma get_set_bitset:
  assumes "unat p div 8 < length data"
  shows "get_bitset (set_bitset data p) q \<longleftrightarrow> p = q \<or> get_bitset data q"
proof -
  let ?i = "unat p div 8" and ?k = "unat p mod 8"
  have k: "?k < 8" by simp
  have b: "bit (ucast ((ucast x :: u32) OR push_bit ?k 1) :: byte) n \<longleftrightarrow> bit x n \<or> n = ?k"
    if "n < 8" for n and x :: byte
    using that k by (auto simp: bit_simps)
  have eq: "p = q \<longleftrightarrow> ?i = unat q div 8 \<and> ?k = unat q mod 8"
    by (metis div_mult_mod_eq word_unat_eq_iff)
  show ?thesis
  proof (cases "unat q div 8 = ?i")
    case True
    with assms show ?thesis
      using b [of "unat q mod 8" "data ! ?i"] eq
      by (auto simp: get_bitset_iff set_bitset_def)
  next
    case False
    then show ?thesis using eq by (auto simp: get_bitset_iff set_bitset_def)
  qed
qed

section \<open>Base64 round trip\<close>

lemma and_3F: "x AND 0x3F = take_bit 6 (x :: u32)"
  by (simp add: take_bit_eq_mask mask_eq_exp_minus_1)

lemma and_FF: "x AND 0xFF = take_bit 8 (x :: u32)"
  by (simp add: take_bit_eq_mask mask_eq_exp_minus_1)

lemma find_char_nth: "distinct xs \<Longrightarrow> i < length xs \<Longrightarrow> find_char (xs ! i) xs = Some i"
proof (induction xs arbitrary: i)
  case Nil
  then show ?case by simp
next
  case (Cons x xs)
  then show ?case by (cases i) (auto simp: in_set_conv_nth)
qed

lemma base64_chars_table:
  "distinct base64_chars" "length base64_chars = 64" "CHR ''='' \<notin> set base64_chars"
  by (simp_all add: base64_chars_def)

text \<open>The character of a sextet, and how the decoder consumes it.\<close>

definition char64 :: "u32 \<Rightarrow> char" where
  "char64 s = base64_chars ! unat (take_bit 6 s)"

lemma unat_sextet: "unat (take_bit 6 (s :: u32)) < 64"
proof -
  have "unat (take_bit 6 s) = unat s mod 64"
    using unsigned_take_bit_eq [of 6 s, where ?'a = nat] by (simp add: take_bit_eq_mod)
  then show ?thesis by simp
qed

lemma find_char64 [simp]:
  "find_char (char64 s) base64_chars = Some (unat (take_bit 6 s))" "char64 s \<noteq> CHR ''=''"
proof -
  have i: "unat (take_bit 6 s) < length base64_chars"
    using unat_sextet [of s] base64_chars_table(2) by (simp only:)
  show "find_char (char64 s) base64_chars = Some (unat (take_bit 6 s))"
    unfolding char64_def by (rule find_char_nth [OF base64_chars_table(1) i])
  show "char64 s \<noteq> CHR ''=''"
    using nth_mem [OF i] base64_chars_table(3) unfolding char64_def by metis
qed

text \<open>The encoder on a group of three bytes, and on the one or two bytes that may remain.\<close>

lemma emit_sextets_simps:
  "emit_sextets B 8 out = (2, out @ [char64 (drop_bit 2 B)])"
  "emit_sextets B 10 out = (4, out @ [char64 (drop_bit 4 B)])"
  "emit_sextets B 12 out = (0, out @ [char64 (drop_bit 6 B), char64 B])"
  by (simp_all add: emit_sextets.simps char64_def and_3F)

definition shift_in :: "u32 \<Rightarrow> byte \<Rightarrow> u32" where
  "shift_in buffer b = push_bit 8 buffer OR ucast b"

definition join_sextet :: "u32 \<Rightarrow> u32 \<Rightarrow> u32" where
  "join_sextet buffer s = push_bit 6 buffer OR take_bit 6 s"

lemma encode_loop_shift:
  "encode_loop (b # bs) buffer padding encoded =
     (let (padding, encoded) = emit_sextets (shift_in buffer b) (padding + 8) encoded
      in encode_loop bs (shift_in buffer b) padding encoded)"
  by (simp add: shift_in_def Let_def)

lemma decode_char64:
  "decode_loop (char64 s # cs) buffer padding data =
     (let buffer = join_sextet buffer s; padding = padding + 6
      in if 8 \<le> padding
         then decode_loop cs buffer (padding - 8)
                (data @ [ucast (drop_bit (padding - 8) buffer AND 0xFF)])
         else decode_loop cs buffer padding data)"
  by (simp add: Let_def join_sextet_def)

lemma encode_three:
  "encode_loop (a # b # c # bs) B 0 out =
     (let B1 = shift_in B a; B2 = shift_in B1 b; B3 = shift_in B2 c
      in encode_loop bs B3 0
           (out @ [char64 (drop_bit 2 B1), char64 (drop_bit 4 B2), char64 (drop_bit 6 B3),
                   char64 B3]))"
  by (simp add: encode_loop_shift emit_sextets_simps Let_def del: encode_loop.simps(2))

lemma byte_eqI:
  assumes "bit x 0 = bit y 0" "bit x 1 = bit y 1" "bit x 2 = bit y 2" "bit x 3 = bit y 3"
    "bit x 4 = bit y 4" "bit x 5 = bit y 5" "bit x 6 = bit y 6" "bit x 7 = bit y 7"
  shows "x = (y :: byte)"
proof (rule bit_word_eqI)
  fix n assume "n < LENGTH(8)"
  then have "n \<in> {0, 1, 2, 3, 4, 5, 6, 7}" by auto
  then show "bit x n = bit y n" using assms by blast
qed

lemma bit_byte_high: "8 \<le> n \<Longrightarrow> \<not> bit (x :: byte) n"
  by (auto dest: bit_imp_le_length)

lemmas shift_bits =
  bit_unsigned_iff bit_take_bit_iff bit_drop_bit_eq bit_push_bit_iff bit_or_iff comp_def
  bit_byte_high

lemma decoded_bytes:
  fixes a b c :: byte and B D :: u32
  defines "B1 \<equiv> shift_in B a" and "B2 \<equiv> shift_in (shift_in B a) b"
    and "B3 \<equiv> shift_in (shift_in (shift_in B a) b) c"
  defines "D2 \<equiv> join_sextet (join_sextet D (drop_bit 2 B1)) (drop_bit 4 B2)"
  defines "D3 \<equiv> join_sextet D2 (drop_bit 6 B3)"
  shows "ucast (drop_bit 4 D2 AND 0xFF) = a" "ucast (drop_bit 2 D3 AND 0xFF) = b"
    "ucast (join_sextet D3 B3 AND 0xFF) = c"
  unfolding and_FF assms shift_in_def join_sextet_def
    by (rule byte_eqI; simp add: shift_bits; simp add: numeral_2_eq_2 numeral_3_eq_3)+

text \<open>The last character of an incomplete group carries the remaining bits and zeros.\<close>

lemma decoded_tail1:
  fixes a :: byte and B D :: u32
  defines "B1 \<equiv> shift_in B a"
  defines "D2 \<equiv> join_sextet (join_sextet D (drop_bit 2 B1)) (push_bit 4 B1)"
  shows "ucast (drop_bit 4 D2 AND 0xFF) = a" "take_bit 4 D2 = 0"
proof -
  show "ucast (drop_bit 4 D2 AND 0xFF) = a"
    unfolding and_FF assms shift_in_def join_sextet_def
    by (rule byte_eqI; simp add: shift_bits; simp add: numeral_2_eq_2 numeral_3_eq_3)
  show "take_bit 4 D2 = 0"
    unfolding assms shift_in_def join_sextet_def by (rule bit_word_eqI) (auto simp: shift_bits)
qed

lemma decoded_tail2:
  fixes a b :: byte and B D :: u32
  defines "B1 \<equiv> shift_in B a" and "B2 \<equiv> shift_in (shift_in B a) b"
  defines "D2 \<equiv> join_sextet (join_sextet D (drop_bit 2 B1)) (drop_bit 4 B2)"
  defines "D3 \<equiv> join_sextet D2 (push_bit 2 B2)"
  shows "ucast (drop_bit 4 D2 AND 0xFF) = a" "ucast (drop_bit 2 D3 AND 0xFF) = b"
    "take_bit 2 D3 = 0"
proof -
  show "ucast (drop_bit 4 D2 AND 0xFF) = a" "ucast (drop_bit 2 D3 AND 0xFF) = b"
    unfolding and_FF assms shift_in_def join_sextet_def
    by (rule byte_eqI; simp add: shift_bits; simp add: numeral_2_eq_2 numeral_3_eq_3)+
  show "take_bit 2 D3 = 0"
    unfolding assms shift_in_def join_sextet_def by (rule bit_word_eqI) (auto simp: shift_bits)
qed

text \<open>
  Encoding from any buffer state at a group boundary appends characters that the decoder turns
  back into the same bytes, from any buffer state of its own; the bits it is left with are zero.
\<close>

definition encode_rest :: "bytes \<Rightarrow> u32 \<Rightarrow> string \<Rightarrow> string" where
  "encode_rest bs B out =
     (let (buffer, padding, encoded) = encode_loop bs B 0 out
      in if 0 < padding
         then encoded @ [base64_chars ! unat (push_bit (6 - padding) buffer AND 0x3F)]
         else encoded)"

definition leftover :: "nat \<Rightarrow> nat" where
  "leftover n = (if n mod 3 = 0 then 0 else if n mod 3 = 1 then 4 else 2)"

lemma leftover_simps:
  "leftover 0 = 0" "leftover (Suc 0) = 4" "leftover (Suc (Suc 0)) = 2"
  "leftover (Suc (Suc (Suc n))) = leftover n"
  by (simp_all add: leftover_def mod_Suc)

lemma decode_loop_pad: "decode_loop (replicate k (CHR ''='')) D p data = (D, p, data)"
  by (cases k) simp_all

lemma decode_encode_rest:
  "\<exists>cs. (\<forall>out. encode_rest bs B out = out @ cs) \<and>
     (\<forall>D data k. \<exists>D'. decode_loop (cs @ replicate k (CHR ''='')) D 0 data =
        (D', leftover (length bs), data @ bs) \<and> take_bit (leftover (length bs)) D' = 0)"
proof (induction "length bs" arbitrary: bs B rule: less_induct)
  case less
  consider "bs = []" | a where "bs = [a]" | a b where "bs = [a, b]"
    | a b c bs' where "bs = a # b # c # bs'"
    by (metis list.exhaust)
  then show ?case
  proof cases
    case 1
    then show ?thesis
      by (intro exI [of _ "[]"]) (simp add: encode_rest_def decode_loop_pad leftover_simps)
  next
    case (2 a)
    let ?B1 = "shift_in B a"
    show ?thesis
      by (rule exI [of _ "[char64 (drop_bit 2 ?B1), char64 (push_bit 4 ?B1)]"])
        (simp add: 2 encode_rest_def encode_loop_shift emit_sextets_simps and_3F decode_char64
          Let_def decode_loop_pad decoded_tail1 leftover_simps
          del: encode_loop.simps(2) decode_loop.simps(2) flip: char64_def)
  next
    case (3 a b)
    let ?B1 = "shift_in B a"
    let ?B2 = "shift_in ?B1 b"
    show ?thesis
      by (rule exI [of _ "[char64 (drop_bit 2 ?B1), char64 (drop_bit 4 ?B2),
            char64 (push_bit 2 ?B2)]"])
        (simp add: 3 encode_rest_def encode_loop_shift emit_sextets_simps and_3F decode_char64
          Let_def decode_loop_pad decoded_tail2 leftover_simps
          del: encode_loop.simps(2) decode_loop.simps(2) flip: char64_def)
  next
    case (4 a b c bs')
    let ?B1 = "shift_in B a"
    let ?B2 = "shift_in ?B1 b"
    let ?B3 = "shift_in ?B2 c"
    let ?g = "[char64 (drop_bit 2 ?B1), char64 (drop_bit 4 ?B2), char64 (drop_bit 6 ?B3),
      char64 ?B3]"
    from less [of bs' ?B3] 4 obtain cs where
      enc: "\<And>out. encode_rest bs' ?B3 out = out @ cs" and
      dec: "\<And>D data k. \<exists>D'. decode_loop (cs @ replicate k (CHR ''='')) D 0 data =
        (D', leftover (length bs'), data @ bs') \<and> take_bit (leftover (length bs')) D' = 0"
      by auto
    have "encode_rest bs B out = out @ ?g @ cs" for out
      using enc [of "out @ ?g"] unfolding encode_rest_def 4 encode_three Let_def by simp
    moreover have "\<exists>D'. decode_loop ((?g @ cs) @ replicate k (CHR ''='')) D 0 data =
        (D', leftover (length bs), data @ bs) \<and> take_bit (leftover (length bs)) D' = 0"
      for D data k
      using dec [of k _ "data @ [a, b, c]"]
      by (simp add: 4 decode_char64 Let_def decoded_bytes leftover_simps del: decode_loop.simps(2))
    ultimately show ?thesis by blast
  qed
qed

lemma base64_encode_rest: "base64_encode data = pad_to_4 (encode_rest data 0 [])"
  by (simp add: base64_encode_def encode_rest_def Let_def split: prod.splits)

lemma base64_roundtrip:
  "\<exists>extra. base64_decode (base64_encode data) = data @ extra \<and>
     length extra = of_bool (length data mod 3 \<noteq> 0)"
proof -
  let ?p = "leftover (length data)"
  from decode_encode_rest [of data 0] obtain cs where
    enc: "encode_rest data 0 [] = cs" and
    dec: "\<And>k. \<exists>D'. decode_loop (cs @ replicate k (CHR ''='')) 0 0 [] = (D', ?p, data) \<and>
      take_bit ?p D' = 0"
    by (metis append_Nil)
  obtain D' where d: "decode_loop (base64_encode data) 0 0 [] = (D', ?p, data)"
    and z: "take_bit ?p D' = 0"
    using dec unfolding base64_encode_rest enc pad_to_4_def by blast
  show ?thesis
  proof (cases "length data mod 3 = 0")
    case True
    then show ?thesis using d by (simp add: base64_decode_def leftover_def)
  next
    case False
    then have "0 < ?p" "?p < 6" by (auto simp: leftover_def)
    moreover have "D' AND (2 ^ ?p - 1) = 0"
      using z by (simp add: take_bit_eq_mask mask_eq_exp_minus_1)
    ultimately show ?thesis using False d by (auto simp: base64_decode_def)
  qed
qed

lemma decompress_compress_prefix:
  assumes "i < length data"
  shows "decompress_bitset (compress_bitset data) ! i = data ! i"
  using base64_roundtrip [of data] assms
  by (auto simp: decompress_bitset_def compress_bitset_def nth_append)

lemma get_bitset_transport:
  assumes "unat p div 8 < length data"
  shows "get_bitset (decompress_bitset (compress_bitset data)) p = get_bitset data p"
  using decompress_compress_prefix [OF assms] by (simp add: get_bitset_iff)

end
