(* ===== verification/Distributor.thy ===== *)
theory Distributor
  imports Decimal "HOL-Library.Multiset"
begin

text \<open>
  Placement of chunks and metadata on the daemons (\<open>src/common/rpc/distributor.cpp\<close>). The hash of
  \<open>std::hash<std::string>\<close> is the parameter \<open>str_hash\<close>; \<open>host_t\<close> and \<open>chunkid_t\<close> are 32 bits wide, the hash
  64, and the replica number is added to the hash modulo \<open>2 ^ 64\<close>.

  The four distributors meet one contract, the locale \<open>placement\<close>: a well-formed distributor names
  only hosts it has. From it follows that a range of chunks is split among the hosts without loss
  or overlap, which is what the client's request fan-out relies on.
\<close>

type_synonym host_t = u32
type_synonym chunkid_t = u32
type_synonym str_hash = "string \<Rightarrow> u64"

definition iota_hosts :: "u32 \<Rightarrow> host_t list" where
  "iota_hosts n = map of_nat [0..<unat n]"

text \<open>\<open>(str_hash(key) + num_copy) % hosts_size_\<close>, converted to \<open>host_t\<close>.\<close>

definition hash_host :: "str_hash \<Rightarrow> string \<Rightarrow> int \<Rightarrow> u32 \<Rightarrow> host_t" where
  "hash_host str_hash key num_copy nhosts =
     ucast ((str_hash key + word_of_int num_copy) mod ucast nhosts)"

section \<open>SimpleHashDistributor\<close>

record distributor =
  localhost :: host_t
  hosts_size :: u32
  all_hosts :: "host_t list"

definition SimpleHashDistributor_new :: "host_t \<Rightarrow> u32 \<Rightarrow> distributor" where
  "SimpleHashDistributor_new lhost nhosts =
     \<lparr>localhost = lhost, hosts_size = nhosts, all_hosts = iota_hosts nhosts\<rparr>"

definition set_hosts_size :: "u32 \<Rightarrow> distributor \<Rightarrow> distributor" where
  "set_hosts_size sz d = d\<lparr>hosts_size := sz\<rparr>"

definition simple_locate_data :: "str_hash \<Rightarrow> distributor \<Rightarrow> string \<Rightarrow> chunkid_t \<Rightarrow> int \<Rightarrow> host_t" where
  "simple_locate_data str_hash d path chnk_id num_copy =
     hash_host str_hash (path @ show_nat (unat chnk_id)) num_copy (hosts_size d)"

text \<open>The overload the daemons use: the number of hosts comes with the request.\<close>

definition resize_hosts :: "u32 \<Rightarrow> distributor \<Rightarrow> distributor" where
  "resize_hosts nhosts d =
     (if hosts_size d \<noteq> nhosts
      then d\<lparr>hosts_size := nhosts, all_hosts := iota_hosts nhosts\<rparr> else d)"

definition simple_locate_data_sized ::
    "str_hash \<Rightarrow> distributor \<Rightarrow> string \<Rightarrow> chunkid_t \<Rightarrow> u32 \<Rightarrow> int \<Rightarrow> host_t \<times> distributor" where
  "simple_locate_data_sized str_hash d path chnk_id nhosts num_copy =
     (let d' = resize_hosts nhosts d
      in (hash_host str_hash (path @ show_nat (unat chnk_id)) num_copy (hosts_size d'), d'))"

definition simple_locate_file_metadata :: "str_hash \<Rightarrow> distributor \<Rightarrow> string \<Rightarrow> int \<Rightarrow> host_t" where
  "simple_locate_file_metadata str_hash d path num_copy = hash_host str_hash path num_copy (hosts_size d)"

definition simple_locate_directory_metadata :: "distributor \<Rightarrow> host_t list" where
  "simple_locate_directory_metadata d = all_hosts d"

section \<open>LocalOnlyDistributor and ForwarderDistributor\<close>

definition LocalOnlyDistributor_new :: "host_t \<Rightarrow> distributor" where
  "LocalOnlyDistributor_new lhost = \<lparr>localhost = lhost, hosts_size = 0, all_hosts = []\<rparr>"

definition local_locate_data :: "distributor \<Rightarrow> string \<Rightarrow> chunkid_t \<Rightarrow> int \<Rightarrow> host_t" where
  "local_locate_data d path chnk_id num_copy = localhost d"

definition local_locate_file_metadata :: "distributor \<Rightarrow> string \<Rightarrow> int \<Rightarrow> host_t" where
  "local_locate_file_metadata d path num_copy = localhost d"

definition local_locate_directory_metadata :: "distributor \<Rightarrow> host_t list" where
  "local_locate_directory_metadata d = [localhost d]"

text \<open>The forwarder keeps its target in \<open>fwd_host_\<close>, here the field \<open>localhost\<close>.\<close>

definition ForwarderDistributor_new :: "host_t \<Rightarrow> u32 \<Rightarrow> distributor" where
  "ForwarderDistributor_new fwhost nhosts =
     \<lparr>localhost = fwhost, hosts_size = nhosts, all_hosts = iota_hosts nhosts\<rparr>"

definition forwarder_locate_data :: "distributor \<Rightarrow> string \<Rightarrow> chunkid_t \<Rightarrow> int \<Rightarrow> host_t" where
  "forwarder_locate_data d path chnk_id num_copy = localhost d"

definition forwarder_locate_file_metadata :: "str_hash \<Rightarrow> distributor \<Rightarrow> string \<Rightarrow> int \<Rightarrow> host_t" where
  "forwarder_locate_file_metadata str_hash d path num_copy = hash_host str_hash path num_copy (hosts_size d)"

section \<open>IntervalSet\<close>

text \<open>
  \<open>std::map<chunkid_t, chunkid_t>\<close> as the list of its pairs in key order; \<open>upper_bound\<close> splits it.
\<close>

type_synonym interval_set = "(chunkid_t \<times> chunkid_t) list"

definition at_most :: "chunkid_t \<Rightarrow> interval_set \<Rightarrow> interval_set" where
  "at_most v ivs = takeWhile (\<lambda>iv. fst iv \<le> v) ivs"

definition upper_bound :: "chunkid_t \<Rightarrow> interval_set \<Rightarrow> interval_set" where
  "upper_bound v ivs = dropWhile (\<lambda>iv. fst iv \<le> v) ivs"

definition map_put :: "chunkid_t \<Rightarrow> chunkid_t \<Rightarrow> interval_set \<Rightarrow> interval_set" where
  "map_put k v ivs = takeWhile (\<lambda>iv. fst iv < k) ivs @ (k, v) # upper_bound k ivs"

definition IntervalSet_Add :: "chunkid_t \<Rightarrow> chunkid_t \<Rightarrow> interval_set \<Rightarrow> interval_set" where
  "IntervalSet_Add smaller bigger ivs =
     (let before = at_most smaller ivs; nxt = upper_bound smaller ivs
      in if before = [] then map_put smaller bigger ivs
         else
           (let prev = last before;
                (bigger1, nxt1) =
                  (case nxt of
                     [] \<Rightarrow> (bigger, nxt)
                   | n # ns \<Rightarrow> if fst n \<le> bigger + 1 then (snd n, ns) else (bigger, nxt));
                (smaller1, before1) =
                  (if snd prev + 1 \<ge> smaller then (fst prev, butlast before) else (smaller, before))
            in map_put smaller1 bigger1 (before1 @ nxt1)))"

text \<open>\<open>std::prev\<close> of the first position is undefined: the value None.\<close>

definition IsInsideInterval :: "chunkid_t \<Rightarrow> interval_set \<Rightarrow> bool option" where
  "IsInsideInterval v ivs =
     (let before = at_most v ivs
      in if before = [] then None
         else Some (fst (last before) \<le> v \<and> v \<le> snd (last before)))"

section \<open>GuidedDistributor\<close>

record guided_distributor = distributor +
  map_interval :: "(string \<times> interval_set \<times> u32) list"
  prefix_list :: "string list"

text \<open>One entry of the mapping file: path, chunk and destination host.\<close>

definition init_guided_entry ::
    "string \<times> chunkid_t \<times> u32 \<Rightarrow> guided_distributor \<Rightarrow> guided_distributor option" where
  "init_guided_entry entry d =
     (case entry of (path, chunk_id, destination_host) \<Rightarrow>
        if path \<noteq> [] \<and> hd path = CHR ''#''
        then Some (d\<lparr>prefix_list := prefix_list d @ [drop 1 path]\<rparr>)
        else
          (case map_of (map_interval d) path of
             None \<Rightarrow>
               Some (d\<lparr>map_interval := AList.update path
                        (IntervalSet_Add chunk_id (chunk_id + 1) [], destination_host + 1) (map_interval d)\<rparr>)
           | Some (is, _) \<Rightarrow>
               (case IsInsideInterval chunk_id is of
                  None \<Rightarrow> None
                | Some True \<Rightarrow>
                    Some (d\<lparr>map_interval := AList.update path
                             (IntervalSet_Add chunk_id (chunk_id + 1) is, destination_host + 1) (map_interval d)\<rparr>)
                | Some False \<Rightarrow> Some d)))"

text \<open>The file as the entries read from it, None when it cannot be opened.\<close>

primrec init_guided_entries ::
    "(string \<times> chunkid_t \<times> u32) list \<Rightarrow> guided_distributor \<Rightarrow> guided_distributor option" where
  "init_guided_entries [] d = Some d"
| "init_guided_entries (e # es) d =
     (case init_guided_entry e d of None \<Rightarrow> None | Some d' \<Rightarrow> init_guided_entries es d')"

definition init_guided ::
    "(string \<times> chunkid_t \<times> u32) list option \<Rightarrow> guided_distributor \<Rightarrow> (bool \<times> guided_distributor) option" where
  "init_guided mapfile d = (case mapfile of
       None \<Rightarrow> Some (False, d)
     | Some es \<Rightarrow> map_option (Pair True) (init_guided_entries es d))"

text \<open>
  \<open>locate_data\<close>: the loop over the prefixes returns in its first iteration, whether the prefix
  matches or not. None stands for the undefined look-up of \<open>IsInsideInterval\<close>.
\<close>

definition guided_locate_data ::
    "str_hash \<Rightarrow> guided_distributor \<Rightarrow> string \<Rightarrow> chunkid_t \<Rightarrow> int \<Rightarrow> host_t option" where
  "guided_locate_data str_hash d path chnk_id num_copy =
     (let rest =
        (case prefix_list d of
           _ # _ \<Rightarrow> hash_host str_hash path 0 (hosts_size d)
         | [] \<Rightarrow> hash_host str_hash (path @ show_nat (unat chnk_id)) num_copy (hosts_size d))
      in case map_of (map_interval d) path of
           None \<Rightarrow> Some rest
         | Some (is, dest) \<Rightarrow>
             (case IsInsideInterval chnk_id is of
                None \<Rightarrow> None
              | Some True \<Rightarrow> Some (dest - 1)
              | Some False \<Rightarrow> Some rest))"

definition guided_locate_data_sized ::
    "str_hash \<Rightarrow> guided_distributor \<Rightarrow> string \<Rightarrow> chunkid_t \<Rightarrow> u32 \<Rightarrow> int
       \<Rightarrow> host_t option \<times> guided_distributor" where
  "guided_locate_data_sized str_hash d path chnk_id nhosts num_copy =
     (let d' = (if hosts_size d \<noteq> nhosts
                then d\<lparr>hosts_size := nhosts, all_hosts := iota_hosts nhosts\<rparr> else d)
      in (guided_locate_data str_hash d' path chnk_id num_copy, d'))"

definition guided_locate_file_metadata :: "str_hash \<Rightarrow> guided_distributor \<Rightarrow> string \<Rightarrow> int \<Rightarrow> host_t" where
  "guided_locate_file_metadata str_hash d path num_copy = hash_host str_hash path num_copy (hosts_size d)"

section \<open>The contract\<close>

locale placement =
  fixes wf :: "'d \<Rightarrow> bool"
    and hosts :: "'d \<Rightarrow> u32"
    and locate :: "'d \<Rightarrow> string \<Rightarrow> chunkid_t \<Rightarrow> int \<Rightarrow> host_t"
    and locate_md :: "'d \<Rightarrow> string \<Rightarrow> int \<Rightarrow> host_t"
  assumes locate_range: "wf d \<Longrightarrow> locate d p c k < hosts d"
    and locate_md_range: "wf d \<Longrightarrow> locate_md d p k < hosts d"
begin

lemma chunks_partition:
  assumes "wf d"
  shows "(\<Sum>h\<leftarrow>iota_hosts (hosts d). mset (filter (\<lambda>c. locate d p c k = h) cs)) = mset cs"
proof (induction cs)
  case Nil
  show ?case by (simp add: sum_list_0)
next
  case (Cons c cs)
  let ?h = "locate d p c k"
  have one: "(\<Sum>h\<leftarrow>map of_nat [0..<n]. if x = h then {#c#} else {#}) =
      (if unat x < n then {#c#} else {#})" if "n \<le> 2 ^ 32" for n and x :: u32
    using that
    by (induction n) (auto simp: less_Suc_eq word_unat_eq_iff unat_of_nat)
  have "unat (hosts d) \<le> 2 ^ 32"
    using unsigned_less [of "hosts d", where ?'a = nat] by simp
  then have "(\<Sum>h\<leftarrow>iota_hosts (hosts d). if ?h = h then {#c#} else {#}) = {#c#}"
    unfolding iota_hosts_def
    using one locate_range [OF assms, of p c k] by (simp add: word_less_nat_alt)
  moreover have "(\<Sum>h\<leftarrow>iota_hosts (hosts d). mset (filter (\<lambda>c. locate d p c k = h) (c # cs))) =
     (\<Sum>h\<leftarrow>iota_hosts (hosts d). if ?h = h then {#c#} else {#}) +
     (\<Sum>h\<leftarrow>iota_hosts (hosts d). mset (filter (\<lambda>c. locate d p c k = h) cs))"
    by (simp add: sum_list_addf [symmetric] if_distrib cong: if_cong)
      (rule arg_cong [where f = sum_list], simp)
  ultimately show ?case using Cons by simp
qed

end

lemma unat_ucast_host: "unat (ucast (n :: u32) :: u64) = unat n"
  using unsigned_less [of n, where ?'a = nat] by (simp add: unsigned_ucast_eq take_bit_nat_eq_self)

lemma unat_hash_host:
  assumes "0 < n"
  shows "unat (hash_host str_hash key k n) = unat (str_hash key + word_of_int k) mod unat n"
proof -
  let ?x = "(str_hash key + word_of_int k) mod ucast n"
  have m: "unat ?x = unat (str_hash key + word_of_int k) mod unat n"
    by (simp add: unat_mod_distrib unat_ucast_host)
  have "unat ?x < unat n" using assms by (simp add: m unat_gt_0)
  then have "unat ?x < 2 ^ 32" using unsigned_less [of n, where ?'a = nat] by simp
  then have "unat (ucast ?x :: u32) = unat ?x" by (simp add: unsigned_ucast_eq take_bit_nat_eq_self)
  then show ?thesis by (simp add: hash_host_def m)
qed

lemma hash_host_range: "0 < n \<Longrightarrow> hash_host str_hash key k n < n"
  by (simp add: word_less_nat_alt unat_hash_host)

text \<open>Replicas of one key are on different hosts as long as the sum does not wrap around.\<close>

lemma mod_shift_distinct:
  fixes x m n N :: nat
  assumes "m < n" and "n < N"
  shows "(x + m) mod N \<noteq> (x + n) mod N"
proof
  assume "(x + m) mod N = (x + n) mod N"
  then have "N dvd (x + n) - (x + m)" using assms by (intro mod_eq_dvd_iff_nat [THEN iffD1]) auto
  then show False using assms by (auto dest: dvd_imp_le)
qed

lemma hash_host_replicas:
  assumes "m \<noteq> n" and "m < unat N" and "n < unat N" and "unat (str_hash key) + unat N < 2 ^ 64"
  shows "hash_host str_hash key (int m) N \<noteq> hash_host str_hash key (int n) N"
proof -
  have N: "0 < N" using assms(2) by (auto simp: word_less_nat_alt)
  have sum: "unat (str_hash key + of_nat j) = unat (str_hash key) + j" if "j < unat N" for j
  proof -
    have "str_hash key + of_nat j = of_nat (unat (str_hash key) + j)" by simp
    then show ?thesis using that assms(4) unat_of_nat_small [of "unat (str_hash key) + j"] by simp
  qed
  have "(unat (str_hash key) + m) mod unat N \<noteq> (unat (str_hash key) + n) mod unat N"
    using assms(1-3) mod_shift_distinct [of m n "unat N"] mod_shift_distinct [of n m "unat N"]
    by (metis nat_neq_iff)
  then show ?thesis using assms(2,3) by (simp add: word_unat_eq_iff unat_hash_host [OF N] sum)
qed

section \<open>The distributors meet the contract\<close>

definition wf_hosts :: "distributor \<Rightarrow> bool" where
  "wf_hosts d \<longleftrightarrow> 0 < hosts_size d \<and> all_hosts d = iota_hosts (hosts_size d)"

definition wf_fixed_host :: "distributor \<Rightarrow> bool" where
  "wf_fixed_host d \<longleftrightarrow> localhost d < hosts_size d"

text \<open>The guided distributor where its look-up is defined; the host 0 elsewhere.\<close>

definition guided_target :: "str_hash \<Rightarrow> guided_distributor \<Rightarrow> string \<Rightarrow> chunkid_t \<Rightarrow> int \<Rightarrow> host_t" where
  "guided_target str_hash d path chnk_id num_copy =
     (case guided_locate_data str_hash d path chnk_id num_copy of None \<Rightarrow> 0 | Some h \<Rightarrow> h)"

definition wf_guided :: "guided_distributor \<Rightarrow> bool" where
  "wf_guided d \<longleftrightarrow> 0 < hosts_size d \<and>
     list_all (\<lambda>(_, _, dest). dest - 1 < hosts_size d) (map_interval d)"

interpretation simple: placement wf_hosts hosts_size "simple_locate_data str_hash"
    "simple_locate_file_metadata str_hash"
  for str_hash
  by unfold_locales
    (simp_all add: wf_hosts_def simple_locate_data_def simple_locate_file_metadata_def hash_host_range)

interpretation local_only: placement wf_fixed_host hosts_size local_locate_data local_locate_file_metadata
  by unfold_locales
    (simp_all add: wf_fixed_host_def local_locate_data_def local_locate_file_metadata_def)

interpretation forwarder: placement wf_fixed_host hosts_size forwarder_locate_data
    "forwarder_locate_file_metadata str_hash"
  for str_hash
proof unfold_locales
  fix d :: distributor and p c k
  assume wf: "wf_fixed_host d"
  then have "0 < hosts_size d" by (auto simp: wf_fixed_host_def word_gt_0)
  then show "forwarder_locate_file_metadata str_hash d p k < hosts_size d"
    by (simp add: forwarder_locate_file_metadata_def hash_host_range)
  show "forwarder_locate_data d p c k < hosts_size d"
    using wf by (simp add: wf_fixed_host_def forwarder_locate_data_def)
qed

lemma guided_target_range:
  assumes "wf_guided d"
  shows "guided_target str_hash d p c k < hosts_size d"
proof (cases "map_of (map_interval d) p")
  case None
  then show ?thesis
    using assms by (auto simp: guided_target_def guided_locate_data_def Let_def wf_guided_def
        hash_host_range split: list.splits)
next
  case (Some v)
  obtain ivs dest where v: "v = (ivs, dest)" by (cases v)
  have "dest - 1 < hosts_size d"
    using assms Some v by (force simp: wf_guided_def list_all_iff dest: map_of_SomeD)
  then show ?thesis
    using assms Some v by (auto simp: guided_target_def guided_locate_data_def Let_def wf_guided_def
        hash_host_range split: list.splits option.splits bool.splits)
qed

interpretation guided: placement wf_guided hosts_size "guided_target str_hash"
    "guided_locate_file_metadata str_hash"
  for str_hash
  by unfold_locales
    (simp_all add: guided_target_range guided_locate_file_metadata_def hash_host_range wf_guided_def)

section \<open>Client and daemon agree\<close>

lemma wf_SimpleHashDistributor_new:
  "0 < n \<Longrightarrow> wf_hosts (SimpleHashDistributor_new h n)"
  by (simp add: wf_hosts_def SimpleHashDistributor_new_def)

lemma wf_resize_hosts: "wf_hosts d \<Longrightarrow> 0 < n \<Longrightarrow> wf_hosts (resize_hosts n d)"
  by (simp add: wf_hosts_def resize_hosts_def)

lemma simple_locate_sized:
  "simple_locate_data_sized str_hash d p c n k =
     (simple_locate_data str_hash (resize_hosts n d) p c k, resize_hosts n d)"
  by (simp add: simple_locate_data_sized_def simple_locate_data_def Let_def)

lemma simple_locate_hosts_size:
  "hosts_size d = hosts_size d' \<Longrightarrow> simple_locate_data str_hash d = simple_locate_data str_hash d'"
  by (intro ext) (simp add: simple_locate_data_def)

lemma guided_like_simple:
  assumes "map_of (map_interval d) p = None" and "prefix_list d = []"
  shows "guided_locate_data str_hash d p c k =
    Some (hash_host str_hash (p @ show_nat (unat c)) k (hosts_size d))"
  using assms by (simp add: guided_locate_data_def Let_def)

end
