(* ===== verification/Srv_Data.thy ===== *)
theory Srv_Data
  imports Chunk_Ops Chunk_Pieces Rpc_Bitset Distributor
begin

text \<open>
  The daemon's data handlers (\<open>src/daemon/handler/srv_data.cpp\<close>): a request names a range of chunks,
  which of them are for this daemon, how many and how many bytes in all. The handler recomputes for
  each of its chunks the size, the place in the client's buffer and the place in its own buffer,
  moves the data by bulk transfer and runs one task per chunk.

  The handlers for requests of a client and of a proxy differ in how they recognise their chunks
  (a bit set, the distributor); the loops take that test as an argument. Statistics, logging and the
  AGIOS scheduler (off by default) are left out. The buffer a bulk handle allocates starts zeroed.
\<close>

record data_in =
  in_path :: string
  in_offset :: u64
  in_host_id :: u64
  in_host_size :: u64
  in_wbitset :: string
  in_chunk_n :: u64
  in_chunk_start :: u64
  in_chunk_end :: u64
  in_total_chunk_size :: u64

record data_out =
  out_err :: errno
  out_io_size :: u64

record srv_env =
  get_input_ok :: bool
  bulk_create_ok :: bool
  bulk_access_ok :: bool
  srv_abt :: abt_env

section \<open>The loop over the chunks of a request\<close>

text \<open>\<open>for(id = chunk_start; id <= chunk_end; id++)\<close>\<close>

definition chunk_range :: "u64 \<Rightarrow> u64 \<Rightarrow> u64 list" where
  "chunk_range chunk_start chunk_end = map of_nat [unat chunk_start..<Suc (unat chunk_end)]"

record srv_state =
  chnk_id_curr :: u64
  chnk_size_left_host :: u64
  chnk_ptr :: u64
  transfer_size :: u64
  srv_tasks :: "chunk_task list"
  origin_offsets :: "u64 list"
  local_offsets :: "u64 list"
  bulk_buf :: bytes

definition srv_init :: "u64 \<Rightarrow> data_in \<Rightarrow> u64 \<Rightarrow> srv_state" where
  "srv_init csz inp bulk_size =
     \<lparr>chnk_id_curr = 0, chnk_size_left_host = in_total_chunk_size inp, chnk_ptr = 0,
      transfer_size = (if bulk_size \<le> csz then bulk_size else csz),
      srv_tasks = [], origin_offsets = [], local_offsets = [],
      bulk_buf = replicate (unat (in_total_chunk_size inp)) 0\<rparr>"

text \<open>
  The numbers of one chunk: size, origin offset, local offset, and the value \<open>transfer_size\<close> has
  afterwards. The first chunk of a request with an offset is the special case.
\<close>

definition plan_chunk :: "u64 \<Rightarrow> data_in \<Rightarrow> u64 \<Rightarrow> srv_state \<Rightarrow> u64 \<Rightarrow> u64 \<times> u64 \<times> u64 \<times> u64" where
  "plan_chunk csz inp bulk_size st chnk_id_file =
     (if chnk_id_file = in_chunk_start inp \<and> 0 < sint (in_offset inp)
      then (if in_offset inp + bulk_size \<le> csz then bulk_size else csz - in_offset inp,
            0, 0, transfer_size st)
      else
        (let local_offset = in_total_chunk_size inp - chnk_size_left_host st;
             origin_offset =
               (if 0 < sint (in_offset inp)
                then (csz - in_offset inp) + ((chnk_id_file - in_chunk_start inp) - 1) * csz
                else (chnk_id_file - in_chunk_start inp) * csz);
             ts = (if chnk_id_curr st = in_chunk_n inp - 1 then chnk_size_left_host st
                   else transfer_size st)
         in (ts, origin_offset, local_offset, ts)))"

definition chunk_off :: "data_in \<Rightarrow> u64 \<Rightarrow> u64" where
  "chunk_off inp chnk_id_file = (if chnk_id_file = in_chunk_start inp then in_offset inp else 0)"

text \<open>The updates both loops make once the sizes of a chunk are known and its task is started.\<close>

definition advance :: "data_in \<Rightarrow> u64 \<Rightarrow> u64 \<times> u64 \<times> u64 \<times> u64 \<Rightarrow> bytes \<Rightarrow> srv_state \<Rightarrow> srv_state" where
  "advance inp chnk_id_file plan buf st =
     (case plan of (sz, origin_offset, local_offset, ts) \<Rightarrow>
       st\<lparr>chnk_id_curr := chnk_id_curr st + 1,
          chnk_size_left_host := chnk_size_left_host st - sz,
          chnk_ptr := chnk_ptr st + sz,
          transfer_size := ts,
          srv_tasks := srv_tasks st @
            [\<lparr>task_chunk = chnk_id_file, task_pos = chnk_ptr st, task_size = sz,
              task_off = chunk_off inp chnk_id_file\<rparr>],
          origin_offsets := origin_offsets st @ [origin_offset],
          local_offsets := local_offsets st @ [local_offset],
          bulk_buf := buf\<rparr>)"

primrec srv_write_loop ::
    "u64 \<Rightarrow> bulk_transfer \<Rightarrow> abt_env \<Rightarrow> data_in \<Rightarrow> (u64 \<Rightarrow> bool) \<Rightarrow> bytes \<Rightarrow> u64 list \<Rightarrow> srv_state
       \<Rightarrow> errno \<times> srv_state + srv_state" where
  "srv_write_loop csz bt abt inp mine cbuf [] st = Inr st"
| "srv_write_loop csz bt abt inp mine cbuf (chnk_id_file # ids) st =
     (if \<not> chnk_id_curr st < in_chunk_n inp then Inr st
      else if \<not> mine chnk_id_file then srv_write_loop csz bt abt inp mine cbuf ids st
      else
        (let plan = plan_chunk csz inp (of_nat (length cbuf)) st chnk_id_file;
             (sz, origin_offset, local_offset, ts) = plan
         in case bt (bulk_buf st) local_offset cbuf origin_offset sz of
              None \<Rightarrow> Inl (EBUSY, st)
            | Some buf \<Rightarrow>
                if \<not> create_ok abt (unat (chnk_id_curr st)) then Inl (EIO, st\<lparr>bulk_buf := buf\<rparr>)
                else srv_write_loop csz bt abt inp mine cbuf ids (advance inp chnk_id_file plan buf st)))"

primrec srv_read_loop ::
    "u64 \<Rightarrow> abt_env \<Rightarrow> data_in \<Rightarrow> (u64 \<Rightarrow> bool) \<Rightarrow> u64 \<Rightarrow> u64 list \<Rightarrow> srv_state
       \<Rightarrow> errno \<times> srv_state + srv_state" where
  "srv_read_loop csz abt inp mine bulk_size [] st = Inr st"
| "srv_read_loop csz abt inp mine bulk_size (chnk_id_file # ids) st =
     (if \<not> chnk_id_curr st < in_chunk_n inp then Inr st
      else if \<not> mine chnk_id_file then srv_read_loop csz abt inp mine bulk_size ids st
      else if \<not> create_ok abt (unat (chnk_id_curr st)) then Inl (EIO, st)
      else srv_read_loop csz abt inp mine bulk_size ids
             (advance inp chnk_id_file (plan_chunk csz inp bulk_size st chnk_id_file) (bulk_buf st) st))"

section \<open>The handlers\<close>

text \<open>An error before the tasks are awaited destroys the operation: only tasks that ran already count.\<close>

definition srv_write ::
    "u64 \<Rightarrow> chunk_storage \<Rightarrow> srv_env \<Rightarrow> bulk_transfer \<Rightarrow> (u64 \<Rightarrow> bool) \<Rightarrow> local_fs \<Rightarrow> data_in \<Rightarrow> bytes
       \<Rightarrow> data_out \<times> local_fs" where
  "srv_write csz cs env bt mine fs inp cbuf =
     (if \<not> get_input_ok env \<or> \<not> bulk_create_ok env \<or> \<not> bulk_access_ok env
      then (\<lparr>out_err = EIO, out_io_size = 0\<rparr>, fs)
      else
        (let abt = srv_abt env;
             st0 = srv_init csz inp (of_nat (length cbuf));
             ids = chunk_range (in_chunk_start inp) (in_chunk_end inp);
             run = (\<lambda>st order. run_write_tasks cs (task_io abt) (in_path inp) (bulk_buf st) (srv_tasks st)
                       order fs Map.empty)
         in case srv_write_loop csz bt abt inp mine cbuf ids st0 of
              Inl (e, st) \<Rightarrow>
                (\<lparr>out_err = e, out_io_size = 0\<rparr>, snd (run st (cancelled_after abt)))
            | Inr st \<Rightarrow>
                (let (res, fs') = run st (task_order abt (length (srv_tasks st)));
                     (err, written) = wait_for_tasks abt res (unat (in_chunk_n inp))
                 in (\<lparr>out_err = err, out_io_size = written\<rparr>, fs'))))"

definition bit_mine :: "data_in \<Rightarrow> u64 \<Rightarrow> bool" where
  "bit_mine inp chnk_id_file =
     get_bitset (decompress_bitset (in_wbitset inp)) (ucast (chnk_id_file - in_chunk_start inp))"

definition rpc_srv_write ::
    "u64 \<Rightarrow> chunk_storage \<Rightarrow> srv_env \<Rightarrow> bulk_transfer \<Rightarrow> local_fs \<Rightarrow> data_in \<Rightarrow> bytes \<Rightarrow> data_out \<times> local_fs" where
  "rpc_srv_write csz cs env bt fs inp cbuf = srv_write csz cs env bt (bit_mine inp) fs inp cbuf"

text \<open>The proxy's requests carry no bit set: the daemon asks its distributor.\<close>

definition located_here :: "str_hash \<Rightarrow> distributor \<Rightarrow> data_in \<Rightarrow> u64 \<Rightarrow> bool" where
  "located_here str_hash d inp chnk_id_file \<longleftrightarrow>
     ucast (fst (simple_locate_data_sized str_hash d (in_path inp) (ucast chnk_id_file)
       (ucast (in_host_size inp)) 0)) = in_host_id inp"

definition rpc_srv_proxy_write ::
    "str_hash \<Rightarrow> distributor \<Rightarrow> u64 \<Rightarrow> chunk_storage \<Rightarrow> srv_env \<Rightarrow> bulk_transfer \<Rightarrow> local_fs \<Rightarrow> data_in
       \<Rightarrow> bytes \<Rightarrow> data_out \<times> local_fs" where
  "rpc_srv_proxy_write str_hash d csz cs env bt fs inp cbuf =
     srv_write csz cs env bt (located_here str_hash d inp) fs inp cbuf"

text \<open>
  The read handler also changes the client's buffer. None: it returns \<open>HG_CANCELED\<close> without a
  response, which the handler for clients does when no chunk of the request was recognised.
\<close>

definition srv_read ::
    "bool \<Rightarrow> u64 \<Rightarrow> chunk_storage \<Rightarrow> srv_env \<Rightarrow> bulk_transfer \<Rightarrow> (u64 \<Rightarrow> bool) \<Rightarrow> local_fs \<Rightarrow> data_in \<Rightarrow> bytes
       \<Rightarrow> data_out option \<times> bytes" where
  "srv_read may_cancel csz cs env bt mine fs inp cbuf =
     (if \<not> get_input_ok env \<or> \<not> bulk_create_ok env \<or> \<not> bulk_access_ok env
      then (Some \<lparr>out_err = EIO, out_io_size = 0\<rparr>, cbuf)
      else
        (let abt = srv_abt env;
             bulk_size = of_nat (length cbuf);
             st0 = srv_init csz inp bulk_size;
             ids = chunk_range (in_chunk_start inp) (in_chunk_end inp)
         in case srv_read_loop csz abt inp mine bulk_size ids st0 of
              Inl (e, st) \<Rightarrow> (Some \<lparr>out_err = e, out_io_size = 0\<rparr>, cbuf)
            | Inr st \<Rightarrow>
                if may_cancel \<and> chnk_size_left_host st = in_total_chunk_size inp then (None, cbuf)
                else
                  (let (res, lbuf) = run_read_tasks cs (task_io abt) fs (in_path inp) (srv_tasks st)
                         (task_order abt (length (srv_tasks st))) (bulk_buf st) Map.empty;
                       (err, got, cbuf') = wait_for_tasks_and_push_back bt abt res
                         (\<lambda>i. origin_offsets st ! i) (\<lambda>i. local_offsets st ! i) (unat (in_chunk_n inp)) lbuf cbuf
                   in (Some \<lparr>out_err = err, out_io_size = got\<rparr>, cbuf'))))"

definition rpc_srv_read ::
    "u64 \<Rightarrow> chunk_storage \<Rightarrow> srv_env \<Rightarrow> bulk_transfer \<Rightarrow> local_fs \<Rightarrow> data_in \<Rightarrow> bytes
       \<Rightarrow> data_out option \<times> bytes" where
  "rpc_srv_read csz cs env bt fs inp cbuf = srv_read True csz cs env bt (bit_mine inp) fs inp cbuf"

definition rpc_srv_proxy_read ::
    "str_hash \<Rightarrow> distributor \<Rightarrow> u64 \<Rightarrow> chunk_storage \<Rightarrow> srv_env \<Rightarrow> bulk_transfer \<Rightarrow> local_fs \<Rightarrow> data_in
       \<Rightarrow> bytes \<Rightarrow> data_out option \<times> bytes" where
  "rpc_srv_proxy_read str_hash d csz cs env bt fs inp cbuf =
     srv_read False csz cs env bt (located_here str_hash d inp) fs inp cbuf"

definition rpc_srv_truncate ::
    "u64 \<Rightarrow> chunk_storage \<Rightarrow> srv_env \<Rightarrow> trunc_env \<Rightarrow> local_fs \<Rightarrow> string \<Rightarrow> u64 \<Rightarrow> errno \<times> local_fs" where
  "rpc_srv_truncate csz cs env tenv fs path len =
     (if \<not> get_input_ok env then (EIO, fs)
      else (case truncate_and_wait csz cs (srv_abt env) tenv fs path len of
              (None, fs') \<Rightarrow> (EIO, fs')
            | (Some err, fs') \<Rightarrow> (err, fs')))"

definition rpc_srv_get_chunk_stat ::
    "chunk_storage \<Rightarrow> errno + u64 \<times> u64 \<times> u64 \<Rightarrow> errno \<times> ChunkStat" where
  "rpc_srv_get_chunk_stat cs statfs =
     (case chunk_stat cs statfs of
        Inr s \<Rightarrow> (0, s)
      | Inl (ChunkStorageException e) \<Rightarrow> (e, \<lparr>chunk_size = 0, chunk_total = 0, chunk_free = 0\<rparr>)
      | Inl StdException \<Rightarrow> (EAGAIN, \<lparr>chunk_size = 0, chunk_total = 0, chunk_free = 0\<rparr>))"

end
