(* ===== verification/Forward_Data.thy ===== *)
theory Forward_Data
  imports Srv_Data
begin

text \<open>
  The client's data requests (\<open>src/client/rpc/forward_data.cpp\<close>): a byte range is cut into chunks, the
  chunks are grouped by the daemon the distributor names, one request per daemon is posted with a
  bit set of its chunks, and the replies are collected.

  The cluster maps a host id to the node-local file system of its daemon. The network is a parameter
  (\<open>rpc_env\<close>): which buffers can be exposed, which requests can be posted, which replies arrive and which
  requests are executed although no reply arrives. \<open>locate\<close> is the distributor of the client.

  Two conversions of the source are left to the caller. The number of copies, an \<open>int8_t\<close>, is a natural
  number and stands for 0 to 127. The distributor names a host of the hosts file (\<open>hosts().at\<close> throws for
  any other), so the cluster is a total map. \<open>forward_truncate\<close> asserts that the new size is below the
  current one; assertions are compiled out of the default release build, which is the one modelled, and
  properties carry them as hypotheses.
\<close>

type_synonym cluster = "u64 \<Rightarrow> local_fs"
type_synonym locator = "string \<Rightarrow> chunkid_t \<Rightarrow> int \<Rightarrow> host_t"

record rpc_env =
  expose_ok :: bool
  post_ok :: "u64 \<Rightarrow> bool"
  reply_ok :: "u64 \<Rightarrow> bool"
  executed :: "u64 \<Rightarrow> bool"
  daemon_env :: "u64 \<Rightarrow> srv_env"
  daemon_trunc :: "u64 \<Rightarrow> trunc_env"
  daemon_storage :: "u64 \<Rightarrow> chunk_storage"

section \<open>Grouping chunks by target\<close>

record fan_out =
  targets :: "u64 list"
  target_chnks :: "(u64 \<times> u64 list) list"
  ops_vect :: "(u64 \<times> bytes) list"
  chnk_start_target :: "u64 list"
  chnk_end_target :: "u64 list"

definition no_fan_out :: fan_out where
  "no_fan_out = \<lparr>targets = [], target_chnks = [], ops_vect = [], chnk_start_target = [], chnk_end_target = []\<rparr>"

text \<open>The body of the loops over chunks (and copies), with the function that sets a bit as argument.\<close>

definition add_target ::
    "(bytes \<Rightarrow> u64 \<Rightarrow> bytes) \<Rightarrow> u64 \<Rightarrow> u64 \<Rightarrow> u64 \<times> u64 \<Rightarrow> fan_out \<Rightarrow> fan_out" where
  "add_target setb chnk_start chnk_end ct f =
     (let (chnk_id, target) = ct;
          chnk_total = (chnk_end - chnk_start) + 1;
          bits = (case map_of (ops_vect f) target of
                    None \<Rightarrow> replicate (unat ((chnk_total + 7) div 8)) 0
                  | Some b \<Rightarrow> b)
      in f\<lparr>ops_vect := AList.update target (setb bits (chnk_id - chnk_start)) (ops_vect f),
           targets := (if map_of (target_chnks f) target = None then targets f @ [target] else targets f),
           target_chnks :=
             (case map_of (target_chnks f) target of
                None \<Rightarrow> target_chnks f @ [(target, [chnk_id])]
              | Some cs \<Rightarrow> AList.update target (cs @ [chnk_id]) (target_chnks f)),
           chnk_start_target :=
             (if chnk_id = chnk_start then List.insert target (chnk_start_target f) else chnk_start_target f),
           chnk_end_target :=
             (if chnk_id = chnk_end then List.insert target (chnk_end_target f) else chnk_end_target f)\<rparr>)"

text \<open>\<open>for(copy = num_copies ? 1 : 0; copy < num_copies + 1; copy++)\<close>\<close>

definition copies :: "nat \<Rightarrow> int list" where
  "copies num_copies = map int [(if num_copies \<noteq> 0 then 1 else 0)..<num_copies + 1]"

definition write_pairs :: "locator \<Rightarrow> string \<Rightarrow> u64 \<Rightarrow> u64 \<Rightarrow> nat \<Rightarrow> (u64 \<times> u64) list" where
  "write_pairs locate path chnk_start chnk_end num_copies =
     concat (map (\<lambda>chnk_id. map (\<lambda>copy. (chnk_id, ucast (locate path (ucast chnk_id) copy))) (copies num_copies))
       (chunk_range chnk_start chnk_end))"

definition set_bitset16 :: "bytes \<Rightarrow> u64 \<Rightarrow> bytes" where
  "set_bitset16 bits pos = set_bitset bits (ucast pos)"

definition write_fan_out :: "locator \<Rightarrow> string \<Rightarrow> u64 \<Rightarrow> u64 \<Rightarrow> nat \<Rightarrow> fan_out" where
  "write_fan_out locate path chnk_start chnk_end num_copies =
     fold (add_target set_bitset16 chnk_start chnk_end)
       (write_pairs locate path chnk_start chnk_end num_copies) no_fan_out"

section \<open>Requests\<close>

definition chunks_of :: "fan_out \<Rightarrow> u64 \<Rightarrow> u64 list" where
  "chunks_of f target = (case map_of (target_chnks f) target of None \<Rightarrow> [] | Some cs \<Rightarrow> cs)"

definition total_chunk_size :: "u64 \<Rightarrow> u64 \<Rightarrow> u64 \<Rightarrow> fan_out \<Rightarrow> u64 \<Rightarrow> u64" where
  "total_chunk_size csz offset sz f target =
     (let tcs = of_nat (length (chunks_of f target)) * csz;
          tcs1 = (if target \<in> set (chnk_start_target f) then tcs - block_overrun offset csz else tcs)
      in if target \<in> set (chnk_end_target f) \<and> \<not> is_aligned (offset + sz) csz
         then tcs1 - block_underrun (offset + sz) csz else tcs1)"

definition data_request ::
    "u64 \<Rightarrow> u64 \<Rightarrow> string \<Rightarrow> u64 \<Rightarrow> u64 \<Rightarrow> u64 \<Rightarrow> u64 \<Rightarrow> fan_out \<Rightarrow> u64 \<Rightarrow> data_in" where
  "data_request csz nhosts path offset sz chnk_start chnk_end f target =
     \<lparr>in_path = path, in_offset = block_overrun offset csz, in_host_id = target, in_host_size = nhosts,
      in_wbitset = compress_bitset (case map_of (ops_vect f) target of None \<Rightarrow> [] | Some b \<Rightarrow> b),
      in_chunk_n = of_nat (length (chunks_of f target)),
      in_chunk_start = chnk_start, in_chunk_end = chnk_end,
      in_total_chunk_size = total_chunk_size csz offset sz f target\<rparr>"

section \<open>Write\<close>

text \<open>
  Posting: each posted request is served by its daemon. The first component tells that a request
  could not be posted and the function returns at once, which it does without replicas only.
\<close>

primrec post_writes ::
    "u64 \<Rightarrow> rpc_env \<Rightarrow> bulk_transfer \<Rightarrow> nat \<Rightarrow> bytes \<Rightarrow> (u64 \<Rightarrow> data_in) \<Rightarrow> u64 list \<Rightarrow> cluster
       \<Rightarrow> bool \<times> data_out option list \<times> cluster" where
  "post_writes csz env bt num_copies buf request [] cl = (False, [], cl)"
| "post_writes csz env bt num_copies buf request (target # ts) cl =
     (if \<not> post_ok env target
      then (if num_copies = 0 then (True, [], cl)
            else post_writes csz env bt num_copies buf request ts cl)
      else
        (let (out, fs') = rpc_srv_write csz (daemon_storage env target) (daemon_env env target) bt
               (cl target) (request target) buf;
             cl' = (if reply_ok env target \<or> executed env target then cl(target := fs') else cl);
             (failed, handles, cl'') = post_writes csz env bt num_copies buf request ts cl'
         in (failed, (if reply_ok env target then Some out else None) # handles, cl'')))"

primrec gather_writes :: "data_out option list \<Rightarrow> errno \<Rightarrow> u64 \<Rightarrow> errno \<times> u64" where
  "gather_writes [] err out_size = (err, out_size)"
| "gather_writes (h # hs) err out_size =
     (case h of
        None \<Rightarrow> gather_writes hs EIO out_size
      | Some out \<Rightarrow>
          if out_err out \<noteq> 0 then gather_writes hs (out_err out) out_size
          else gather_writes hs err (out_size + out_io_size out))"

definition forward_write ::
    "u64 \<Rightarrow> u64 \<Rightarrow> locator \<Rightarrow> rpc_env \<Rightarrow> bulk_transfer \<Rightarrow> cluster \<Rightarrow> string \<Rightarrow> bytes \<Rightarrow> u64 \<Rightarrow> u64 \<Rightarrow> nat
       \<Rightarrow> (errno \<times> u64) \<times> cluster" where
  "forward_write csz nhosts locate env bt cl path buf offset write_size num_copies =
     (let chnk_start = block_index offset csz;
          chnk_end = block_index ((offset + write_size) - 1) csz;
          f = write_fan_out locate path chnk_start chnk_end num_copies
      in if \<not> expose_ok env then ((EBUSY, 0), cl)
         else
           (let request = data_request csz nhosts path offset write_size chnk_start chnk_end f;
                (failed, handles, cl') =
                  post_writes csz env bt num_copies (take (unat write_size) buf) request (targets f) cl
            in if failed then ((EBUSY, 0), cl')
               else
                 (let (err, out_size) = gather_writes handles 0 0;
                      out_size' = (if num_copies \<noteq> 0 then write_size else out_size)
                  in (if err \<noteq> 0 then (err, 0) else (0, out_size'), cl'))))"

section \<open>Read\<close>

text \<open>
  The replica loop: while the target is among the failed hosts, another copy is drawn. The draws of
  \<open>rand\<close> are a list; None when it runs out before a live host is found. Failed hosts are kept as
  \<open>int8_t\<close>.
\<close>

primrec other_replica :: "locator \<Rightarrow> string \<Rightarrow> u64 \<Rightarrow> nat \<Rightarrow> 8 word list \<Rightarrow> host_t \<Rightarrow> nat list \<Rightarrow> host_t option" where
  "other_replica locate path chnk_id num_copies failed target [] =
     (if ucast target \<in> set failed then None else Some target)"
| "other_replica locate path chnk_id num_copies failed target (rnd # rnds) =
     (if ucast target \<in> set failed
      then other_replica locate path chnk_id num_copies failed
             (locate path (ucast chnk_id) (int (rnd mod num_copies))) rnds
      else Some target)"

definition read_target ::
    "locator \<Rightarrow> string \<Rightarrow> nat \<Rightarrow> 8 word list \<Rightarrow> (u64 \<Rightarrow> nat list) \<Rightarrow> u64 \<Rightarrow> host_t option" where
  "read_target locate path num_copies failed draws chnk_id =
     (let target = locate path (ucast chnk_id) 0
      in if 0 < num_copies then other_replica locate path chnk_id num_copies failed target (draws chnk_id)
         else Some target)"

definition set_bit64 :: "bytes \<Rightarrow> u64 \<Rightarrow> bytes" where
  "set_bit64 bits pos =
     (let i = unat (pos div 8)
      in bits[i := ucast ((ucast (bits ! i) :: u32) OR push_bit (unat (pos mod 8)) 1)])"

primrec read_pairs ::
    "locator \<Rightarrow> string \<Rightarrow> nat \<Rightarrow> 8 word list \<Rightarrow> (u64 \<Rightarrow> nat list) \<Rightarrow> u64 list \<Rightarrow> (u64 \<times> u64) list option" where
  "read_pairs locate path num_copies failed draws [] = Some []"
| "read_pairs locate path num_copies failed draws (chnk_id # ids) =
     (case read_target locate path num_copies failed draws chnk_id of
        None \<Rightarrow> None
      | Some target \<Rightarrow>
          map_option (Cons (chnk_id, ucast target)) (read_pairs locate path num_copies failed draws ids))"

definition read_fan_out :: "u64 \<Rightarrow> u64 \<Rightarrow> (u64 \<times> u64) list \<Rightarrow> fan_out" where
  "read_fan_out chnk_start chnk_end pairs = fold (add_target set_bit64 chnk_start chnk_end) pairs no_fan_out"

primrec post_reads ::
    "u64 \<Rightarrow> rpc_env \<Rightarrow> bulk_transfer \<Rightarrow> cluster \<Rightarrow> (u64 \<Rightarrow> data_in) \<Rightarrow> u64 list \<Rightarrow> bytes
       \<Rightarrow> bool \<times> data_out option list \<times> bytes" where
  "post_reads csz env bt cl request [] buf = (False, [], buf)"
| "post_reads csz env bt cl request (target # ts) buf =
     (if \<not> post_ok env target then (True, [], buf)
      else
        (let (out, buf') = rpc_srv_read csz (daemon_storage env target) (daemon_env env target) bt
               (cl target) (request target) buf;
             buf1 = (if reply_ok env target \<or> executed env target then buf' else buf);
             (failed, handles, buf2) = post_reads csz env bt cl request ts buf1
         in (failed, (if reply_ok env target then out else None) # handles, buf2)))"

primrec gather_reads ::
    "(u64 \<times> data_out option) list \<Rightarrow> errno \<Rightarrow> u64 \<Rightarrow> 8 word list \<Rightarrow> errno \<times> u64 \<times> 8 word list" where
  "gather_reads [] err out_size failed = (err, out_size, failed)"
| "gather_reads (h # hs) err out_size failed =
     (case snd h of
        None \<Rightarrow> gather_reads hs EIO out_size (List.insert (ucast (fst h)) failed)
      | Some out \<Rightarrow>
          gather_reads hs (if out_err out \<noteq> 0 then out_err out else err) (out_size + out_io_size out) failed)"

text \<open>None: the replica loop does not end. The client's buffer is changed by the daemons.\<close>

definition forward_read ::
    "u64 \<Rightarrow> u64 \<Rightarrow> locator \<Rightarrow> rpc_env \<Rightarrow> bulk_transfer \<Rightarrow> cluster \<Rightarrow> string \<Rightarrow> bytes \<Rightarrow> u64 \<Rightarrow> u64 \<Rightarrow> nat
       \<Rightarrow> 8 word list \<Rightarrow> (u64 \<Rightarrow> nat list) \<Rightarrow> ((errno \<times> u64) \<times> bytes \<times> 8 word list) option" where
  "forward_read csz nhosts locate env bt cl path buf offset read_size num_copies failed draws =
     (let chnk_start = block_index offset csz;
          chnk_end = block_index (offset + read_size - 1) csz
      in case read_pairs locate path num_copies failed draws (chunk_range chnk_start chnk_end) of
           None \<Rightarrow> None
         | Some pairs \<Rightarrow>
             (let f = read_fan_out chnk_start chnk_end pairs;
                  request = data_request csz nhosts path offset read_size chnk_start chnk_end f
              in if \<not> expose_ok env then Some ((EBUSY, 0), buf, failed)
                 else
                   (let (stop, handles, buf') = post_reads csz env bt cl request (targets f)
                          (take (unat read_size) buf);
                        buf1 = buf' @ drop (unat read_size) buf
                    in if stop then Some ((EBUSY, 0), buf1, failed)
                       else
                         (let (err, out_size, failed') = gather_reads (zip (targets f) handles) 0 0 failed
                          in Some (if err \<noteq> 0 then (err, 0) else (0, out_size), buf1, failed')))))"

section \<open>Truncate and chunk statistics\<close>

definition truncate_hosts :: "u64 \<Rightarrow> locator \<Rightarrow> string \<Rightarrow> u64 \<Rightarrow> u64 \<Rightarrow> nat \<Rightarrow> host_t list" where
  "truncate_hosts csz locate path current_size new_size num_copies =
     (let chunk_start = ucast (block_index new_size csz) :: u32;
          chunk_end = ucast (block_index (current_size - new_size - 1) csz) :: u32
      in remdups (concat (map (\<lambda>chunk_id. map (locate path chunk_id) (map int [0..<num_copies + 1]))
           (map of_nat [unat chunk_start..<Suc (unat chunk_end)]))))"

primrec post_truncates ::
    "u64 \<Rightarrow> rpc_env \<Rightarrow> string \<Rightarrow> u64 \<Rightarrow> host_t list \<Rightarrow> errno \<Rightarrow> cluster \<Rightarrow> errno \<times> cluster" where
  "post_truncates csz env path new_size [] err cl = (err, cl)"
| "post_truncates csz env path new_size (host # hs) err cl =
     (let h = ucast host :: u64
      in if \<not> post_ok env h then (EIO, cl)
         else
           (let (e, fs') = rpc_srv_truncate csz (daemon_storage env h) (daemon_env env h) (daemon_trunc env h)
                  (cl h) path new_size;
                cl' = (if reply_ok env h \<or> executed env h then cl(h := fs') else cl)
            in post_truncates csz env path new_size hs
                 (if reply_ok env h \<and> e = 0 then err else EIO) cl'))"

definition forward_truncate ::
    "u64 \<Rightarrow> locator \<Rightarrow> rpc_env \<Rightarrow> cluster \<Rightarrow> string \<Rightarrow> u64 \<Rightarrow> u64 \<Rightarrow> nat \<Rightarrow> errno \<times> cluster" where
  "forward_truncate csz locate env cl path current_size new_size num_copies =
     post_truncates csz env path new_size (truncate_hosts csz locate path current_size new_size num_copies) 0 cl"

text \<open>
  \<open>forward_get_chunk_stat\<close>, given for each host what \<open>statfs\<close> gives its daemon. A host that cannot be
  reached ends the posting; a reply that does not arrive is skipped.
\<close>

primrec gather_chunk_stats ::
    "rpc_env \<Rightarrow> (u64 \<Rightarrow> errno + u64 \<times> u64 \<times> u64) \<Rightarrow> u64 list \<Rightarrow> errno \<Rightarrow> u64 \<Rightarrow> u64 \<Rightarrow> errno \<times> u64 \<times> u64" where
  "gather_chunk_stats env statfs [] err ctotal cfree = (err, ctotal, cfree)"
| "gather_chunk_stats env statfs (h # hs) err ctotal cfree =
     (if \<not> reply_ok env h then gather_chunk_stats env statfs hs err ctotal cfree
      else
        (let (e, s) = rpc_srv_get_chunk_stat (daemon_storage env h) (statfs h)
         in if e \<noteq> 0 then gather_chunk_stats env statfs hs e ctotal cfree
            else gather_chunk_stats env statfs hs err (ctotal + chunk_total s) (cfree + chunk_free s)))"

definition forward_get_chunk_stat ::
    "u64 \<Rightarrow> u64 list \<Rightarrow> rpc_env \<Rightarrow> (u64 \<Rightarrow> errno + u64 \<times> u64 \<times> u64) \<Rightarrow> errno \<times> ChunkStat" where
  "forward_get_chunk_stat csz hosts env statfs =
     (let reached = takeWhile (post_ok env) hosts;
          err0 = (if reached = hosts then 0 else EBUSY);
          (err, ctotal, cfree) = gather_chunk_stats env statfs reached err0 0 0
      in if err \<noteq> 0 then (err, \<lparr>chunk_size = 0, chunk_total = 0, chunk_free = 0\<rparr>)
         else (0, \<lparr>chunk_size = csz, chunk_total = ctotal, chunk_free = cfree\<rparr>))"

end
