(* ===== verification/Srv_Data_Proofs.thy ===== *)
theory Srv_Data_Proofs
  imports Srv_Data
begin

text \<open>
  Correctness of the daemon's data handlers. \<open>valid_request\<close> is the contract of a request: what the
  client promises about its fields for a byte range of length \<open>n\<close> that starts \<open>o'\<close> bytes into chunk
  \<open>k\<close>, when the pieces selected by \<open>sel\<close> are for this daemon. Under it the handler's 64-bit
  computations give, chunk by chunk, the pieces of theory \<open>Chunk_Pieces\<close>.
\<close>

definition sel_bytes :: "nat \<Rightarrow> nat \<Rightarrow> nat \<Rightarrow> (nat \<Rightarrow> bool) \<Rightarrow> nat \<Rightarrow> nat" where
  "sel_bytes C o' n sel j = (\<Sum>r\<leftarrow>filter sel [0..<j]. piece_size C o' n r)"

definition valid_request ::
    "u64 \<Rightarrow> nat \<Rightarrow> nat \<Rightarrow> nat \<Rightarrow> (nat \<Rightarrow> bool) \<Rightarrow> data_in \<Rightarrow> (u64 \<Rightarrow> bool) \<Rightarrow> bool" where
  "valid_request csz k o' n sel inp mine \<longleftrightarrow>
     (let C = unat csz; K = piece_count C o' n
      in 0 < n \<and> o' < C \<and> C < 2 ^ 32 \<and> (k + K) * C < 2 ^ 64 \<and>
         in_chunk_start inp = of_nat k \<and> in_chunk_end inp = of_nat (k + K - 1) \<and>
         in_offset inp = of_nat o' \<and>
         in_chunk_n inp = of_nat (length (filter sel [0..<K])) \<and>
         in_total_chunk_size inp = of_nat (sel_bytes C o' n sel K) \<and>
         (\<forall>r < K. mine (of_nat (k + r)) = sel r))"

lemma filter_upt_split:
  assumes "j < K" and "P j"
  shows "filter P [0..<K] = filter P [0..<j] @ j # filter P [Suc j..<K]"
proof -
  have "[0..<K] = [0..<j] @ j # [Suc j..<K]"
    using assms(1) upt_add_eq_append [of 0 j "K - j"] upt_conv_Cons [of j K] by simp
  then show ?thesis using assms(2) by simp
qed

lemma filter_upt_append:
  "j \<le> K \<Longrightarrow> filter P [0..<K] = filter P [0..<j] @ filter P [j..<K]"
  using upt_add_eq_append [of 0 j "K - j"] by simp

lemma sel_bytes_Suc:
  "sel_bytes C o' n sel (Suc j) = sel_bytes C o' n sel j + (if sel j then piece_size C o' n j else 0)"
  by (simp add: sel_bytes_def)

lemma sel_bytes_mono: "i \<le> j \<Longrightarrow> sel_bytes C o' n sel i \<le> sel_bytes C o' n sel j"
  by (induction rule: dec_induct) (auto simp: sel_bytes_Suc)

lemma sel_bytes_step:
  assumes "i < j" and "sel i"
  shows "sel_bytes C o' n sel i + piece_size C o' n i \<le> sel_bytes C o' n sel j"
  using sel_bytes_mono [of "Suc i" j C o' n sel] assms by (simp add: sel_bytes_Suc)

lemma sel_bytes_le:
  assumes "o' < C" and "0 < n" and "j \<le> piece_count C o' n"
  shows "sel_bytes C o' n sel j \<le> n"
proof (cases j)
  case (Suc i)
  have "sel_bytes C o' n sel (Suc r) \<le> piece_start C o' r + piece_size C o' n r"
    if "r < piece_count C o' n" for r
    using that
  proof (induction r)
    case 0
    then show ?case by (simp add: sel_bytes_Suc sel_bytes_def)
  next
    case (Suc r)
    have "piece_start C o' r + piece_size C o' n r \<le> piece_start C o' (Suc r)"
      using Suc.prems assms by (intro piece_starts_mono) auto
    then show ?case using Suc by (simp add: sel_bytes_Suc)
  qed
  then show ?thesis using Suc assms piece_end_le [OF assms(1,2), of i] by (fastforce dest: Suc_le_lessD)
qed (simp add: sel_bytes_def)

lemma sel_bytes_last:
  assumes "j < K" and "sel j" and "filter sel [Suc j..<K] = []"
  shows "sel_bytes C o' n sel K = sel_bytes C o' n sel j + piece_size C o' n j"
  using filter_upt_split [of j K sel] assms by (simp add: sel_bytes_def)

section \<open>The numbers of a request\<close>

lemma valid_requestD:
  assumes "valid_request csz k o' n sel inp mine"
  shows "0 < n" and "o' < unat csz" and "unat csz < 2 ^ 32"
    and "(k + piece_count (unat csz) o' n) * unat csz < 2 ^ 64"
    and "in_chunk_start inp = of_nat k"
    and "in_chunk_end inp = of_nat (k + piece_count (unat csz) o' n - 1)"
    and "in_offset inp = of_nat o'"
    and "in_chunk_n inp = of_nat (length (filter sel [0..<piece_count (unat csz) o' n]))"
    and "in_total_chunk_size inp = of_nat (sel_bytes (unat csz) o' n sel (piece_count (unat csz) o' n))"
    and "r < piece_count (unat csz) o' n \<Longrightarrow> mine (of_nat (k + r)) = sel r"
  using assms unfolding valid_request_def Let_def by blast+

lemma valid_bounds:
  assumes "valid_request csz k o' n sel inp mine"
  shows "k + piece_count (unat csz) o' n < 2 ^ 64" and "o' + n < 2 ^ 64" and "n < 2 ^ 64"
    and "sel_bytes (unat csz) o' n sel (piece_count (unat csz) o' n) < 2 ^ 64"
    and "length (filter sel [0..<piece_count (unat csz) o' n]) < 2 ^ 64"
proof -
  let ?C = "unat csz" and ?K = "piece_count (unat csz) o' n"
  note d = valid_requestD [OF assms]
  have "(k + ?K) * 1 \<le> (k + ?K) * ?C" using d(2) by (intro mult_le_mono2) simp
  from le_less_trans [OF this d(4)] show K: "k + ?K < 2 ^ 64" by (simp only: mult_1_right)
  have "o' + n \<le> ?K * ?C"
    using piece_count_iff [OF d(2,1), of ?K] by simp
  also have "\<dots> \<le> (k + ?K) * ?C" by simp
  finally show on: "o' + n < 2 ^ 64" using d(4) by simp
  then show n: "n < 2 ^ 64" by simp
  show "sel_bytes ?C o' n sel ?K < 2 ^ 64"
    using sel_bytes_le [OF d(2,1) le_refl, of sel] n by simp
  have "length (filter sel [0..<?K]) \<le> ?K" using length_filter_le [of sel "[0..<?K]"] by simp
  then show "length (filter sel [0..<?K]) < 2 ^ 64" using K by simp
qed

lemma sint_of_nat_pos: "m < 2 ^ 32 \<Longrightarrow> (0 < sint (of_nat m :: u64)) = (0 < m)"
  by (simp add: signed_of_nat signed_take_bit_int_eq_self)

lemma plan_chunk_ok:
  fixes csz :: u64 and o' n :: nat and sel :: "nat \<Rightarrow> bool"
  defines "C \<equiv> unat csz"
  defines "K \<equiv> piece_count C o' n"
  defines "S \<equiv> sel_bytes C o' n sel"
  assumes v: "valid_request csz k o' n sel inp mine" and r: "r < K" "sel r"
    and curr: "chnk_id_curr st = of_nat (length (filter sel [0..<r]))"
    and left: "chnk_size_left_host st = of_nat (S K - S r)"
    and ts: "transfer_size st = of_nat (min n C)"
  shows "\<exists>ts'. plan_chunk csz inp (of_nat n) st (of_nat (k + r)) =
      (of_nat (piece_size C o' n r), of_nat (piece_start C o' r), of_nat (S r), ts') \<and>
      (filter sel [Suc r..<K] \<noteq> [] \<longrightarrow> ts' = of_nat (min n C))"
proof -
  note d = valid_requestD [OF v] and b = valid_bounds [OF v]
  have C: "csz = of_nat C" by (simp add: C_def)
  have oC: "o' < C" "C < 2 ^ 32" and n: "0 < n" using d(1-3) by (simp_all add: C_def)
  have pos: "(0 < sint (in_offset inp)) = (0 < o')"
    using sint_of_nat_pos [of o'] oC by (simp add: d(7))
  have start: "(of_nat (k + r) = in_chunk_start inp) = (r = 0)"
    using of_nat_u64_inject [of "k + r" k] b(1) r(1) by (simp add: d(5) K_def C_def)
  have rel: "of_nat (k + r) - in_chunk_start inp = of_nat r" by (simp add: d(5))
  show ?thesis
  proof (cases "r = 0 \<and> 0 < o'")
    case True
    have "(in_offset inp + of_nat n \<le> csz) = (o' + n \<le> C)"
      using of_nat_u64_le [of "o' + n" C] b(2) oC by (simp add: d(7) C)
    moreover have "csz - in_offset inp = of_nat (C - o')"
      using oC by (simp add: d(7) C of_nat_diff)
    ultimately show ?thesis
      using True pos start ts
      by (simp add: plan_chunk_def piece_size_first [OF oC(1)] piece_start_def S_def sel_bytes_def)
  next
    case False
    have Sr: "S r + piece_size C o' n r \<le> S K" using sel_bytes_step [of r K sel] r by (simp add: S_def)
    have loc: "in_total_chunk_size inp - chnk_size_left_host st = of_nat (S r)"
      using Sr by (simp add: left d(9) of_nat_diff S_def K_def C_def)
    have orig: "(if 0 < sint (in_offset inp)
        then (csz - in_offset inp) + ((of_nat (k + r) - in_chunk_start inp) - 1) * csz
        else (of_nat (k + r) - in_chunk_start inp) * csz) = of_nat (piece_start C o' r)"
    proof (cases "0 < o'")
      case True
      then have r0: "1 \<le> r" using False by simp
      have "(csz - in_offset inp) + (of_nat r - 1) * csz = of_nat (C - o' + (r - 1) * C)"
        using r0 oC by (simp add: d(7) C of_nat_diff)
      also have "C - o' + (r - 1) * C = r * C - o'"
        using r0 oC by (cases r) auto
      finally show ?thesis using True r0 pos rel by (simp add: piece_start_def)
    next
      case False
      then show ?thesis using pos rel by (simp add: piece_start_def C)
    qed
    have split: "filter sel [0..<K] = filter sel [0..<r] @ r # filter sel [Suc r..<K]"
      using r by (rule filter_upt_split)
    have len: "length (filter sel [0..<K]) = length (filter sel [0..<r]) + 1 + length (filter sel [Suc r..<K])"
      by (simp add: split)
    have lim: "length (filter sel [0..<K]) < 2 ^ 64" using b(5) by (simp add: K_def C_def)
    have "in_chunk_n inp - 1 = of_nat (length (filter sel [0..<r]) + length (filter sel [Suc r..<K]))"
      using len by (simp add: d(8) K_def C_def)
    then have last: "(chnk_id_curr st = in_chunk_n inp - 1) = (filter sel [Suc r..<K] = [])"
      using of_nat_u64_inject [of "length (filter sel [0..<r])"
          "length (filter sel [0..<r]) + length (filter sel [Suc r..<K])"] len lim
      by (simp add: curr)
    have guard: "\<not> (of_nat (k + r) = in_chunk_start inp \<and> 0 < sint (in_offset inp))"
      using False start pos by blast
    define ts' where "ts' = (if filter sel [Suc r..<K] = [] then chnk_size_left_host st else transfer_size st)"
    have plan: "plan_chunk csz inp (of_nat n) st (of_nat (k + r)) =
        (ts', of_nat (piece_start C o' r), of_nat (S r), ts')"
      unfolding plan_chunk_def if_not_P [OF guard] Let_def loc orig last ts'_def by (rule refl)
    have "ts' = of_nat (piece_size C o' n r)"
    proof (cases "filter sel [Suc r..<K] = []")
      case True
      then show ?thesis
        using sel_bytes_last [of r K sel C o' n] r by (simp add: S_def ts'_def left)
    next
      case more: False
      then have "[Suc r..<K] \<noteq> []" by (metis filter.simps(1))
      then have "Suc r < K" by simp
      then have "piece_size C o' n r = C" "min n C = C"
        using piece_size_inner [OF oC(1), of r n] piece_inner_min [OF oC(1), of r n] n False
        by (auto simp: K_def piece_off_def)
      then show ?thesis using more by (simp add: ts'_def ts)
    qed
    then show ?thesis using plan ts by (auto simp: ts'_def)
  qed
qed

section \<open>The loop invariant\<close>

definition sel_task :: "nat \<Rightarrow> nat \<Rightarrow> nat \<Rightarrow> nat \<Rightarrow> (nat \<Rightarrow> bool) \<Rightarrow> nat \<Rightarrow> chunk_task" where
  "sel_task C k o' n sel r =
     \<lparr>task_chunk = of_nat (k + r), task_pos = of_nat (sel_bytes C o' n sel r),
      task_size = of_nat (piece_size C o' n r), task_off = of_nat (piece_off o' r)\<rparr>"

text \<open>The state of a handler's loop when it has looked at the pieces below \<open>j\<close>.\<close>

definition at_piece :: "nat \<Rightarrow> nat \<Rightarrow> nat \<Rightarrow> nat \<Rightarrow> (nat \<Rightarrow> bool) \<Rightarrow> nat \<Rightarrow> srv_state \<Rightarrow> bool" where
  "at_piece C k o' n sel j st \<longleftrightarrow>
     (let K = piece_count C o' n; S = sel_bytes C o' n sel; done = filter sel [0..<j]
      in chnk_id_curr st = of_nat (length done) \<and>
         chnk_size_left_host st = of_nat (S K - S j) \<and>
         chnk_ptr st = of_nat (S j) \<and>
         (filter sel [j..<K] \<noteq> [] \<longrightarrow> transfer_size st = of_nat (min n C)) \<and>
         srv_tasks st = map (sel_task C k o' n sel) done \<and>
         origin_offsets st = map (\<lambda>r. of_nat (piece_start C o' r)) done \<and>
         local_offsets st = map (\<lambda>r. of_nat (S r)) done)"

lemma at_piece_init:
  assumes v: "valid_request csz k o' n sel inp mine"
  shows "at_piece (unat csz) k o' n sel 0 (srv_init csz inp (of_nat n))"
proof -
  note d = valid_requestD [OF v] and b = valid_bounds [OF v]
  have "(of_nat n \<le> csz) = (n \<le> unat csz)"
    using of_nat_u64_le [of n "unat csz"] b(3) d(3) by simp
  then show ?thesis
    by (simp add: at_piece_def srv_init_def Let_def d(9) sel_bytes_def min_def)
qed

lemma at_piece_skip:
  assumes "at_piece C k o' n sel j st" and "\<not> sel j" and "j < piece_count C o' n"
  shows "at_piece C k o' n sel (Suc j) st"
  using assms upt_conv_Cons [of j "piece_count C o' n"]
  by (simp add: at_piece_def Let_def sel_bytes_Suc)

lemma at_piece_done:
  assumes "at_piece C k o' n sel j st" and "j \<le> piece_count C o' n"
    and "filter sel [j..<piece_count C o' n] = []"
  shows "at_piece C k o' n sel (piece_count C o' n) st"
proof -
  have eq: "filter sel [0..<piece_count C o' n] = filter sel [0..<j]"
    using filter_upt_append [OF assms(2), of sel] assms(3) by simp
  then have "sel_bytes C o' n sel (piece_count C o' n) = sel_bytes C o' n sel j"
    by (simp add: sel_bytes_def)
  then show ?thesis using assms(1) by (simp add: at_piece_def Let_def eq)
qed

lemma at_piece_more:
  assumes v: "valid_request csz k o' n sel inp mine" and "at_piece (unat csz) k o' n sel j st"
    and "j \<le> piece_count (unat csz) o' n"
  shows "(chnk_id_curr st < in_chunk_n inp) = (filter sel [j..<piece_count (unat csz) o' n] \<noteq> [])"
proof -
  let ?K = "piece_count (unat csz) o' n"
  have len: "length (filter sel [0..<?K]) = length (filter sel [0..<j]) + length (filter sel [j..<?K])"
    using filter_upt_append [OF assms(3), of sel] by simp
  have "chnk_id_curr st = of_nat (length (filter sel [0..<j]))"
    using assms(2) by (simp add: at_piece_def Let_def)
  then show ?thesis
    using of_nat_u64_less [of "length (filter sel [0..<j])" "length (filter sel [0..<?K])"]
      valid_bounds(5) [OF v] valid_requestD(8) [OF v] len
    by simp
qed

lemma at_piece_step:
  assumes v: "valid_request csz k o' n sel inp mine" and at: "at_piece (unat csz) k o' n sel j st"
    and j: "j < piece_count (unat csz) o' n" "sel j"
  shows "\<exists>ts'. plan_chunk csz inp (of_nat n) st (of_nat (k + j)) =
       (of_nat (piece_size (unat csz) o' n j), of_nat (piece_start (unat csz) o' j),
        of_nat (sel_bytes (unat csz) o' n sel j), ts') \<and>
     (\<forall>buf. at_piece (unat csz) k o' n sel (Suc j)
        (advance inp (of_nat (k + j)) (plan_chunk csz inp (of_nat n) st (of_nat (k + j))) buf st))"
proof -
  let ?C = "unat csz"
  let ?K = "piece_count ?C o' n" and ?S = "sel_bytes ?C o' n sel"
  note d = valid_requestD [OF v] and b = valid_bounds [OF v]
  have ne: "filter sel [j..<?K] \<noteq> []" using j upt_conv_Cons [of j ?K] by simp
  have st: "chnk_id_curr st = of_nat (length (filter sel [0..<j]))"
    "chnk_size_left_host st = of_nat (?S ?K - ?S j)" "transfer_size st = of_nat (min n ?C)"
    "chnk_ptr st = of_nat (?S j)"
    using at ne by (simp_all add: at_piece_def Let_def)
  obtain ts' where plan: "plan_chunk csz inp (of_nat n) st (of_nat (k + j)) =
      (of_nat (piece_size ?C o' n j), of_nat (piece_start ?C o' j), of_nat (?S j), ts')"
    and ts': "filter sel [Suc j..<?K] \<noteq> [] \<Longrightarrow> ts' = of_nat (min n ?C)"
    using plan_chunk_ok [OF v j st(1-3)] by blast
  have S: "?S (Suc j) = ?S j + piece_size ?C o' n j" using j by (simp add: sel_bytes_Suc)
  have le: "?S j + piece_size ?C o' n j \<le> ?S ?K" using j by (rule sel_bytes_step)
  have start: "(of_nat (k + j) = in_chunk_start inp) = (j = 0)"
    using of_nat_u64_inject [of "k + j" k] b(1) j(1) by (simp add: d(5))
  have off: "chunk_off inp (of_nat (k + j)) = of_nat (piece_off o' j)"
    unfolding chunk_off_def start by (simp add: piece_off_def d(7))
  have left: "chnk_size_left_host st - of_nat (piece_size ?C o' n j) = of_nat (?S ?K - ?S (Suc j))"
    using le by (simp add: st(2) S of_nat_diff)
  have "at_piece ?C k o' n sel (Suc j)
      (advance inp (of_nat (k + j)) (plan_chunk csz inp (of_nat n) st (of_nat (k + j))) buf st)" for buf
    unfolding plan using at left ts' j(2)
    by (simp add: at_piece_def advance_def Let_def off [unfolded of_nat_add] S sel_task_def)
  then show ?thesis using plan by blast
qed

section \<open>The loops\<close>

lemma length_map_upt_induct [consumes 1, case_names finished skip step]:
  assumes "j \<le> (K :: nat)"
    and "\<And>j. j \<le> K \<Longrightarrow> filter sel [j..<K] = [] \<Longrightarrow> P j"
    and "\<And>j. j < K \<Longrightarrow> \<not> sel j \<Longrightarrow> filter sel [j..<K] \<noteq> [] \<Longrightarrow> P (Suc j) \<Longrightarrow> P j"
    and "\<And>j. j < K \<Longrightarrow> sel j \<Longrightarrow> P (Suc j) \<Longrightarrow> P j"
  shows "P j"
  using assms(1)
proof (induction j rule: inc_induct)
  case base
  then show ?case by (rule assms(2)) auto
next
  case (step j)
  then show ?case using assms(2) [of j] assms(3,4) by (cases "filter sel [j..<K] = []"; cases "sel j") auto
qed

lemma srv_read_loop_ok:
  assumes v: "valid_request csz k o' n sel inp mine" and c: "\<And>i. create_ok abt i"
    and j: "j \<le> piece_count (unat csz) o' n" and "at_piece (unat csz) k o' n sel j st"
  shows "\<exists>st'. srv_read_loop csz abt inp mine (of_nat n)
      (map (\<lambda>r. of_nat (k + r)) [j..<piece_count (unat csz) o' n]) st = Inr st' \<and>
    at_piece (unat csz) k o' n sel (piece_count (unat csz) o' n) st' \<and> bulk_buf st' = bulk_buf st"
  using j assms(4)
proof (induction j arbitrary: st rule: length_map_upt_induct [where sel = sel])
  case (finished j)
  have "at_piece (unat csz) k o' n sel (piece_count (unat csz) o' n) st"
    using finished by (intro at_piece_done) auto
  then show ?case
    using at_piece_more [OF v finished(3,1)] finished(2) by (cases "[j..<piece_count (unat csz) o' n]") auto
next
  case (skip j)
  have up: "[j..<piece_count (unat csz) o' n] = j # [Suc j..<piece_count (unat csz) o' n]"
    using skip(1) by (rule upt_conv_Cons)
  show ?case
    using skip.IH [OF at_piece_skip [OF skip.prems skip(2,1)]] at_piece_more [OF v skip.prems]
      skip(1-3) valid_requestD(10) [OF v skip(1)]
    by (simp add: up)
next
  case (step j)
  have up: "[j..<piece_count (unat csz) o' n] = j # [Suc j..<piece_count (unat csz) o' n]"
    using step(1) by (rule upt_conv_Cons)
  have more: "chnk_id_curr st < in_chunk_n inp"
    using at_piece_more [OF v step.prems] step(1,2) by (simp add: up)
  have mine: "mine (of_nat (k + j))" using valid_requestD(10) [OF v step(1)] step(2) by simp
  obtain ts' where next_at: "\<And>buf. at_piece (unat csz) k o' n sel (Suc j)
      (advance inp (of_nat (k + j)) (plan_chunk csz inp (of_nat n) st (of_nat (k + j))) buf st)"
    using at_piece_step [OF v step.prems step(1,2)] by blast
  have "bulk_buf (advance inp i p buf st) = buf" for i p buf
    by (simp add: advance_def split: prod.splits)
  then show ?case
    using step.IH [OF next_at [of "bulk_buf st"]] more mine c
    unfolding up list.map srv_read_loop.simps by simp
qed

lemma srv_write_loop_ok:
  fixes csz :: u64 and o' n :: nat and sel :: "nat \<Rightarrow> bool"
  defines "C \<equiv> unat csz"
  defines "K \<equiv> piece_count C o' n"
  defines "S \<equiv> sel_bytes C o' n sel"
  assumes v: "valid_request csz k o' n sel inp mine" and bt: "bulk_copies bt"
    and c: "\<And>i. create_ok abt i" and n: "length cbuf = n"
    and j: "j \<le> K" and at: "at_piece C k o' n sel j st" and len: "length (bulk_buf st) = S K"
  shows "\<exists>st'. srv_write_loop csz bt abt inp mine cbuf (map (\<lambda>r. of_nat (k + r)) [j..<K]) st = Inr st' \<and>
    at_piece C k o' n sel K st' \<and>
    bulk_buf st' = blits (map (\<lambda>r. (S r, piece C o' n cbuf r)) (filter sel [j..<K])) (bulk_buf st)"
  using j at len
proof (induction j arbitrary: st rule: length_map_upt_induct [where sel = sel])
  case (finished j)
  have "at_piece C k o' n sel K st"
    using finished unfolding K_def by (intro at_piece_done) auto
  then show ?case
    using at_piece_more [OF v finished(3) [unfolded C_def]] finished(1,2)
    by (cases "[j..<K]") (auto simp: K_def C_def)
next
  case (skip j)
  have up: "[j..<K] = j # [Suc j..<K]" using skip(1) by (rule upt_conv_Cons)
  have "at_piece C k o' n sel (Suc j) st"
    using skip.prems(1) skip(1,2) unfolding K_def by (intro at_piece_skip)
  moreover have "chnk_id_curr st < in_chunk_n inp"
    using at_piece_more [OF v skip.prems(1) [unfolded C_def]] skip(1,3) by (simp add: K_def C_def)
  ultimately show ?case
    using skip.IH [of st] skip.prems(2) skip(2) valid_requestD(10) [OF v skip(1) [unfolded K_def C_def]]
    unfolding up by simp
next
  case (step j)
  note d = valid_requestD [OF v] and b = valid_bounds [OF v]
  have up: "[j..<K] = j # [Suc j..<K]" using step(1) by (rule upt_conv_Cons)
  have more: "chnk_id_curr st < in_chunk_n inp"
    using at_piece_more [OF v step.prems(1) [unfolded C_def], folded C_def, folded K_def] step(1,2)
    by (simp add: up)
  have mine: "mine (of_nat (k + j))"
    using valid_requestD(10) [OF v step(1) [unfolded K_def C_def]] step(2) by simp
  obtain ts' where plan: "plan_chunk csz inp (of_nat n) st (of_nat (k + j)) =
       (of_nat (piece_size C o' n j), of_nat (piece_start C o' j), of_nat (S j), ts')"
    and next_at: "\<And>buf. at_piece C k o' n sel (Suc j)
      (advance inp (of_nat (k + j)) (plan_chunk csz inp (of_nat n) st (of_nat (k + j))) buf st)"
    using at_piece_step [OF v step.prems(1) [unfolded C_def] step(1) [unfolded K_def C_def] step(2)]
    by (auto simp: C_def S_def)
  have le: "S j + piece_size C o' n j \<le> S K" using step(1,2) unfolding S_def by (rule sel_bytes_step)
  have pe: "piece_start C o' j + piece_size C o' n j \<le> n"
    using step(1) d(1,2) by (intro piece_end_le) (simp_all add: K_def C_def)
  have lim: "S K < 2 ^ 64" "n < 2 ^ 64" using b(3,4) by (simp_all add: S_def K_def C_def)
  have u: "unat (of_nat (S j) :: u64) = S j" "unat (of_nat (piece_size C o' n j) :: u64) = piece_size C o' n j"
    "unat (of_nat (piece_start C o' j) :: u64) = piece_start C o' j"
    using le pe lim by (auto intro!: unat_of_nat_small)
  have pull: "bt (bulk_buf st) (of_nat (S j)) cbuf (of_nat (piece_start C o' j)) (of_nat (piece_size C o' n j)) =
      Some (blit (bulk_buf st) (S j) (piece C o' n cbuf j))"
    using bt le pe n step.prems(2) unfolding bulk_copies_def by (simp add: u piece_def)
  let ?buf = "blit (bulk_buf st) (S j) (piece C o' n cbuf j)"
  have bb: "bulk_buf (advance inp i p buf st) = buf" for i p buf
    by (simp add: advance_def split: prod.splits)
  have "length (piece C o' n cbuf j) = piece_size C o' n j"
    using step(1) d(1,2) n by (intro length_piece) (simp_all add: K_def C_def)
  then have "length ?buf = S K" using le step.prems(2) by simp
  from step.IH [OF next_at [of ?buf]] this show ?case
    using more mine c plan pull step(2)
    unfolding up list.map srv_write_loop.simps n by (simp add: bb Let_def)
qed

section \<open>The handlers\<close>

text \<open>
  A daemon without faults: every Margo and Argobots call succeeds, the system calls of the tasks at
  most stutter, and the pool runs every task once, in any order.
\<close>

definition healthy :: "srv_env \<Rightarrow> bool" where
  "healthy env \<longleftrightarrow> get_input_ok env \<and> bulk_create_ok env \<and> bulk_access_ok env \<and>
     (\<forall>i. create_ok (srv_abt env) i \<and> wait_ok (srv_abt env) i \<and> benign_env (task_io (srv_abt env) i)) \<and>
     (\<forall>n. distinct (task_order (srv_abt env) n) \<and> set (task_order (srv_abt env) n) = {..<n})"

lemma chunk_range_upt:
  assumes "0 < K" and "k + K < 2 ^ 64"
  shows "chunk_range (of_nat k) (of_nat (k + K - 1)) = map (\<lambda>r. of_nat (k + r)) [0..<K]"
proof -
  have "unat (of_nat k :: u64) = k" "unat (of_nat (k + K - 1) :: u64) = k + K - 1"
    using assms(2) by (simp_all only: unat_of_nat_small less_imp_diff_less add_lessD1)
  then have "chunk_range (of_nat k) (of_nat (k + K - 1)) = map of_nat [k..<k + K]"
    using assms(1) by (simp add: chunk_range_def)
  also have "[k..<k + K] = map (\<lambda>r. k + r) [0..<K]"
    using map_add_upt [of k K] by (simp add: add.commute)
  finally show ?thesis by (simp add: comp_def)
qed

lemma chunk_range_pieces:
  assumes v: "valid_request csz k o' n sel inp mine"
  shows "chunk_range (in_chunk_start inp) (in_chunk_end inp) =
    map (\<lambda>r. of_nat (k + r)) [0..<piece_count (unat csz) o' n]"
  unfolding valid_requestD(5,6) [OF v]
  using valid_bounds(1) [OF v] by (intro chunk_range_upt) (simp_all add: piece_count_def)

lemma sel_tasks_facts:
  fixes csz :: u64 and o' n :: nat and sel :: "nat \<Rightarrow> bool"
  defines "C \<equiv> unat csz"
  defines "K \<equiv> piece_count C o' n"
  defines "S \<equiv> sel_bytes C o' n sel"
  assumes v: "valid_request csz k o' n sel inp mine" and r: "r < K" "sel r"
  shows "unat (task_chunk (sel_task C k o' n sel r)) = k + r"
    and "unat (task_pos (sel_task C k o' n sel r)) = S r"
    and "unat (task_size (sel_task C k o' n sel r)) = piece_size C o' n r"
    and "unat (task_off (sel_task C k o' n sel r)) = piece_off o' r"
    and "S r + piece_size C o' n r \<le> S K"
    and "piece_start C o' r + piece_size C o' n r \<le> n"
    and "unat (of_nat (piece_start C o' r) :: u64) = piece_start C o' r"
proof -
  note d = valid_requestD [OF v] and b = valid_bounds [OF v]
  show le: "S r + piece_size C o' n r \<le> S K" using r unfolding S_def by (rule sel_bytes_step)
  show pe: "piece_start C o' r + piece_size C o' n r \<le> n"
    using r(1) d(1,2) by (intro piece_end_le) (simp_all add: K_def C_def)
  have lim: "S K < 2 ^ 64" "n < 2 ^ 64" "k + r < 2 ^ 64" "piece_off o' r < 2 ^ 64"
    using b(1,3,4) r(1) d(2,3) by (simp_all add: S_def K_def C_def piece_off_def)
  show "unat (task_chunk (sel_task C k o' n sel r)) = k + r"
    unfolding sel_task_def chunk_task.simps using lim(3) by (rule unat_of_nat_small)
  show "unat (task_pos (sel_task C k o' n sel r)) = S r"
    "unat (task_size (sel_task C k o' n sel r)) = piece_size C o' n r"
    "unat (task_off (sel_task C k o' n sel r)) = piece_off o' r"
    "unat (of_nat (piece_start C o' r) :: u64) = piece_start C o' r"
    using le pe lim unfolding sel_task_def chunk_task.simps S_def [symmetric]
    by (auto intro!: unat_of_nat_small)
qed

lemma write_blits_ok:
  fixes csz :: u64 and o' n :: nat and sel :: "nat \<Rightarrow> bool"
  defines "C \<equiv> unat csz"
  defines "K \<equiv> piece_count C o' n"
  defines "S \<equiv> sel_bytes C o' n sel"
  assumes v: "valid_request csz k o' n sel inp mine" and n: "length cbuf = n"
  shows "blits_fit (map (\<lambda>r. (S r, piece C o' n cbuf r)) (filter sel [0..<K])) (S K)"
    and "sorted_wrt apart (map (\<lambda>r. (S r, piece C o' n cbuf r)) (filter sel [0..<K]))"
proof -
  note d = valid_requestD [OF v]
  have len: "length (piece C o' n cbuf r) = piece_size C o' n r" if "r < K" for r
    using that d(1,2) n by (intro length_piece) (simp_all add: K_def C_def)
  show "blits_fit (map (\<lambda>r. (S r, piece C o' n cbuf r)) (filter sel [0..<K])) (S K)"
    using sel_tasks_facts(5) [OF v, folded C_def, folded K_def, folded S_def]
    by (auto simp: blits_fit_def list_all_iff len)
  have "sorted_wrt (<) (filter sel [0..<K])" by (simp add: sorted_wrt_filter strict_sorted_iff)
  then show "sorted_wrt apart (map (\<lambda>r. (S r, piece C o' n cbuf r)) (filter sel [0..<K]))"
    unfolding sorted_wrt_map
    by (rule sorted_wrt_mono_rel [rotated]) (auto simp: apart_def len S_def intro: sel_bytes_step)
qed

text \<open>What the loop hands to the tasks: one task per selected piece, with the bytes of that piece.\<close>

lemma srv_write_tasks:
  fixes csz :: u64 and o' n :: nat and sel :: "nat \<Rightarrow> bool"
  defines "C \<equiv> unat csz"
  defines "K \<equiv> piece_count C o' n"
  defines "S \<equiv> sel_bytes C o' n sel"
  assumes v: "valid_request csz k o' n sel inp mine" and bt: "bulk_copies bt"
    and env: "healthy env" and n: "length cbuf = n"
  obtains st where "srv_write_loop csz bt (srv_abt env) inp mine cbuf
      (chunk_range (in_chunk_start inp) (in_chunk_end inp)) (srv_init csz inp (of_nat (length cbuf))) = Inr st"
    and "srv_tasks st = map (sel_task C k o' n sel) (filter sel [0..<K])"
    and "list_all (task_fits (bulk_buf st)) (srv_tasks st)"
    and "map (task_write (bulk_buf st)) (srv_tasks st) =
      map (\<lambda>r. (of_nat (k + r), piece_off o' r, piece C o' n cbuf r)) (filter sel [0..<K])"
proof -
  note d = valid_requestD [OF v] and b = valid_bounds [OF v]
  note fit = write_blits_ok [OF v n, folded C_def, folded K_def, folded S_def]
  note facts = sel_tasks_facts [OF v, folded C_def, folded K_def, folded S_def]
  let ?rs = "filter sel [0..<K]" and ?st0 = "srv_init csz inp (of_nat n)"
  have len0: "length (bulk_buf ?st0) = S K"
    using b(4) by (simp add: srv_init_def d(9) unat_of_nat_small S_def K_def C_def)
  obtain st where loop: "srv_write_loop csz bt (srv_abt env) inp mine cbuf
      (chunk_range (in_chunk_start inp) (in_chunk_end inp)) (srv_init csz inp (of_nat (length cbuf))) = Inr st"
    and at: "at_piece C k o' n sel K st"
    and buf: "bulk_buf st = blits (map (\<lambda>r. (S r, piece C o' n cbuf r)) ?rs) (bulk_buf ?st0)"
    using srv_write_loop_ok [OF v bt _ n _ at_piece_init [OF v], of "srv_abt env"] env len0
      chunk_range_pieces [OF v] n
    unfolding healthy_def C_def K_def S_def by auto
  have tasks: "srv_tasks st = map (sel_task C k o' n sel) ?rs"
    using at by (simp add: at_piece_def Let_def)
  have blen: "length (bulk_buf st) = S K"
    unfolding buf by (subst length_blits) (use fit len0 in simp_all)
  have plen: "length (piece C o' n cbuf r) = piece_size C o' n r" if "r < K" for r
    using that d(1,2) n by (intro length_piece) (simp_all add: K_def C_def)
  have tw: "task_write (bulk_buf st) (sel_task C k o' n sel r) =
      (of_nat (k + r), piece_off o' r, piece C o' n cbuf r)" if "r < K" "sel r" for r
  proof -
    have "take (length (piece C o' n cbuf r)) (drop (S r) (bulk_buf st)) = piece C o' n cbuf r"
      unfolding buf using fit len0 that by (intro slice_blits) auto
    then show ?thesis
      using facts(2-4) [OF that] plen [OF that(1)] by (simp add: task_write_def sel_task_def)
  qed
  have "list_all (task_fits (bulk_buf st)) (srv_tasks st)"
    using facts(2,3,5) by (auto simp: tasks list_all_iff task_fits_def blen)
  moreover have "map (task_write (bulk_buf st)) (srv_tasks st) =
      map (\<lambda>r. (of_nat (k + r), piece_off o' r, piece C o' n cbuf r)) ?rs"
    unfolding tasks map_map comp_def using tw by (intro map_cong) auto
  ultimately show thesis using that loop tasks by blast
qed

lemma sel_tasks_distinct:
  assumes v: "valid_request csz k o' n sel inp mine"
  shows "distinct (map task_chunk
    (map (sel_task (unat csz) k o' n sel) (filter sel [0..<piece_count (unat csz) o' n])))"
  unfolding map_map comp_def distinct_map
proof (intro conjI inj_onI)
  fix r s
  assume r: "r \<in> set (filter sel [0..<piece_count (unat csz) o' n])"
    and s: "s \<in> set (filter sel [0..<piece_count (unat csz) o' n])"
    and eq: "task_chunk (sel_task (unat csz) k o' n sel r) = task_chunk (sel_task (unat csz) k o' n sel s)"
  have "k + r = k + s"
    using r s arg_cong [OF eq, of unat] by (simp only: sel_tasks_facts(1) [OF v] set_filter set_upt
        mem_Collect_eq atLeastLessThan_iff)
  then show "r = s" by simp
qed simp

lemma sum_task_sizes:
  assumes v: "valid_request csz k o' n sel inp mine"
  shows "(\<Sum>t\<leftarrow>map (sel_task (unat csz) k o' n sel) (filter sel [0..<piece_count (unat csz) o' n]).
      unat (task_size t)) = sel_bytes (unat csz) o' n sel (piece_count (unat csz) o' n)"
  unfolding map_map comp_def sel_bytes_def using sel_tasks_facts(3) [OF v]
  by (intro arg_cong [where f = sum_list] map_cong) auto

lemma wait_all_ok:
  assumes "\<And>i. wait_ok abt i"
    and "\<And>i. i < length tasks \<Longrightarrow> res i = Some (int (unat (task_size (tasks ! i))))"
  shows "wait_for_tasks abt res (length tasks) = (0, of_nat (\<Sum>t\<leftarrow>tasks. unat (task_size t)))"
proof -
  have eq: "map (eventual_value abt res) [0..<length tasks] = map (\<lambda>t. Some (int (unat (task_size t)))) tasks"
    using assms by (intro nth_equalityI) (auto simp: eventual_value_def)
  show ?thesis unfolding wait_for_tasks_def eq write_wait_loop_ok by simp
qed

text \<open>
  The write handler: it reports success and the number of bytes of its pieces; each selected chunk
  gets its piece at its offset; nothing else on this daemon changes.
\<close>

lemma srv_write_eq:
  fixes csz :: u64 and k o' n :: nat and sel :: "nat \<Rightarrow> bool"
  defines "C \<equiv> unat csz"
  defines "K \<equiv> piece_count C o' n"
  defines "ws \<equiv> \<lambda>cbuf. map (\<lambda>r. (of_nat (k + r) :: u64, piece_off o' r, piece C o' n cbuf r)) (filter sel [0..<K])"
  assumes v: "valid_request csz k o' n sel inp mine" and bt: "bulk_copies bt"
    and env: "healthy env" and n: "length cbuf = n"
  shows "fst (srv_write csz cs env bt mine fs inp cbuf) =
      \<lparr>out_err = 0, out_io_size = of_nat (sel_bytes C o' n sel K)\<rparr>"
    and "chunk_bytes cs (snd (srv_write csz cs env bt mine fs inp cbuf)) (in_path inp) c =
      (case map_of (ws cbuf) c of
         None \<Rightarrow> chunk_bytes cs fs (in_path inp) c
       | Some (off, dt) \<Rightarrow> pwrite_bytes (chunk_bytes cs fs (in_path inp) c) off dt)"
    and "get_chunks_dir q \<noteq> get_chunks_dir (in_path inp) \<Longrightarrow>
      chunk_content cs (snd (srv_write csz cs env bt mine fs inp cbuf)) q i = chunk_content cs fs q i"
    and "distinct (map fst (ws cbuf))"
proof -
  obtain st where loop: "srv_write_loop csz bt (srv_abt env) inp mine cbuf
      (chunk_range (in_chunk_start inp) (in_chunk_end inp)) (srv_init csz inp (of_nat (length cbuf))) = Inr st"
    and tasks: "srv_tasks st = map (sel_task C k o' n sel) (filter sel [0..<K])"
    and fits: "list_all (task_fits (bulk_buf st)) (srv_tasks st)"
    and ws: "map (task_write (bulk_buf st)) (srv_tasks st) = ws cbuf"
    unfolding C_def K_def ws_def by (rule srv_write_tasks [OF v bt env n])
  have dist: "distinct (map task_chunk (srv_tasks st))"
    unfolding tasks C_def K_def by (rule sel_tasks_distinct [OF v])
  show "distinct (map fst (ws cbuf))"
    using dist unfolding ws [symmetric] by (simp add: task_write_def comp_def)
  let ?abt = "srv_abt env"
  let ?order = "task_order ?abt (length (srv_tasks st))"
  have order: "distinct ?order" "set ?order = {..<length (srv_tasks st)}"
    using env unfolding healthy_def by blast+
  have benign: "\<And>i. benign_env (task_io ?abt i)" using env by (simp add: healthy_def)
  let ?run = "run_write_tasks cs (task_io ?abt) (in_path inp) (bulk_buf st) (srv_tasks st) ?order fs Map.empty"
  have N: "unat (in_chunk_n inp) = length (srv_tasks st)"
    using valid_bounds(5) [OF v]
    by (simp add: valid_requestD(8) [OF v] tasks unat_of_nat_small K_def C_def)
  have "fst ?run i = Some (int (unat (task_size (srv_tasks st ! i))))" if "i < length (srv_tasks st)" for i
    using that order by (subst run_write_tasks_ok [OF benign fits]) auto
  then have wait: "wait_for_tasks ?abt (fst ?run) (unat (in_chunk_n inp)) = (0, of_nat (sel_bytes C o' n sel K))"
    using env sum_task_sizes [OF v] unfolding N
    by (subst wait_all_ok) (simp_all add: healthy_def tasks C_def K_def)
  have srv: "srv_write csz cs env bt mine fs inp cbuf =
      (\<lparr>out_err = 0, out_io_size = of_nat (sel_bytes C o' n sel K)\<rparr>, snd ?run)"
    using env loop wait by (simp add: srv_write_def Let_def healthy_def case_prod_beta)
  show "fst (srv_write csz cs env bt mine fs inp cbuf) =
      \<lparr>out_err = 0, out_io_size = of_nat (sel_bytes C o' n sel K)\<rparr>"
    by (simp add: srv)
  show "chunk_bytes cs (snd (srv_write csz cs env bt mine fs inp cbuf)) (in_path inp) c =
      (case map_of (ws cbuf) c of
         None \<Rightarrow> chunk_bytes cs fs (in_path inp) c
       | Some (off, dt) \<Rightarrow> pwrite_bytes (chunk_bytes cs fs (in_path inp) c) off dt)"
    unfolding srv snd_conv ws [symmetric] by (rule run_write_tasks_content [OF benign fits order dist])
  show "get_chunks_dir q \<noteq> get_chunks_dir (in_path inp) \<Longrightarrow>
      chunk_content cs (snd (srv_write csz cs env bt mine fs inp cbuf)) q i = chunk_content cs fs q i"
    unfolding srv snd_conv by (rule run_write_tasks_frame [OF benign fits order(2)])
qed

end
