(* ===== verification/Srv_Read_Proofs.thy ===== *)
theory Srv_Read_Proofs
  imports Srv_Data_Proofs
begin

section \<open>The read handler\<close>

text \<open>What the daemon has of piece \<open>r\<close>: the existing bytes of that part of the chunk.\<close>

definition read_piece ::
    "nat \<Rightarrow> nat \<Rightarrow> nat \<Rightarrow> nat \<Rightarrow> chunk_storage \<Rightarrow> local_fs \<Rightarrow> string \<Rightarrow> nat \<Rightarrow> bytes" where
  "read_piece C k o' n cs fs p r =
     pread_bytes (chunk_bytes cs fs p (of_nat (k + r))) (piece_off o' r) (piece_size C o' n r)"

lemma length_read_piece: "length (read_piece C k o' n cs fs p r) \<le> piece_size C o' n r"
  by (simp add: read_piece_def)

lemma task_result_cases:
  "\<exists>z. (z = 0 \<or> z = - ENOENT) \<and>
     task_result cs fs p t = (if task_data cs fs p t = [] then z else int (length (task_data cs fs p t)))"
proof (cases "chunk_content cs fs p (task_chunk t)")
  case None
  then have "task_data cs fs p t = []" by (simp add: task_data_def chunk_bytes_def pread_bytes_def)
  then show ?thesis using None by (auto simp: task_result_def)
next
  case (Some c)
  then show ?thesis by (auto simp: task_result_def)
qed

lemma sorted_wrt_order:
  assumes "distinct order" and "\<And>i j. i \<in> set order \<Longrightarrow> j \<in> set order \<Longrightarrow> i \<noteq> j \<Longrightarrow> R (f i) (f j)"
  shows "sorted_wrt R (map f order)"
  using assms by (induction order) auto

lemma sel_bytes_apart:
  assumes "sel r" and "sel s" and "r \<noteq> s" and "length x \<le> piece_size C o' n r"
    and "length y \<le> piece_size C o' n s"
  shows "apart (sel_bytes C o' n sel r, x) (sel_bytes C o' n sel s, y)"
  using sel_bytes_step [of r s sel C o' n] sel_bytes_step [of s r sel C o' n] assms
  by (cases "r < s") (auto simp: apart_def)

text \<open>The tasks of the pool, in any order, fill the daemon's buffer with the pieces.\<close>

lemma run_read_slices:
  fixes csz :: u64 and k o' n :: nat and sel :: "nat \<Rightarrow> bool"
  defines "C \<equiv> unat csz"
  defines "rs \<equiv> filter sel [0..<piece_count C o' n]"
  defines "tasks \<equiv> map (sel_task C k o' n sel) rs"
  assumes v: "valid_request csz k o' n sel inp mine" and io: "\<And>i. benign_env (io i)"
    and order: "distinct order" "set order = {..<length tasks}"
    and buf: "length buf = sel_bytes C o' n sel (piece_count C o' n)"
    and run: "run_read_tasks cs io fs p tasks order buf Map.empty = (res, lbuf)" and i: "i < length rs"
  shows "res i = Some (task_result cs fs p (tasks ! i))"
    and "take (length (read_piece C k o' n cs fs p (rs ! i))) (drop (sel_bytes C o' n sel (rs ! i)) lbuf) =
      read_piece C k o' n cs fs p (rs ! i)"
    and "length lbuf = length buf"
    and "task_data cs fs p (tasks ! i) = read_piece C k o' n cs fs p (rs ! i)"
proof -
  note facts = sel_tasks_facts [OF v, folded C_def]
  let ?f = "\<lambda>i. (unat (task_pos (tasks ! i)), task_data cs fs p (tasks ! i))"
  have rs: "rs ! j < piece_count C o' n" "sel (rs ! j)" if "j < length rs" for j
    using nth_mem [OF that] by (auto simp: rs_def)
  have dat: "task_data cs fs p (tasks ! j) = read_piece C k o' n cs fs p (rs ! j)" if "j < length rs" for j
    using facts(3,4) [OF rs [OF that]] that
    by (simp add: task_data_def tasks_def read_piece_def) (simp add: sel_task_def)
  have f: "?f j = (sel_bytes C o' n sel (rs ! j), read_piece C k o' n cs fs p (rs ! j))"
    if "j < length rs" for j
    using facts(2) [OF rs [OF that]] that dat by (simp add: tasks_def)
  have lt: "j < length rs" if "j \<in> set order" for j using that order(2) by (simp add: tasks_def)
  have res: "run_read_tasks cs io fs p tasks order buf Map.empty =
      (\<lambda>i. if i \<in> set order then Some (task_result cs fs p (tasks ! i)) else None, blits (map ?f order) buf)"
    using order(2) by (subst run_read_tasks_ok [OF io]) auto
  then have lbuf: "lbuf = blits (map ?f order) buf" using run by simp
  show "res i = Some (task_result cs fs p (tasks ! i))"
  proof -
    have "i \<in> set order" using i order(2) by (simp add: tasks_def)
    moreover have "res = (\<lambda>i. if i \<in> set order then Some (task_result cs fs p (tasks ! i)) else None)"
      using run unfolding res by simp
    ultimately show ?thesis by simp
  qed
  have le: "sel_bytes C o' n sel (rs ! j) + length (read_piece C k o' n cs fs p (rs ! j)) \<le> length buf"
    if "j < length rs" for j
    using facts(5) [OF rs [OF that]] length_read_piece [of C k o' n cs fs p "rs ! j"] buf by linarith
  have fit: "blits_fit (map ?f order) (length buf)"
    using le f lt by (auto simp: blits_fit_def list_all_iff)
  have ap: "sorted_wrt apart (map ?f order)"
  proof (rule sorted_wrt_order [OF order(1)])
    fix x y assume xy: "x \<in> set order" "y \<in> set order" "x \<noteq> y"
    then have "rs ! x \<noteq> rs ! y"
      using lt nth_eq_iff_index_eq [of rs x y] by (simp add: rs_def)
    then show "apart (?f x) (?f y)"
      unfolding f [OF lt [OF xy(1)]] f [OF lt [OF xy(2)]]
      using rs(2) [OF lt [OF xy(1)]] rs(2) [OF lt [OF xy(2)]]
      by (intro sel_bytes_apart length_read_piece)
  qed
  have "?f i \<in> set (map ?f order)" using i order(2) by (auto simp: tasks_def)
  then show "take (length (read_piece C k o' n cs fs p (rs ! i))) (drop (sel_bytes C o' n sel (rs ! i)) lbuf) =
      read_piece C k o' n cs fs p (rs ! i)"
    unfolding lbuf f [OF i] by (rule slice_blits [OF fit ap])
  show "length lbuf = length buf" unfolding lbuf by (rule length_blits [OF fit])
  show "task_data cs fs p (tasks ! i) = read_piece C k o' n cs fs p (rs ! i)" by (rule dat [OF i])
qed

lemma map_nth_index: "map (\<lambda>i. f (xs ! i)) [0..<length xs] = map f xs"
  by (rule nth_equalityI) simp_all

text \<open>
  The read handler: it reports the number of existing bytes of its pieces, and pushes them to their
  places in the client's buffer; all other bytes of that buffer stay as they are.
\<close>

lemma srv_read_eq:
  fixes csz :: u64 and k o' n :: nat and sel :: "nat \<Rightarrow> bool"
  defines "C \<equiv> unat csz"
  defines "rs \<equiv> filter sel [0..<piece_count C o' n]"
  assumes v: "valid_request csz k o' n sel inp mine" and bt: "bulk_copies bt"
    and env: "healthy env" and n: "length cbuf = n" and some: "rs \<noteq> []"
  shows "srv_read may_cancel csz cs env bt mine fs inp cbuf =
    (Some \<lparr>out_err = 0,
           out_io_size = of_nat (\<Sum>r\<leftarrow>rs. length (read_piece C k o' n cs fs (in_path inp) r))\<rparr>,
     blits (map (\<lambda>r. (piece_start C o' r, read_piece C k o' n cs fs (in_path inp) r)) rs) cbuf)"
proof -
  let ?K = "piece_count C o' n" and ?S = "sel_bytes C o' n sel" and ?abt = "srv_abt env"
  let ?p = "in_path inp"
  let ?rd = "\<lambda>i. read_piece C k o' n cs fs ?p (rs ! i)"
  note d = valid_requestD [OF v, folded C_def] and b = valid_bounds [OF v, folded C_def]
  note facts = sel_tasks_facts [OF v, folded C_def]
  obtain st where loop: "srv_read_loop csz ?abt inp mine (of_nat (length cbuf))
      (chunk_range (in_chunk_start inp) (in_chunk_end inp)) (srv_init csz inp (of_nat (length cbuf))) = Inr st"
    and at: "at_piece C k o' n sel ?K st" and buf: "bulk_buf st = bulk_buf (srv_init csz inp (of_nat n))"
    using srv_read_loop_ok [OF v _ _ at_piece_init [OF v], of ?abt] env chunk_range_pieces [OF v] n
    unfolding healthy_def C_def by auto
  have st: "srv_tasks st = map (sel_task C k o' n sel) rs"
    "origin_offsets st = map (\<lambda>r. of_nat (piece_start C o' r)) rs"
    "local_offsets st = map (\<lambda>r. of_nat (?S r)) rs" "chnk_size_left_host st = 0"
    using at by (simp_all add: at_piece_def Let_def rs_def)
  have rs: "r < ?K" "sel r" if "r \<in> set rs" for r using that by (auto simp: rs_def)
  have len: "length (bulk_buf st) = ?S ?K"
    using b(4) by (simp add: buf srv_init_def d(9) unat_of_nat_small)
  have go: "chnk_size_left_host st \<noteq> in_total_chunk_size inp"
  proof -
    obtain r where r: "r \<in> set rs" using some by (cases rs) auto
    have "0 < piece_size C o' n r" using piece_size_pos d(1,2) rs [OF r] by blast
    then have "0 < ?S ?K" using facts(5) [OF rs [OF r]] by linarith
    then show ?thesis using of_nat_u64_inject [of 0 "?S ?K"] b(4) by (simp add: st(4) d(9))
  qed
  let ?order = "task_order ?abt (length (srv_tasks st))"
  have order: "distinct ?order" "set ?order = {..<length (srv_tasks st)}"
    and benign: "\<And>i. benign_env (task_io ?abt i)"
    using env unfolding healthy_def by blast+
  obtain res lbuf where run:
    "run_read_tasks cs (task_io ?abt) fs ?p (srv_tasks st) ?order (bulk_buf st) Map.empty = (res, lbuf)"
    by fastforce
  note slices = run_read_slices [OF v, folded C_def, folded rs_def, OF benign order [unfolded st(1)] len
      run [unfolded st(1)]]
  have N: "unat (in_chunk_n inp) = length rs"
    using b(5) by (simp add: d(8) unat_of_nat_small rs_def)
  have "push_back_loop bt (eventual_value ?abt res) (\<lambda>i. origin_offsets st ! i) (\<lambda>i. local_offsets st ! i)
      lbuf [0..<length rs] 0 0 cbuf =
    (0, 0 + of_nat (\<Sum>i\<leftarrow>[0..<length rs]. length (?rd i)),
     blits (map (\<lambda>i. (unat (origin_offsets st ! i), ?rd i)) [0..<length rs]) cbuf)"
  proof (rule push_back_loop_ok [OF bt, where z = "\<lambda>i. if ?rd i = [] then task_result cs fs ?p (srv_tasks st ! i) else 0"])
    fix i assume "i \<in> set [0..<length rs]"
    then have i: "i < length rs" by simp
    note ri = rs [OF nth_mem [OF i]]
    have wait: "wait_ok ?abt i" using env by (simp add: healthy_def)
    have data: "task_data cs fs ?p (srv_tasks st ! i) = ?rd i" unfolding st(1) by (rule slices(4) [OF i])
    have u: "unat (local_offsets st ! i) = ?S (rs ! i)" "unat (origin_offsets st ! i) = piece_start C o' (rs ! i)"
      using facts(2,7) [OF ri] i by (simp_all add: st(2,3) sel_task_def)
    obtain z where z: "z = 0 \<or> z = - ENOENT" "task_result cs fs ?p (srv_tasks st ! i) =
        (if ?rd i = [] then z else int (length (?rd i)))"
      using task_result_cases [of cs fs ?p "srv_tasks st ! i"] unfolding data by blast
    show "eventual_value ?abt res i = Some (if ?rd i = []
        then if ?rd i = [] then task_result cs fs ?p (srv_tasks st ! i) else 0 else int (length (?rd i)))"
      using slices(1) [OF i] wait z(2) by (simp add: eventual_value_def st(1))
    show "(if ?rd i = [] then task_result cs fs ?p (srv_tasks st ! i) else 0) = 0 \<or>
        (if ?rd i = [] then task_result cs fs ?p (srv_tasks st ! i) else 0) = - ENOENT"
      using z by auto
    show "take (length (?rd i)) (drop (unat (local_offsets st ! i)) lbuf) = ?rd i"
      unfolding u by (rule slices(2) [OF i])
    have "length (?rd i) \<le> piece_size C o' n (rs ! i)" by (rule length_read_piece)
    then show "unat (local_offsets st ! i) + length (?rd i) \<le> length lbuf \<and>
        unat (origin_offsets st ! i) + length (?rd i) \<le> length cbuf \<and> length (?rd i) < 2 ^ 64"
      unfolding u slices(3) [OF i] len n using facts(5,6) [OF ri] b(3) by linarith
  qed
  moreover have "map (\<lambda>i. (unat (origin_offsets st ! i), ?rd i)) [0..<length rs] =
      map (\<lambda>r. (piece_start C o' r, read_piece C k o' n cs fs ?p r)) rs"
  proof (rule nth_equalityI)
    fix i assume "i < length (map (\<lambda>i. (unat (origin_offsets st ! i), ?rd i)) [0..<length rs])"
    then have i: "i < length rs" by simp
    then show "map (\<lambda>i. (unat (origin_offsets st ! i), ?rd i)) [0..<length rs] ! i =
      map (\<lambda>r. (piece_start C o' r, read_piece C k o' n cs fs ?p r)) rs ! i"
      using facts(7) [OF rs [OF nth_mem [OF i]]] by (simp add: st(2))
  qed simp
  moreover have "(\<Sum>i\<leftarrow>[0..<length rs]. length (?rd i)) = (\<Sum>r\<leftarrow>rs. length (read_piece C k o' n cs fs ?p r))"
    by (rule arg_cong [where f = sum_list], rule map_nth_index)
  ultimately have "wait_for_tasks_and_push_back bt ?abt res (\<lambda>i. origin_offsets st ! i)
      (\<lambda>i. local_offsets st ! i) (unat (in_chunk_n inp)) lbuf cbuf =
    (0, of_nat (\<Sum>r\<leftarrow>rs. length (read_piece C k o' n cs fs ?p r)),
     blits (map (\<lambda>r. (piece_start C o' r, read_piece C k o' n cs fs ?p r)) rs) cbuf)"
    by (simp add: wait_for_tasks_and_push_back_def N)
  then show ?thesis
    using env loop go run by (simp add: srv_read_def Let_def healthy_def)
qed

end
