(* ===== verification/Forward_Proofs.thy ===== *)
theory Forward_Proofs
  imports Forward_Data Srv_Read_Proofs
begin

text \<open>
  The client's requests meet the contract of the daemons, and the writes and reads of the client are
  writes and reads of one file: the refinement of the byte view of a file that is spread over the
  chunk files of the cluster.
\<close>

section \<open>The fan-out\<close>

definition chunks_for :: "(u64 \<times> u64) list \<Rightarrow> u64 \<Rightarrow> u64 list" where
  "chunks_for pairs t = map fst (filter (\<lambda>p. snd p = t) pairs)"

lemma chunks_for_simps [simp]:
  "chunks_for [] t = []"
  "chunks_for (pairs @ [(c, t')]) t = chunks_for pairs t @ (if t' = t then [c] else [])"
  by (simp_all add: chunks_for_def)

lemma chunks_for_Nil_iff: "chunks_for pairs t = [] \<longleftrightarrow> t \<notin> snd ` set pairs"
  by (auto simp: chunks_for_def filter_empty_conv)

lemma chunks_add_target:
  "map_of (target_chnks (add_target setb s e (c, t') f)) t =
     (if t = t' then Some (case map_of (target_chnks f) t' of None \<Rightarrow> [c] | Some cs \<Rightarrow> cs @ [c])
      else map_of (target_chnks f) t)"
  by (auto simp: add_target_def Let_def update_conv' map_add_def split: option.splits)

lemma targets_add_target:
  "targets (add_target setb s e (c, t') f) =
     (if map_of (target_chnks f) t' = None then targets f @ [t'] else targets f)"
  by (simp add: add_target_def Let_def)

lemma fan_out_chunks:
  "map_of (target_chnks (fold (add_target setb s e) pairs no_fan_out)) t =
     (if chunks_for pairs t = [] then None else Some (chunks_for pairs t))"
proof (induction pairs rule: rev_induct)
  case Nil
  then show ?case by (simp add: no_fan_out_def)
next
  case (snoc p pairs)
  then show ?case by (cases p) (auto simp: chunks_add_target split: if_splits)
qed

lemma chunks_of_fan_out:
  "chunks_of (fold (add_target setb s e) pairs no_fan_out) t = chunks_for pairs t"
  by (simp add: chunks_of_def fan_out_chunks)

lemma fan_out_targets:
  "set (targets (fold (add_target setb s e) pairs no_fan_out)) = snd ` set pairs \<and>
   distinct (targets (fold (add_target setb s e) pairs no_fan_out))"
proof (induction pairs rule: rev_induct)
  case Nil
  then show ?case by (simp add: no_fan_out_def)
next
  case (snoc p pairs)
  obtain c t' where p: "p = (c, t')" by (cases p)
  show ?case
    using snoc chunks_for_Nil_iff [of pairs t']
    by (auto simp: p targets_add_target fan_out_chunks)
qed

lemma ends_add_target:
  "t \<in> set (chnk_start_target (add_target setb s e (c, t') f)) \<longleftrightarrow>
     t \<in> set (chnk_start_target f) \<or> c = s \<and> t = t'"
  "t \<in> set (chnk_end_target (add_target setb s e (c, t') f)) \<longleftrightarrow>
     t \<in> set (chnk_end_target f) \<or> c = e \<and> t = t'"
  by (auto simp: add_target_def Let_def)

lemma fan_out_ends:
  "t \<in> set (chnk_start_target (fold (add_target setb s e) pairs no_fan_out)) \<longleftrightarrow> (s, t) \<in> set pairs"
  "t \<in> set (chnk_end_target (fold (add_target setb s e) pairs no_fan_out)) \<longleftrightarrow> (e, t) \<in> set pairs"
proof (induction pairs rule: rev_induct)
  case Nil
  { case 1 then show ?case by (simp add: no_fan_out_def)
  next case 2 then show ?case by (simp add: no_fan_out_def) }
next
  case (snoc p pairs)
  { case 1 then show ?case using snoc by (cases p) (auto simp: ends_add_target)
  next case 2 then show ?case using snoc by (cases p) (auto simp: ends_add_target) }
qed

definition bitset_len :: "u64 \<Rightarrow> u64 \<Rightarrow> nat" where
  "bitset_len s e = unat (((e - s) + 1 + 7) div 8)"

lemma ops_vect_add_target:
  "map_of (ops_vect (add_target setb s e (c, t') f)) t =
     (if t = t' then Some (setb (case map_of (ops_vect f) t' of None \<Rightarrow> replicate (bitset_len s e) 0
                                 | Some b \<Rightarrow> b) (c - s))
      else map_of (ops_vect f) t)"
  by (simp add: add_target_def Let_def update_conv' bitset_len_def split: option.splits)

lemma fan_out_bits:
  "map_of (ops_vect (fold (add_target setb s e) pairs no_fan_out)) t =
     (if chunks_for pairs t = [] then None
      else Some (fold (\<lambda>c b. setb b (c - s)) (chunks_for pairs t) (replicate (bitset_len s e) 0)))"
proof (induction pairs rule: rev_induct)
  case Nil
  then show ?case by (simp add: no_fan_out_def)
next
  case (snoc p pairs)
  then show ?case by (cases p) (auto simp: ops_vect_add_target split: option.splits if_splits)
qed

section \<open>Bit sets\<close>

lemma length_bits_fold: "length (fold (\<lambda>p b. set_bitset16 b p) ps bits) = length bits"
  by (induction ps arbitrary: bits) (simp_all add: set_bitset16_def)

lemma get_bits_fold:
  assumes "\<And>p. p \<in> set ps \<Longrightarrow> unat p < 65536 \<and> unat p div 8 < length bits"
  shows "get_bitset (fold (\<lambda>p b. set_bitset16 b p) ps bits) q \<longleftrightarrow>
      (\<exists>p \<in> set ps. ucast p = q) \<or> get_bitset bits q"
  using assms
proof (induction ps arbitrary: bits)
  case (Cons p ps)
  have "unat (ucast p :: u16) = unat p"
    using Cons.prems [of p] by (simp add: unsigned_ucast_eq take_bit_nat_eq_self)
  then have "get_bitset (set_bitset16 bits p) q \<longleftrightarrow> ucast p = q \<or> get_bitset bits q"
    using Cons.prems [of p] get_set_bitset [of "ucast p" bits q] by (simp add: set_bitset16_def)
  moreover have "length (set_bitset16 bits p) = length bits" by (simp add: set_bitset16_def)
  ultimately show ?case using Cons.IH [of "set_bitset16 bits p"] Cons.prems by auto
qed simp

lemma get_bitset_zero: "unat p div 8 < n \<Longrightarrow> \<not> get_bitset (replicate n 0) p"
  by (simp add: get_bitset_iff)

lemma set_bit64_eq: "unat p < 65536 \<Longrightarrow> set_bit64 bits p = set_bitset16 bits p"
proof -
  assume "unat p < 65536"
  then have u: "unat (ucast p :: u16) = unat p"
    by (simp add: unsigned_ucast_eq take_bit_nat_eq_self)
  have d: "unat (p div 8) = unat p div 8" "unat (p mod 8) = unat p mod 8"
    by (simp_all add: unat_div_distrib unat_mod_distrib)
  show ?thesis by (simp add: set_bit64_def set_bitset16_def set_bitset_def Let_def u d)
qed

section \<open>The numbers of a request\<close>

definition plain_range :: "u64 \<Rightarrow> u64 \<Rightarrow> u64 \<Rightarrow> bool" where
  "plain_range csz offset sz \<longleftrightarrow> is_power_of_2 csz \<and> csz < 2 ^ 32 \<and> 0 < sz \<and>
     unat offset + unat sz < 2 ^ 63"

abbreviation range_pieces :: "u64 \<Rightarrow> u64 \<Rightarrow> u64 \<Rightarrow> nat" where
  "range_pieces csz offset sz \<equiv> piece_count (unat csz) (unat offset mod unat csz) (unat sz)"

lemma plain_rangeD:
  assumes "plain_range csz offset sz"
  shows "is_power_of_2 csz" and "csz < 2 ^ 32" and "unat csz < 2 ^ 32" and "0 < unat sz"
    and "unat offset mod unat csz < unat csz" and "unat offset + unat sz < 2 ^ 63"
    and "unat (offset + sz) = unat offset + unat sz" and "0 < unat csz"
proof -
  show p: "is_power_of_2 csz" and c: "csz < 2 ^ 32" and sz: "0 < unat sz"
    and b: "unat offset + unat sz < 2 ^ 63"
    using assms by (auto simp: plain_range_def word_less_nat_alt)
  show "unat csz < 2 ^ 32" using c by (simp add: word_less_nat_alt)
  show pos: "0 < unat csz" using p by (auto simp: is_power_of_2_def unat_gt_0)
  then show "unat offset mod unat csz < unat csz" by simp
  have "offset + sz = of_nat (unat offset + unat sz)" by simp
  then show "unat (offset + sz) = unat offset + unat sz"
    using b unat_of_nat_small [of "unat offset + unat sz"] by simp
qed

lemma range_pieces_end:
  assumes "plain_range csz offset sz"
  shows "(unat offset + unat sz - 1) div unat csz =
      unat offset div unat csz + range_pieces csz offset sz - 1"
    and "(unat offset div unat csz + range_pieces csz offset sz) * unat csz < 2 ^ 64"
    and "unat offset div unat csz + range_pieces csz offset sz < 2 ^ 64"
proof -
  let ?C = "unat csz" and ?k = "unat offset div unat csz" and ?o = "unat offset mod unat csz"
  note d = plain_rangeD [OF assms]
  have "unat offset + unat sz - 1 = ?k * ?C + (?o + unat sz - 1)"
    using d(4) div_mult_mod_eq [of "unat offset" ?C] by linarith
  then have "(unat offset + unat sz - 1) div ?C = ?k + (?o + unat sz - 1) div ?C"
    using d(8) by simp
  then show e: "(unat offset + unat sz - 1) div ?C = ?k + range_pieces csz offset sz - 1"
    by (simp add: piece_count_def)
  have "(?k + range_pieces csz offset sz - 1) * ?C \<le> unat offset + unat sz - 1"
    unfolding e [symmetric] by (rule div_times_less_eq_dividend)
  then have "(?k + range_pieces csz offset sz - 1) * ?C + ?C \<le> unat offset + unat sz - 1 + ?C"
    by (rule add_right_mono)
  also have "\<dots> < 2 ^ 64" using d(3,6) by simp
  also have "(?k + range_pieces csz offset sz - 1) * ?C + ?C = (?k + range_pieces csz offset sz) * ?C"
    by (simp add: piece_count_def)
  finally show m: "(?k + range_pieces csz offset sz) * ?C < 2 ^ 64" .
  have "(?k + range_pieces csz offset sz) * 1 \<le> (?k + range_pieces csz offset sz) * ?C"
    using d(8) by (intro mult_le_mono2) simp
  from le_less_trans [OF this m] show "?k + range_pieces csz offset sz < 2 ^ 64"
    by (simp only: mult_1_right)
qed

lemma client_numbers:
  assumes "plain_range csz offset sz"
  shows "block_index offset csz = of_nat (unat offset div unat csz)"
    and "block_index ((offset + sz) - 1) csz =
      of_nat (unat offset div unat csz + range_pieces csz offset sz - 1)"
    and "block_overrun offset csz = of_nat (unat offset mod unat csz)"
    and "is_aligned (offset + sz) csz \<longleftrightarrow> (unat offset mod unat csz + unat sz) mod unat csz = 0"
    and "block_underrun (offset + sz) csz =
      of_nat (unat csz - (unat offset mod unat csz + unat sz) mod unat csz)"
proof -
  note d = plain_rangeD [OF assms]
  have eq: "x = of_nat m" if "unat x = m" for x :: u64 and m using that by auto
  show "block_index offset csz = of_nat (unat offset div unat csz)"
    using d(1) by (intro eq unat_block_index)
  have "unat (offset + sz - 1) = unat offset + unat sz - 1"
    using d(4,7) by (simp add: unat_sub_if' )
  then show "block_index ((offset + sz) - 1) csz =
      of_nat (unat offset div unat csz + range_pieces csz offset sz - 1)"
    using unat_block_index [OF d(1), of "offset + sz - 1"] range_pieces_end(1) [OF assms]
    by (intro eq) simp
  show "block_overrun offset csz = of_nat (unat offset mod unat csz)"
    using d(1) by (intro eq unat_block_overrun)
  have m: "(unat offset + unat sz) mod unat csz = (unat offset mod unat csz + unat sz) mod unat csz"
    by (simp add: mod_add_left_eq)
  show "is_aligned (offset + sz) csz \<longleftrightarrow> (unat offset mod unat csz + unat sz) mod unat csz = 0"
    using is_aligned_iff [OF d(1,2), of "offset + sz"] by (simp add: d(7) m)
  show "block_underrun (offset + sz) csz =
      of_nat (unat csz - (unat offset mod unat csz + unat sz) mod unat csz)"
    using unat_block_underrun [OF d(1), of "offset + sz"] by (intro eq) (simp add: d(7) m)
qed

section \<open>Requests meet the contract of the daemons\<close>

text \<open>
  \<open>tg r\<close> lists the hosts of the \<open>r\<close>-th chunk of the range: one without replicas, else one per copy.
\<close>

definition pairs_of :: "nat \<Rightarrow> (nat \<Rightarrow> u64 list) \<Rightarrow> nat \<Rightarrow> (u64 \<times> u64) list" where
  "pairs_of k tg K = concat (map (\<lambda>r. map (Pair (of_nat (k + r))) (tg r)) [0..<K])"

lemma pairs_of_Suc: "pairs_of k tg (Suc K) = pairs_of k tg K @ map (Pair (of_nat (k + K))) (tg K)"
  by (simp add: pairs_of_def)

lemma filter_eq_distinct: "distinct ts \<Longrightarrow> filter (\<lambda>x. x = t) ts = (if t \<in> set ts then [t] else [])"
  by (induction ts) (auto simp: filter_empty_conv)

lemma chunks_for_pairs:
  assumes "\<And>r. r < K \<Longrightarrow> distinct (tg r)"
  shows "chunks_for (pairs_of k tg K) t = map (\<lambda>r. of_nat (k + r)) (filter (\<lambda>r. t \<in> set (tg r)) [0..<K])"
  using assms
proof (induction K)
  case (Suc K)
  have "map fst (filter (\<lambda>p. snd p = t) (map (Pair (of_nat (k + K) :: u64)) (tg K))) =
      (if t \<in> set (tg K) then [of_nat (k + K)] else [])"
    using filter_eq_distinct [of "tg K" t] Suc.prems [of K] by (simp add: filter_map comp_def)
  then show ?case using Suc by (simp add: pairs_of_Suc chunks_for_def)
qed (simp add: pairs_of_def)

lemma set_pairs_of:
  assumes "k + K < 2 ^ 64" and "r < K"
  shows "(of_nat (k + r), t) \<in> set (pairs_of k tg K) \<longleftrightarrow> t \<in> set (tg r)"
proof
  assume "(of_nat (k + r), t) \<in> set (pairs_of k tg K)"
  then obtain r' where r': "r' < K" "t \<in> set (tg r')" "(of_nat (k + r) :: u64) = of_nat (k + r')"
    by (auto simp: pairs_of_def simp del: of_nat_add)
  then have "k + r = k + r'"
    using of_nat_u64_inject [of "k + r" "k + r'"] assms by linarith
  then show "t \<in> set (tg r)" using r'(2) by simp
qed (use assms(2) in \<open>force simp: pairs_of_def\<close>)

lemma snd_pairs_of: "snd ` set (pairs_of k tg K) = (\<Union>r<K. set (tg r))"
  by (force simp: pairs_of_def)

text \<open>Every piece fills a chunk but for the offset of the first and the rest of the last chunk.\<close>

definition last_rest :: "nat \<Rightarrow> nat \<Rightarrow> nat \<Rightarrow> nat" where
  "last_rest C o' n = (if (o' + n) mod C \<noteq> 0 then C - (o' + n) mod C else 0)"

lemma piece_size_fill:
  assumes "o' < C" and "0 < n" and "r < piece_count C o' n"
  shows "piece_size C o' n r + ((if r = 0 then o' else 0) +
    (if r = piece_count C o' n - 1 then last_rest C o' n else 0)) = C"
proof (cases "Suc r = piece_count C o' n")
  case True
  have "0 < piece_size C o' n r" using piece_size_pos [OF assms] .
  then show ?thesis
    using piece_size_last [OF assms(1,2) True] True assms(1)
    by (auto simp: piece_off_def last_rest_def split: if_splits)
next
  case False
  then have "Suc r < piece_count C o' n" using assms(3) by simp
  then show ?thesis
    using piece_size_inner [OF assms(1) _ assms(2)] assms(1) False by (auto simp: piece_off_def)
qed

lemma sum_list_indicator:
  fixes a :: nat
  assumes "i < K"
  shows "(\<Sum>r\<leftarrow>filter sel [0..<K]. if r = i then a else 0) = (if sel i then a else 0)"
  using assms by (induction K) (auto simp: less_Suc_eq sum_list_0)

lemma sel_bytes_fill:
  fixes C o' n :: nat and sel :: "nat \<Rightarrow> bool"
  defines "K \<equiv> piece_count C o' n"
  assumes "o' < C" and "0 < n"
  shows "sel_bytes C o' n sel K + ((if sel 0 then o' else 0) +
    (if sel (K - 1) then last_rest C o' n else 0)) = length (filter sel [0..<K]) * C"
proof -
  have K: "0 < K" by (simp add: K_def piece_count_def)
  have "(\<Sum>r\<leftarrow>filter sel [0..<K]. piece_size C o' n r + ((if r = 0 then o' else 0) +
      (if r = K - 1 then last_rest C o' n else 0))) = (\<Sum>r\<leftarrow>filter sel [0..<K]. C)"
    unfolding K_def by (intro arg_cong [where f = sum_list] map_cong refl piece_size_fill [OF assms(2,3)]) simp
  then show ?thesis
    using K by (simp add: sum_list_addf sum_list_indicator sel_bytes_def sum_list_triv)
qed

lemma total_chunk_size_ok:
  fixes csz offset sz :: u64 and tg :: "nat \<Rightarrow> u64 list" and setb
  defines "C \<equiv> unat csz" and "k \<equiv> unat offset div unat csz" and "o' \<equiv> unat offset mod unat csz"
  defines "K \<equiv> range_pieces csz offset sz"
  defines "f \<equiv> fold (add_target setb (of_nat k) (of_nat (k + K - 1))) (pairs_of k tg K) no_fan_out"
  assumes p: "plain_range csz offset sz" and d: "\<And>r. r < K \<Longrightarrow> distinct (tg r)"
  shows "total_chunk_size csz offset sz f t = of_nat (sel_bytes C o' (unat sz) (\<lambda>r. t \<in> set (tg r)) K)"
proof -
  let ?sel = "\<lambda>r. t \<in> set (tg r)" and ?n = "unat sz"
  note num = client_numbers [OF p] and b = plain_rangeD [OF p]
  have K: "0 < K" by (simp add: K_def piece_count_def)
  have kK: "k + K < 2 ^ 64" using range_pieces_end(3) [OF p] by (simp add: k_def K_def)
  have len: "length (chunks_of f t) = length (filter ?sel [0..<K])"
    using chunks_for_pairs [OF d, where k = k and t = t and K = K] by (simp add: f_def chunks_of_fan_out)
  have st: "t \<in> set (chnk_start_target f) \<longleftrightarrow> ?sel 0"
    using set_pairs_of [OF kK, of 0 t tg] K unfolding f_def fan_out_ends by simp
  have en: "t \<in> set (chnk_end_target f) \<longleftrightarrow> ?sel (K - 1)"
    using set_pairs_of [OF kK, of "K - 1" t tg] K unfolding f_def fan_out_ends by simp
  define A where "A = (if ?sel 0 then o' else 0)"
  define B where "B = (if ?sel (K - 1) then last_rest C o' ?n else 0)"
  have fill: "sel_bytes C o' ?n ?sel K + (A + B) = length (filter ?sel [0..<K]) * C"
    unfolding A_def B_def K_def C_def o'_def by (rule sel_bytes_fill) (use b(4,5) in simp_all)
  have "total_chunk_size csz offset sz f t =
      of_nat (length (filter ?sel [0..<K])) * csz - of_nat A - of_nat B"
    unfolding total_chunk_size_def len st en num(3-5) Let_def A_def B_def last_rest_def C_def o'_def
    by simp
  also have "\<dots> = of_nat (length (filter ?sel [0..<K]) * C) - of_nat A - of_nat B"
    by (simp add: C_def)
  also have "\<dots> = of_nat (sel_bytes C o' ?n ?sel K)"
    unfolding fill [symmetric] by simp
  finally show ?thesis .
qed

lemma request_bits:
  fixes tg :: "nat \<Rightarrow> u64 list" and setb
  assumes d: "\<And>r. r < K \<Longrightarrow> distinct (tg r)" and kK: "k + K < 2 ^ 64" and K: "0 < K" "K \<le> 65536"
    and sb: "\<And>b p. unat p < 65536 \<Longrightarrow> setb b p = set_bitset16 b p" and r: "r < K"
    and t: "map_of (ops_vect (fold (add_target setb (of_nat k) (of_nat (k + K - 1))) (pairs_of k tg K) no_fan_out)) t
      = Some bits"
  shows "get_bitset (decompress_bitset (compress_bitset bits)) (of_nat r) \<longleftrightarrow> t \<in> set (tg r)"
proof -
  let ?rs = "filter (\<lambda>r. t \<in> set (tg r)) [0..<K]"
  define L where "L = bitset_len (of_nat k) (of_nat (k + K - 1))"
  have "(of_nat (k + K - 1) :: u64) - of_nat k + 1 + 7 = of_nat (K + 7)"
    using K(1) by (simp add: of_nat_diff)
  then have len: "L = (K + 7) div 8"
    using K(2) by (simp add: L_def bitset_len_def unat_div_distrib unat_of_nat_small del: of_nat_add)
  have fold_eq: "fold (\<lambda>c b. setb b (c - of_nat k)) (map (\<lambda>r. of_nat (k + r)) rs) b =
      fold (\<lambda>p b. set_bitset16 b p) (map of_nat rs) b" if "\<And>r. r \<in> set rs \<Longrightarrow> r < K" for rs b
    using that
  proof (induction rs arbitrary: b)
    case (Cons a rs)
    have "unat (of_nat a :: u64) < 65536" using Cons.prems [of a] K(2) by (simp add: unat_of_nat_small)
    then show ?case using Cons by (simp add: sb)
  qed simp
  have cf: "chunks_for (pairs_of k tg K) t = map (\<lambda>r. of_nat (k + r)) ?rs" by (rule chunks_for_pairs [OF d])
  have bits: "bits = fold (\<lambda>p b. set_bitset16 b p) (map of_nat ?rs) (replicate L 0)"
    using t fold_eq [of ?rs "replicate L 0"] unfolding fan_out_bits cf L_def [symmetric] by (simp split: if_splits)
  have small: "unat (of_nat j :: u64) < 65536 \<and> unat (of_nat j :: u64) div 8 < L" if "j < K" for j
    using that K(2) by (simp add: unat_of_nat_small len)
  have u16: "unat (of_nat r :: u16) = r" using r K(2) by (simp add: unsigned_of_nat take_bit_nat_eq_self)
  have inrange: "unat (of_nat r :: u16) div 8 < L" using r by (simp add: u16 len)
  have "get_bitset bits (of_nat r) \<longleftrightarrow> (\<exists>p \<in> set (map of_nat ?rs :: u64 list). ucast p = (of_nat r :: u16))"
    unfolding bits using small get_bitset_zero [OF inrange] by (subst get_bits_fold) auto
  also have "\<dots> \<longleftrightarrow> t \<in> set (tg r)"
  proof -
    have "(ucast (of_nat j :: u64) = (of_nat r :: u16)) = (j = r)" if "j < K" for j
    proof -
      have "unat (ucast (of_nat j :: u64) :: u16) = j"
        using that K(2) by (simp add: unsigned_ucast_eq unsigned_of_nat take_bit_nat_eq_self)
      then show ?thesis by (simp add: word_unat_eq_iff u16)
    qed
    then show ?thesis using r by auto
  qed
  finally show ?thesis
    using inrange bits get_bitset_transport [of "of_nat r" bits] by (simp add: length_bits_fold)
qed

text \<open>The request the client builds for a target is a valid one for the pieces of that target.\<close>

lemma data_request_valid:
  fixes csz offset sz nhosts :: u64 and path :: string and tg :: "nat \<Rightarrow> u64 list" and setb
  defines "k \<equiv> unat offset div unat csz" and "K \<equiv> range_pieces csz offset sz"
  defines "f \<equiv> fold (add_target setb (of_nat k) (of_nat (k + K - 1))) (pairs_of k tg K) no_fan_out"
  defines "inp \<equiv> \<lambda>t. data_request csz nhosts path offset sz (of_nat k) (of_nat (k + K - 1)) f t"
  assumes p: "plain_range csz offset sz" and K: "K \<le> 65536"
    and d: "\<And>r. r < K \<Longrightarrow> distinct (tg r)"
    and sb: "\<And>b p. unat p < 65536 \<Longrightarrow> setb b p = set_bitset16 b p"
    and t: "t \<in> set (targets f)"
  shows "valid_request csz k (unat offset mod unat csz) (unat sz) (\<lambda>r. t \<in> set (tg r)) (inp t) (bit_mine (inp t))"
proof -
  let ?sel = "\<lambda>r. t \<in> set (tg r)"
  note num = client_numbers [OF p] and b = plain_rangeD [OF p]
  have K0: "0 < K" by (simp add: K_def piece_count_def)
  have kK: "k + K < 2 ^ 64" "(k + K) * unat csz < 2 ^ 64"
    using range_pieces_end(2,3) [OF p] by (simp_all add: k_def K_def)
  have cf: "chunks_for (pairs_of k tg K) t = map (\<lambda>r. of_nat (k + r)) (filter ?sel [0..<K])"
    by (rule chunks_for_pairs [OF d])
  have len: "length (chunks_of f t) = length (filter ?sel [0..<K])"
    by (simp add: f_def chunks_of_fan_out cf)
  have "chunks_for (pairs_of k tg K) t \<noteq> []"
    using t fan_out_targets unfolding f_def chunks_for_Nil_iff by blast
  then obtain bits where bits: "map_of (ops_vect f) t = Some bits"
    by (simp add: f_def fan_out_bits)
  have mine: "bit_mine (inp t) (of_nat (k + r)) = ?sel r" if r: "r < K" for r
  proof -
    have "ucast (of_nat (k + r) - of_nat k :: u64) = (of_nat r :: u16)"
      by (rule word_unat_eq_iff [THEN iffD2]) (use r K in
        \<open>simp add: unsigned_ucast_eq unsigned_of_nat take_bit_nat_eq_self\<close>)
    then show ?thesis
      using request_bits [OF d kK(1) K0 K sb r bits [unfolded f_def]]
      by (simp add: bit_mine_def inp_def data_request_def bits)
  qed
  have tot: "total_chunk_size csz offset sz f t =
      of_nat (sel_bytes (unat csz) (unat offset mod unat csz) (unat sz) ?sel K)"
    unfolding f_def k_def K_def by (rule total_chunk_size_ok [OF p]) (rule d [unfolded K_def])
  have fields: "in_chunk_start (inp t) = of_nat k" "in_chunk_end (inp t) = of_nat (k + K - 1)"
    "in_offset (inp t) = of_nat (unat offset mod unat csz)"
    "in_chunk_n (inp t) = of_nat (length (filter ?sel [0..<K]))"
    "in_total_chunk_size (inp t) = of_nat (sel_bytes (unat csz) (unat offset mod unat csz) (unat sz) ?sel K)"
    unfolding inp_def data_request_def data_in.simps by (rule refl num(3) tot arg_cong [OF len])+
  show ?thesis
    unfolding valid_request_def Let_def K_def [symmetric] using b(3-5) kK(2) fields mine by blast
qed

end
