(* ===== verification/Write_Refinement.thy ===== *)
theory Write_Refinement
  imports Forward_Proofs
begin

text \<open>
  The client's write is a write of the file: whatever the distributor, the number of daemons and the
  order in which they run their tasks, the bytes of the range become the bytes of the buffer and no
  other byte of any file changes.
\<close>

section \<open>The file behind the chunks\<close>

definition host_of :: "locator \<Rightarrow> string \<Rightarrow> u64 \<Rightarrow> int \<Rightarrow> u64" where
  "host_of locate path c copy = ucast (locate path (ucast c) copy)"

definition daemon_chunk :: "rpc_env \<Rightarrow> cluster \<Rightarrow> u64 \<Rightarrow> string \<Rightarrow> u64 \<Rightarrow> bytes" where
  "daemon_chunk env cl h path c = chunk_bytes (daemon_storage env h) (cl h) path c"

text \<open>Byte \<open>i\<close> of copy \<open>copy\<close> of a file; bytes that were never written read as zero.\<close>

definition file_byte :: "u64 \<Rightarrow> rpc_env \<Rightarrow> locator \<Rightarrow> cluster \<Rightarrow> string \<Rightarrow> int \<Rightarrow> nat \<Rightarrow> byte" where
  "file_byte csz env locate cl path copy i =
     (let c = of_nat (i div unat csz)
      in byte0 (daemon_chunk env cl (host_of locate path c copy) path c) (i mod unat csz))"

definition healthy_net :: "rpc_env \<Rightarrow> bool" where
  "healthy_net env \<longleftrightarrow> expose_ok env \<and>
     (\<forall>t. post_ok env t \<and> reply_ok env t \<and> healthy (daemon_env env t))"

section \<open>Sums over targets\<close>

lemma sum_piece_size:
  assumes "o' < C" and "0 < n"
  shows "(\<Sum>r<piece_count C o' n. piece_size C o' n r) = n"
proof -
  let ?K = "piece_count C o' n"
  have upto: "(\<Sum>r<Suc j. piece_size C o' n r) = piece_start C o' j + piece_size C o' n j" if "j < ?K" for j
    using that
  proof (induction j)
    case 0
    then show ?case by (simp add: piece_start_def)
  next
    case (Suc j)
    have "Suc j * C < o' + n" using Suc.prems assms by (simp only: piece_count_iff)
    then have "piece_start C o' j + piece_size C o' n j = piece_start C o' (Suc j)"
      using Suc.prems assms by (subst piece_end) (auto simp: piece_start_def)
    then show ?case using Suc by simp
  qed
  have K: "0 < ?K" by (simp add: piece_count_def)
  have "o' + n \<le> ?K * C" using piece_count_iff [OF assms, of ?K] by simp
  then have "min n (Suc (?K - 1) * C - o') = n" using K by simp
  then show ?thesis using upto [of "?K - 1"] piece_end [OF assms, of "?K - 1"] K by simp
qed

lemma sel_bytes_sum: "sel_bytes C o' n sel K = (\<Sum>r \<in> {r. r < K \<and> sel r}. piece_size C o' n r)"
proof -
  have "sel_bytes C o' n sel K = sum (piece_size C o' n) (set (filter sel [0..<K]))"
    unfolding sel_bytes_def by (rule sum_list_distinct_conv_sum_set) simp
  also have "set (filter sel [0..<K]) = {r. r < K \<and> sel r}" by auto
  finally show ?thesis .
qed

lemma sum_targets:
  assumes "o' < C" and "0 < n" and "distinct ts" and "\<And>r. r < piece_count C o' n \<Longrightarrow> h r \<in> set ts"
  shows "(\<Sum>t\<leftarrow>ts. sel_bytes C o' n (\<lambda>r. t = h r) (piece_count C o' n)) = n"
proof -
  let ?K = "piece_count C o' n"
  have "(\<Sum>t\<leftarrow>ts. sel_bytes C o' n (\<lambda>r. t = h r) ?K) =
      (\<Sum>t \<in> set ts. \<Sum>r \<in> {r \<in> {..<?K}. h r = t}. piece_size C o' n r)"
    using assms(3) by (simp add: sum_list_distinct_conv_sum_set sel_bytes_sum eq_commute)
  also have "\<dots> = (\<Sum>r<?K. piece_size C o' n r)"
    using assms(4) by (intro sum.group) auto
  finally show ?thesis using sum_piece_size [OF assms(1,2)] by simp
qed

section \<open>Posting and gathering\<close>

lemma post_writes_ok:
  assumes net: "healthy_net env" and "distinct ts"
  shows "post_writes csz env bt nc buf request ts cl =
    (let srv = (\<lambda>t. rpc_srv_write csz (daemon_storage env t) (daemon_env env t) bt (cl t) (request t) buf)
     in (False, map (\<lambda>t. Some (fst (srv t))) ts, \<lambda>t. if t \<in> set ts then snd (srv t) else cl t))"
  using assms(2)
proof (induction ts arbitrary: cl)
  case (Cons t ts)
  let ?srv = "\<lambda>cl t. rpc_srv_write csz (daemon_storage env t) (daemon_env env t) bt (cl t) (request t) buf"
  obtain out fs' where o: "?srv cl t = (out, fs')" by fastforce
  have "map (\<lambda>s. Some (fst (?srv (cl(t := fs')) s))) ts = map (\<lambda>s. Some (fst (?srv cl s))) ts"
    using Cons.prems by (intro map_cong) auto
  then show ?case
    using Cons net by (auto simp: o healthy_net_def Let_def fun_eq_iff)
qed simp

lemma gather_writes_ok:
  "gather_writes (map (\<lambda>t. Some \<lparr>out_err = 0, out_io_size = of_nat (g t)\<rparr>) ts) 0 acc =
     (0, acc + of_nat (\<Sum>t\<leftarrow>ts. g t))"
  by (induction ts arbitrary: acc) (simp_all add: add.assoc)

lemma write_pairs_of:
  assumes "0 < K" and "k + K < 2 ^ 64"
  shows "write_pairs locate path (of_nat k) (of_nat (k + K - 1)) nc =
    pairs_of k (\<lambda>r. map (host_of locate path (of_nat (k + r))) (copies nc)) K"
  unfolding write_pairs_def pairs_of_def chunk_range_upt [OF assms]
  by (simp add: comp_def host_of_def)

section \<open>The write on the cluster\<close>

lemma piece_take: "piece C o' n (take n buf) r = piece C o' n buf r"
  by (simp add: piece_def piece_size_def drop_take min_def)

text \<open>The hosts of the chunks of a range, and the condition that the replicas of a chunk are apart.\<close>

definition chunk_hosts :: "locator \<Rightarrow> string \<Rightarrow> nat \<Rightarrow> u64 \<Rightarrow> u64 list" where
  "chunk_hosts locate path nc c = map (host_of locate path c) (copies nc)"

definition replicas_apart :: "locator \<Rightarrow> string \<Rightarrow> nat \<Rightarrow> bool" where
  "replicas_apart locate path nc \<longleftrightarrow> (\<forall>c. distinct (chunk_hosts locate path nc c))"

lemma replicas_apart_0 [simp]: "replicas_apart locate path 0"
  by (simp add: replicas_apart_def chunk_hosts_def copies_def)

lemma forward_write_posts:
  fixes csz offset sz :: u64 and locate path nc
  defines "k \<equiv> unat offset div unat csz" and "K \<equiv> range_pieces csz offset sz"
  defines "tg \<equiv> \<lambda>r. chunk_hosts locate path nc (of_nat (k + r))"
  defines "f \<equiv> write_fan_out locate path (of_nat k) (of_nat (k + K - 1)) nc"
  assumes p: "plain_range csz offset sz"
  shows "f = fold (add_target set_bitset16 (of_nat k) (of_nat (k + K - 1))) (pairs_of k tg K) no_fan_out"
    and "distinct (targets f)" and "set (targets f) = (\<Union>r<K. set (tg r))"
proof -
  have K: "0 < K" by (simp add: K_def piece_count_def)
  have kK: "k + K < 2 ^ 64" using range_pieces_end(3) [OF p] by (simp add: k_def K_def)
  show f: "f = fold (add_target set_bitset16 (of_nat k) (of_nat (k + K - 1))) (pairs_of k tg K) no_fan_out"
    unfolding f_def write_fan_out_def write_pairs_of [OF K kK] tg_def chunk_hosts_def ..
  show "distinct (targets f)" "set (targets f) = (\<Union>r<K. set (tg r))"
    unfolding f using fan_out_targets [of set_bitset16] by (simp_all add: snd_pairs_of)
qed

lemma write_request_valid:
  fixes csz offset sz :: u64 and locate path nc
  defines "k \<equiv> unat offset div unat csz" and "K \<equiv> range_pieces csz offset sz"
  defines "tg \<equiv> \<lambda>r. chunk_hosts locate path nc (of_nat (k + r))"
  defines "f \<equiv> write_fan_out locate path (of_nat k) (of_nat (k + K - 1)) nc"
  assumes p: "plain_range csz offset sz" and K: "K \<le> 65536" and apart: "replicas_apart locate path nc"
    and t: "t \<in> set (targets f)"
  shows "valid_request csz k (unat offset mod unat csz) (unat sz) (\<lambda>r. t \<in> set (tg r))
      (data_request csz nhosts path offset sz (of_nat k) (of_nat (k + K - 1)) f t)
      (bit_mine (data_request csz nhosts path offset sz (of_nat k) (of_nat (k + K - 1)) f t))"
proof -
  note posts = forward_write_posts [OF p, of locate path nc, folded k_def K_def, folded tg_def f_def]
  have "distinct (tg r)" for r using apart by (simp add: replicas_apart_def tg_def)
  then show ?thesis
    using data_request_valid [OF p, where tg = tg and setb = set_bitset16 and t = t, folded K_def k_def,
        folded posts(1), OF K _ _ t]
    by blast
qed

lemma forward_write_runs:
  fixes csz offset sz :: u64 and locate path nc
  defines "k \<equiv> unat offset div unat csz" and "o' \<equiv> unat offset mod unat csz"
  defines "K \<equiv> range_pieces csz offset sz"
  defines "tg \<equiv> \<lambda>r. chunk_hosts locate path nc (of_nat (k + r))"
  assumes p: "plain_range csz offset sz" and K: "K \<le> 65536" and bt: "bulk_copies bt"
    and net: "healthy_net env" and buf: "unat sz \<le> length buf" and apart: "replicas_apart locate path nc"
  obtains inp where
    "forward_write csz nhosts locate env bt cl path buf offset sz nc = ((0, sz),
       \<lambda>t. if t \<in> (\<Union>r<K. set (tg r))
           then snd (rpc_srv_write csz (daemon_storage env t) (daemon_env env t) bt (cl t) (inp t) (take (unat sz) buf))
           else cl t)"
    and "\<And>t. t \<in> (\<Union>r<K. set (tg r)) \<Longrightarrow>
      valid_request csz k o' (unat sz) (\<lambda>r. t \<in> set (tg r)) (inp t) (bit_mine (inp t))"
    and "\<And>t. in_path (inp t) = path"
proof -
  let ?n = "unat sz" and ?buf = "take (unat sz) buf"
  define f where "f = write_fan_out locate path (of_nat k) (of_nat (k + K - 1)) nc"
  note posts = forward_write_posts [OF p, of locate path nc, folded k_def K_def, folded tg_def f_def]
  note num = client_numbers [OF p, folded k_def K_def] and b = plain_rangeD [OF p]
  define inp where "inp = data_request csz nhosts path offset sz (of_nat k) (of_nat (k + K - 1)) f"
  have targets: "set (targets f) = (\<Union>r<K. set (tg r))" using posts(3) by (simp add: tg_def)
  have dist: "distinct (tg r)" for r using apart by (simp add: replicas_apart_def tg_def)
  have n: "length ?buf = ?n" using buf by simp
  have valid: "valid_request csz k o' ?n (\<lambda>r. t \<in> set (tg r)) (inp t) (bit_mine (inp t))" if "t \<in> set (targets f)" for t
    using write_request_valid [OF p K [unfolded K_def] apart, folded k_def K_def, folded tg_def f_def, OF that]
    unfolding inp_def o'_def tg_def .
  let ?srv = "\<lambda>t. rpc_srv_write csz (daemon_storage env t) (daemon_env env t) bt (cl t) (inp t) ?buf"
  let ?g = "\<lambda>t. sel_bytes (unat csz) o' ?n (\<lambda>r. t \<in> set (tg r)) K"
  have "fst (?srv t) = \<lparr>out_err = 0, out_io_size = of_nat (?g t)\<rparr>" if "t \<in> set (targets f)" for t
    using srv_write_eq(1) [OF valid [OF that] bt _ n] net
    by (simp add: rpc_srv_write_def healthy_net_def K_def o'_def)
  then have replies: "map (\<lambda>t. Some (fst (?srv t))) (targets f) =
      map (\<lambda>t. Some \<lparr>out_err = 0, out_io_size = of_nat (?g t)\<rparr>) (targets f)" by simp
  have total: "of_nat (\<Sum>t\<leftarrow>targets f. ?g t) = sz" if "nc = 0"
  proof -
    define h where "h = (\<lambda>r. host_of locate path (of_nat (k + r)) 0)"
    have one: "tg r = [h r]" for r using that by (simp add: tg_def chunk_hosts_def copies_def h_def)
    then have "h r \<in> set (targets f)" if "r < K" for r using posts(3) that by (force simp: tg_def)
    then have "(\<Sum>t\<leftarrow>targets f. ?g t) = ?n"
      using sum_targets [OF _ _ posts(2), of o' "unat csz" ?n h] b by (simp add: K_def o'_def one)
    then show ?thesis by simp
  qed
  have "forward_write csz nhosts locate env bt cl path buf offset sz nc = ((0, sz),
       \<lambda>t. if t \<in> set (targets f) then snd (?srv t) else cl t)"
    unfolding forward_write_def Let_def num(1,2) f_def [symmetric] inp_def [symmetric]
      post_writes_ok [OF net posts(2)] replies
    using net total by (simp add: gather_writes_ok healthy_net_def)
  moreover have "in_path (inp t) = path" for t by (simp add: inp_def data_request_def)
  ultimately show thesis using that valid unfolding targets by blast
qed

lemma forward_write_cluster:
  fixes csz offset sz :: u64 and locate path nc
  defines "C \<equiv> unat csz" and "k \<equiv> unat offset div unat csz" and "o' \<equiv> unat offset mod unat csz"
  defines "K \<equiv> range_pieces csz offset sz"
  assumes p: "plain_range csz offset sz" and K: "K \<le> 65536" and bt: "bulk_copies bt"
    and net: "healthy_net env" and buf: "unat sz \<le> length buf" and apart: "replicas_apart locate path nc"
    and fw: "forward_write csz nhosts locate env bt cl path buf offset sz nc = (res, cl')"
  shows "res = (0, sz)"
    and "r < K \<Longrightarrow> h \<in> set (chunk_hosts locate path nc (of_nat (k + r))) \<Longrightarrow>
      daemon_chunk env cl' h path (of_nat (k + r)) =
      pwrite_bytes (daemon_chunk env cl h path (of_nat (k + r))) (piece_off o' r) (piece C o' (unat sz) buf r)"
    and "(\<And>r. r < K \<Longrightarrow> c = of_nat (k + r) \<Longrightarrow> h \<notin> set (chunk_hosts locate path nc c)) \<Longrightarrow>
      daemon_chunk env cl' h path c = daemon_chunk env cl h path c"
    and "get_chunks_dir q \<noteq> get_chunks_dir path \<Longrightarrow> daemon_chunk env cl' h q c = daemon_chunk env cl h q c"
proof -
  define tg where "tg = (\<lambda>r. chunk_hosts locate path nc (of_nat (k + r)))"
  obtain inp where eq: "forward_write csz nhosts locate env bt cl path buf offset sz nc = ((0, sz),
       \<lambda>t. if t \<in> (\<Union>r<K. set (tg r))
           then snd (rpc_srv_write csz (daemon_storage env t) (daemon_env env t) bt (cl t) (inp t) (take (unat sz) buf))
           else cl t)"
    and v: "\<And>t. t \<in> (\<Union>r<K. set (tg r)) \<Longrightarrow>
      valid_request csz k o' (unat sz) (\<lambda>r. t \<in> set (tg r)) (inp t) (bit_mine (inp t))"
    and path: "\<And>t. in_path (inp t) = path"
    unfolding K_def k_def o'_def tg_def
    using forward_write_runs [OF p K [unfolded K_def] bt net buf apart, of nhosts cl thesis] by blast
  show "res = (0, sz)" using fw eq by simp
  have n: "length (take (unat sz) buf) = unat sz" using buf by simp
  have env: "healthy (daemon_env env t)" for t using net by (simp add: healthy_net_def)
  have cl': "cl' t = (if t \<in> (\<Union>r<K. set (tg r))
       then snd (srv_write csz (daemon_storage env t) (daemon_env env t) bt (bit_mine (inp t)) (cl t) (inp t)
         (take (unat sz) buf)) else cl t)" for t
    using fw eq by (auto simp: rpc_srv_write_def)
  let ?ws = "\<lambda>h. map (\<lambda>r. (of_nat (k + r) :: u64, piece_off o' r, piece C o' (unat sz) buf r))
    (filter (\<lambda>r. h \<in> set (tg r)) [0..<K])"
  have bytes: "daemon_chunk env cl' h path c = (case map_of (?ws h) c of
       None \<Rightarrow> daemon_chunk env cl h path c
     | Some (off, dt) \<Rightarrow> pwrite_bytes (daemon_chunk env cl h path c) off dt)"
    if "h \<in> (\<Union>r<K. set (tg r))" for h c
    using srv_write_eq(2) [OF v [OF that] bt env n, of "daemon_storage env h" h "cl h" c] that
    unfolding daemon_chunk_def cl' path piece_take C_def K_def o'_def by simp
  show "daemon_chunk env cl' h path (of_nat (k + r)) =
      pwrite_bytes (daemon_chunk env cl h path (of_nat (k + r))) (piece_off o' r) (piece C o' (unat sz) buf r)"
    if r: "r < K" and h: "h \<in> set (chunk_hosts locate path nc (of_nat (k + r)))"
  proof -
    have hT: "h \<in> (\<Union>r<K. set (tg r))" using r h by (auto simp: tg_def)
    have "distinct (map fst (?ws h))"
      using srv_write_eq(4) [OF v [OF hT] bt env n] by (simp add: C_def K_def o'_def comp_def)
    then have "map_of (?ws h) (of_nat (k + r)) = Some (piece_off o' r, piece C o' (unat sz) buf r)"
      by (rule map_of_is_SomeI) (use r h in \<open>auto simp: tg_def\<close>)
    then show ?thesis using bytes [OF hT, of "of_nat (k + r)"] by simp
  qed
  show "daemon_chunk env cl' h path c = daemon_chunk env cl h path c"
    if "\<And>r. r < K \<Longrightarrow> c = of_nat (k + r) \<Longrightarrow> h \<notin> set (chunk_hosts locate path nc c)"
  proof (cases "h \<in> (\<Union>r<K. set (tg r))")
    case True
    have "map_of (?ws h) c = None" using that by (force simp: map_of_eq_None_iff tg_def simp del: of_nat_add)
    then show ?thesis using bytes [OF True, of c] by simp
  qed (simp add: daemon_chunk_def cl')
  show "daemon_chunk env cl' h q c = daemon_chunk env cl h q c" if "get_chunks_dir q \<noteq> get_chunks_dir path"
    using that srv_write_eq(3) [OF v bt env n]
    by (auto simp: daemon_chunk_def chunk_bytes_def cl' path)
qed

section \<open>The write on the file\<close>

lemma byte0_pwrite_piece:
  assumes o': "o' < C" and n: "0 < n" "n \<le> length buf" and r: "r < piece_count C o' n" and x: "x < C"
  shows "byte0 (pwrite_bytes old (piece_off o' r) (piece C o' n buf r)) x =
    (if o' \<le> r * C + x \<and> r * C + x < o' + n then buf ! (r * C + x - o') else byte0 old x)"
proof (cases "o' \<le> r * C + x \<and> r * C + x < o' + n")
  case True
  define j where "j = r * C + x - o'"
  have j: "j < n" "(o' + j) div C = r" "(o' + j) mod C = x" using True x n by (auto simp: j_def)
  note pb = piece_of_byte [OF o' j(1), unfolded j(2,3)]
  have "x - piece_off o' r = j - piece_start C o' r" "piece_off o' r \<le> x" "x < piece_off o' r + piece_size C o' n r"
    using pb(2-4) by linarith+
  then show ?thesis
    using True pb nth_piece [OF n(2) pb(2,3) o' n(1) r] length_piece [OF o' n(1) r n(2)]
    by (simp add: byte0_pwrite j_def)
next
  case False
  have "\<not> (piece_off o' r \<le> x \<and> x < piece_off o' r + piece_size C o' n r)"
  proof
    assume a: "piece_off o' r \<le> x \<and> x < piece_off o' r + piece_size C o' n r"
    have "r * C + x = o' + (piece_start C o' r + (x - piece_off o' r))"
      using a o' offset_le_mult [OF o', of r] by (cases "r = 0") (auto simp: piece_start_def piece_off_def)
    then show False using False a piece_end_le [OF o' n(1) r] by linarith
  qed
  then show ?thesis using False length_piece [OF o' n(1) r n(2)] by (auto simp: byte0_pwrite)
qed

lemma forward_write_bytes:
  assumes p: "plain_range csz offset sz" and K: "range_pieces csz offset sz \<le> 65536" and bt: "bulk_copies bt"
    and net: "healthy_net env" and buf: "unat sz \<le> length buf" and apart: "replicas_apart locate path nc"
    and fw: "forward_write csz nhosts locate env bt cl path buf offset sz nc = (res, cl')"
    and copy: "copy \<in> set (copies nc)" and i: "i < 2 ^ 64"
  shows "file_byte csz env locate cl' path copy i =
    (if unat offset \<le> i \<and> i < unat offset + unat sz then buf ! (i - unat offset)
     else file_byte csz env locate cl path copy i)"
proof -
  define C k o' where "C = unat csz" and "k = unat offset div C" and "o' = unat offset mod C"
  note b = plain_rangeD [OF p] and cluster = forward_write_cluster [OF p K bt net buf apart fw]
  have C: "0 < C" using b by (simp add: C_def)
  have o': "o' < C" and off: "unat offset = k * C + o'" using C by (simp_all add: o'_def k_def)
  define x where "x = i mod C"
  have x: "x < C" using C by (simp add: x_def)
  let ?c = "of_nat (i div C) :: u64"
  let ?h = "host_of locate path ?c copy"
  have h: "?h \<in> set (chunk_hosts locate path nc ?c)" using copy by (simp add: chunk_hosts_def)
  have kK: "k + range_pieces csz offset sz < 2 ^ 64" using range_pieces_end(3) [OF p] by (simp add: k_def C_def)
  show ?thesis
  proof (cases "k \<le> i div C \<and> i div C < k + range_pieces csz offset sz")
    case True
    define r where "r = i div C - k"
    have r: "r < piece_count C o' (unat sz)" "i div C = k + r" using True by (auto simp: r_def C_def o'_def)
    have i': "i = k * C + (r * C + x)"
      using r(2) div_mult_mod_eq [of i C] by (simp add: x_def algebra_simps)
    have "daemon_chunk env cl' ?h path ?c =
        pwrite_bytes (daemon_chunk env cl ?h path ?c) (piece_off o' r) (piece C o' (unat sz) buf r)"
      using cluster(2) [of r ?h] r h by (simp add: C_def k_def o'_def)
    moreover have "(unat offset \<le> i \<and> i < unat offset + unat sz) = (o' \<le> r * C + x \<and> r * C + x < o' + unat sz)"
      and "i - unat offset = r * C + x - o'" unfolding off using i' by linarith+
    ultimately show ?thesis
      using byte0_pwrite_piece [OF o' _ buf r(1) x, of "daemon_chunk env cl ?h path ?c"] b
      unfolding file_byte_def Let_def C_def [symmetric] x_def [symmetric] by simp
  next
    case False
    have "?c \<noteq> of_nat (k + r)" if "r < range_pieces csz offset sz" for r
    proof
      assume "?c = of_nat (k + r)"
      moreover have "i div C < 2 ^ 64" using i div_le_dividend [of i C] by linarith
      ultimately have "i div C = k + r"
        using that kK by (simp add: word_of_nat_eq_iff take_bit_nat_eq_self del: of_nat_add)
      then show False using False that by simp
    qed
    then have "daemon_chunk env cl' ?h path ?c = daemon_chunk env cl ?h path ?c"
      using cluster(3) [of ?c ?h] by (simp add: C_def k_def)
    moreover have "\<not> (unat offset \<le> i \<and> i < unat offset + unat sz)"
    proof
      assume a: "unat offset \<le> i \<and> i < unat offset + unat sz"
      then have "i div C \<le> (k * C + (o' + unat sz - 1)) div C" unfolding off by (intro div_le_mono) linarith
      then have "i div C < k + range_pieces csz offset sz"
        using C by (simp add: piece_count_def C_def [symmetric] o'_def [symmetric])
      then show False using False a div_le_mono [of "unat offset" i C] by (simp add: k_def)
    qed
    ultimately show ?thesis by (auto simp: file_byte_def Let_def C_def [symmetric])
  qed
qed

end
