(* ===== verification/Read_Refinement.thy ===== *)
theory Read_Refinement
  imports Write_Refinement
begin

text \<open>
  The client's read is a read of the file: every byte of the range that exists arrives at its place in
  the client's buffer, the count is the number of such bytes, and after a write the read returns what
  was written.
\<close>

section \<open>The replica a chunk is read from\<close>

text \<open>All hosts of a chunk: copy 0, which the plain write places, and the replicas.\<close>

definition all_copies :: "locator \<Rightarrow> string \<Rightarrow> nat \<Rightarrow> u64 \<Rightarrow> u64 list" where
  "all_copies locate path nc c = map (host_of locate path c) (map int [0..<nc + 1])"

lemma copy_in_all: "j \<le> nc \<Longrightarrow> ucast (locate path (ucast c) (int j)) \<in> set (all_copies locate path nc c)"
  by (simp add: all_copies_def host_of_def image_iff) (metis atLeastLessThan_iff less_Suc_eq_le not_less_zero not_less nat_less_le)

lemma all_copies_split:
  "set (all_copies locate path nc c) = set (chunk_hosts locate path 0 c) \<union> set (chunk_hosts locate path nc c)"
proof -
  have "{0..<nc + 1} = {0..<1} \<union> {(if nc \<noteq> 0 then 1 else 0)..<nc + 1}" by auto
  then show ?thesis unfolding all_copies_def chunk_hosts_def copies_def set_map set_upt image_Un [symmetric] by simp
qed

lemma other_replica_in:
  assumes "other_replica locate path c nc failed target rnds = Some t" and "0 < nc"
    and "ucast target \<in> set (all_copies locate path nc c)"
  shows "ucast t \<in> set (all_copies locate path nc c)"
  using assms
proof (induction rnds arbitrary: target)
  case (Cons rnd rnds)
  have "rnd mod nc \<le> nc" using assms(2) by (simp add: less_imp_le)
  then show ?case using Cons copy_in_all [of "rnd mod nc" nc locate path c] by (simp split: if_splits)
qed (simp split: if_splits)

lemma read_target_in:
  assumes "read_target locate path nc failed draws c = Some t"
  shows "ucast t \<in> set (all_copies locate path nc c)"
  using assms copy_in_all [of 0 nc locate path c]
    other_replica_in [of locate path c nc failed "locate path (ucast c) 0" "draws c" t]
  by (auto simp: read_target_def Let_def split: if_splits)

text \<open>A chunk is read without drawing another replica unless its first host has failed.\<close>

lemma read_target_live:
  assumes "ucast (locate path (ucast c) 0) \<notin> set failed"
  shows "read_target locate path nc failed draws c = Some (locate path (ucast c) 0)"
  using assms by (cases "draws c") (simp_all add: read_target_def Let_def)

text \<open>The replica loop ends as soon as one of its draws is a host that has not failed.\<close>

lemma other_replica_ends:
  assumes "rnd \<in> set rnds" and "ucast (locate path (ucast c) (int (rnd mod nc))) \<notin> set failed"
  shows "\<exists>t. other_replica locate path c nc failed target rnds = Some t \<and> ucast t \<notin> set failed"
  using assms
proof (induction rnds arbitrary: target)
  case (Cons r rnds)
  show ?case
  proof (cases "rnd = r")
    case True
    then show ?thesis using Cons.prems(2) by (cases rnds) simp_all
  next
    case False
    then show ?thesis using Cons by simp
  qed
qed simp

lemma read_pairs_targets:
  assumes "read_pairs locate path nc failed draws (map f rs) = Some pairs" and "distinct rs"
  shows "\<exists>g. pairs = map (\<lambda>r. (f r, g r)) rs \<and> (\<forall>r \<in> set rs. g r \<in> set (all_copies locate path nc (f r)))"
  using assms
proof (induction rs arbitrary: pairs)
  case (Cons r rs)
  from Cons.prems obtain t ps where t: "read_target locate path nc failed draws (f r) = Some t"
    and ps: "read_pairs locate path nc failed draws (map f rs) = Some ps" and pairs: "pairs = (f r, ucast t) # ps"
    by (auto split: option.splits)
  obtain g where g: "ps = map (\<lambda>r. (f r, g r)) rs"
    "\<forall>r \<in> set rs. g r \<in> set (all_copies locate path nc (f r))"
    using Cons.IH [OF ps] Cons.prems(2) by auto
  have "ps = map (\<lambda>s. (f s, (g(r := ucast t)) s)) rs" using Cons.prems(2) g(1) by auto
  then show ?case using g(2) read_target_in [OF t] by (intro exI [of _ "g(r := ucast t)"]) (auto simp: pairs)
qed simp

lemma read_pairs_first:
  assumes "\<And>c. c \<in> set cs \<Longrightarrow> ucast (locate path (ucast c) 0) \<notin> set failed"
  shows "read_pairs locate path nc failed draws cs = Some (map (\<lambda>c. (c, host_of locate path c 0)) cs)"
  using assms by (induction cs) (simp_all add: read_target_live host_of_def)

section \<open>Posting and gathering\<close>

lemma post_reads_ok:
  assumes net: "healthy_net env"
    and srv: "\<And>t b. t \<in> set ts \<Longrightarrow> length b = n \<Longrightarrow>
      rpc_srv_read csz (daemon_storage env t) (daemon_env env t) bt (cl t) (request t) b = (Some (out t), blits (ws t) b)"
    and fit: "\<And>t. t \<in> set ts \<Longrightarrow> blits_fit (ws t) n" and b: "length b = n"
  shows "post_reads csz env bt cl request ts b =
    (False, map (\<lambda>t. Some (out t)) ts, blits (concat (map ws ts)) b)"
  using srv fit b
proof (induction ts arbitrary: b)
  case (Cons t ts)
  have "length (blits (ws t) b) = n" using Cons.prems(2) [of t] Cons.prems(3) by (simp add: length_blits)
  then have "post_reads csz env bt cl request ts (blits (ws t) b) =
      (False, map (\<lambda>t. Some (out t)) ts, blits (concat (map ws ts)) (blits (ws t) b))"
    using Cons by (intro Cons.IH) auto
  then show ?case using Cons.prems net by (simp add: healthy_net_def blits_def)
qed simp

lemma gather_reads_ok:
  "gather_reads (zip ts (map (\<lambda>t. Some \<lparr>out_err = 0, out_io_size = of_nat (g t)\<rparr>) ts)) 0 acc failed =
     (0, acc + of_nat (\<Sum>t\<leftarrow>ts. g t), failed)"
  by (induction ts arbitrary: acc) (simp_all add: add.assoc)

text \<open>The pieces of all targets, target after target.\<close>

definition by_target :: "u64 list \<Rightarrow> (nat \<Rightarrow> u64) \<Rightarrow> nat \<Rightarrow> nat list" where
  "by_target ts g K = concat (map (\<lambda>t. filter (\<lambda>r. t = g r) [0..<K]) ts)"

lemma by_target_set: "set (by_target ts g K) = {r. r < K \<and> g r \<in> set ts}"
  by (auto simp: by_target_def)

lemma by_target_distinct: "distinct ts \<Longrightarrow> distinct (by_target ts g K)"
  by (induction ts) (auto simp: by_target_def)

lemma by_target_sum: "(\<Sum>t\<leftarrow>ts. \<Sum>r\<leftarrow>filter (\<lambda>r. t = g r) [0..<K]. f r) = (\<Sum>r\<leftarrow>by_target ts g K. f r :: nat)"
  by (induction ts) (simp_all add: by_target_def)

section \<open>The read on the cluster\<close>

lemma sum_upto_list: "distinct rs \<Longrightarrow> set rs = {..<K} \<Longrightarrow> (\<Sum>r\<leftarrow>rs. f r) = (\<Sum>r<K. f r :: nat)"
  by (simp add: sum_list_distinct_conv_sum_set)

lemma forward_read_cluster:
  fixes csz offset sz :: u64 and g :: "nat \<Rightarrow> u64" and env cl path
  defines "C \<equiv> unat csz" and "k \<equiv> unat offset div unat csz" and "o' \<equiv> unat offset mod unat csz"
  defines "K \<equiv> range_pieces csz offset sz"
  defines "rd \<equiv> \<lambda>r. pread_bytes (daemon_chunk env cl (g r) path (of_nat (k + r))) (piece_off o' r) (piece_size C o' (unat sz) r)"
  assumes p: "plain_range csz offset sz" and K: "K \<le> 65536" and bt: "bulk_copies bt"
    and net: "healthy_net env" and buf: "unat sz \<le> length buf"
    and pairs: "read_pairs locate path nc failed draws (chunk_range (of_nat k) (of_nat (k + K - 1))) =
      Some (pairs_of k (\<lambda>r. [g r]) K)"
  obtains rs where "distinct rs" and "set rs = {..<K}"
    and "forward_read csz nhosts locate env bt cl path buf offset sz nc failed draws =
      Some ((0, of_nat (\<Sum>r<K. length (rd r))),
        blits (map (\<lambda>r. (piece_start C o' r, rd r)) rs) (take (unat sz) buf) @ drop (unat sz) buf, failed)"
proof -
  let ?n = "unat sz"
  define f where "f = read_fan_out (of_nat k) (of_nat (k + K - 1)) (pairs_of k (\<lambda>r. [g r]) K)"
  note num = client_numbers [OF p, folded k_def K_def] and b = plain_rangeD [OF p]
  define inp where "inp = data_request csz nhosts path offset sz (of_nat k) (of_nat (k + K - 1)) f"
  have f: "f = fold (add_target set_bit64 (of_nat k) (of_nat (k + K - 1))) (pairs_of k (\<lambda>r. [g r]) K) no_fan_out"
    by (simp add: f_def read_fan_out_def)
  have ts: "distinct (targets f)" "set (targets f) = g ` {..<K}"
    unfolding f using fan_out_targets [of set_bit64] by (auto simp: snd_pairs_of)
  have valid: "valid_request csz k o' ?n (\<lambda>r. t = g r) (inp t) (bit_mine (inp t))" if "t \<in> set (targets f)" for t
    using data_request_valid [OF p, where tg = "\<lambda>r. [g r]" and setb = set_bit64 and t = t, folded K_def k_def,
        OF K _ set_bit64_eq, folded f] that
    by (simp add: inp_def o'_def)
  define w where "w = (\<lambda>r. (piece_start C o' r, rd r))"
  define rs where "rs = by_target (targets f) g K"
  have rs: "distinct rs" "set rs = {..<K}"
    using by_target_distinct [OF ts(1)] ts(2) by (auto simp: rs_def by_target_set)
  let ?sel = "\<lambda>t. filter (\<lambda>r. t = g r) [0..<K]"
  let ?rp = "\<lambda>t. read_piece C k o' ?n (daemon_storage env t) (cl t) path"
  have o': "o' < C" and n: "0 < ?n" using b by (simp_all add: o'_def C_def)
  have srv: "rpc_srv_read csz (daemon_storage env t) (daemon_env env t) bt (cl t) (inp t) c =
      (Some \<lparr>out_err = 0, out_io_size = of_nat (\<Sum>r\<leftarrow>?sel t. length (rd r))\<rparr>, blits (map w (?sel t)) c)"
    if t: "t \<in> set (targets f)" and c: "length c = ?n" for t c
  proof -
    have "?sel t \<noteq> []" using t ts(2) by (auto simp: filter_empty_conv)
    moreover have "healthy (daemon_env env t)" using net by (simp add: healthy_net_def)
    ultimately have eq: "rpc_srv_read csz (daemon_storage env t) (daemon_env env t) bt (cl t) (inp t) c =
      (Some \<lparr>out_err = 0, out_io_size = of_nat (\<Sum>r\<leftarrow>?sel t. length (?rp t r))\<rparr>,
       blits (map (\<lambda>r. (piece_start C o' r, ?rp t r)) (?sel t)) c)"
      using srv_read_eq [OF valid [OF t] bt _ c, of "daemon_env env t" True "daemon_storage env t" "cl t"]
      by (simp add: rpc_srv_read_def C_def o'_def K_def inp_def data_request_def)
    have rp: "map (\<lambda>r. length (?rp t r)) (?sel t) = map (\<lambda>r. length (rd r)) (?sel t)"
      "map (\<lambda>r. (piece_start C o' r, ?rp t r)) (?sel t) = map w (?sel t)"
      by (auto simp: w_def rd_def read_piece_def daemon_chunk_def)
    show ?thesis unfolding eq rp ..
  qed
  have "piece_start C o' r + length (rd r) \<le> ?n" if "r < K" for r
    using piece_end_le [OF o' n, of r] that by (simp add: rd_def K_def C_def o'_def)
  then have fit: "blits_fit (map w (?sel t)) ?n" for t by (simp add: blits_fit_def list_all_iff w_def)
  have "post_reads csz env bt cl inp (targets f) (take ?n buf) =
    (False, map (\<lambda>t. Some \<lparr>out_err = 0, out_io_size = of_nat (\<Sum>r\<leftarrow>?sel t. length (rd r))\<rparr>) (targets f),
     blits (concat (map (\<lambda>t. map w (?sel t)) (targets f))) (take ?n buf))"
    by (rule post_reads_ok [OF net srv fit]) (use buf in simp_all)
  moreover have "concat (map (\<lambda>t. map w (?sel t)) (targets f)) = map w rs"
    by (simp add: rs_def by_target_def map_concat comp_def)
  moreover have "(\<Sum>t\<leftarrow>targets f. \<Sum>r\<leftarrow>?sel t. length (rd r)) = (\<Sum>r<K. length (rd r))"
    unfolding by_target_sum [where g = g and K = K] rs_def [symmetric] by (rule sum_upto_list [OF rs])
  ultimately have "forward_read csz nhosts locate env bt cl path buf offset sz nc failed draws =
      Some ((0, of_nat (\<Sum>r<K. length (rd r))), blits (map w rs) (take ?n buf) @ drop ?n buf, failed)"
    unfolding forward_read_def Let_def num(1,2) pairs option.case f_def [symmetric] inp_def [symmetric]
    using net by (simp add: gather_reads_ok healthy_net_def)
  then show thesis using that [OF rs] unfolding w_def by blast
qed

section \<open>The read of the file\<close>

lemma pieces_apart:
  assumes o': "o' < C" and n: "0 < n" and K: "r < piece_count C o' n" "s < piece_count C o' n" and ne: "r \<noteq> s"
    and len: "length x \<le> piece_size C o' n r" "length y \<le> piece_size C o' n s"
  shows "apart (piece_start C o' r, x) (piece_start C o' s, y)"
  using piece_starts_mono [OF o' n _ K(2), of r] piece_starts_mono [OF o' n _ K(1), of s] ne len
  by (cases "r < s") (auto simp: apart_def)

lemma piece_blits_fit:
  assumes "o' < C" and "0 < n" and len: "\<And>r. length (rd r) \<le> piece_size C o' n r"
    and "set rs \<subseteq> {..<piece_count C o' n}"
  shows "blits_fit (map (\<lambda>r. (piece_start C o' r, rd r)) rs) n"
  using piece_end_le [OF assms(1,2)] assms(4)
  by (auto simp: blits_fit_def list_all_iff intro: order.trans [OF add_left_mono [OF len]])

lemma nth_piece_blits:
  assumes o': "o' < C" and b: "length b = n" and rs: "distinct rs" "set rs = {..<piece_count C o' n}"
    and len: "\<And>r. length (rd r) \<le> piece_size C o' n r" and j: "j < n"
  shows "blits (map (\<lambda>r. (piece_start C o' r, rd r)) rs) b ! j =
    (let r = (o' + j) div C; x = j - piece_start C o' r in if x < length (rd r) then rd r ! x else b ! j)"
proof -
  let ?w = "\<lambda>r. (piece_start C o' r, rd r)" and ?r = "(o' + j) div C"
  have n: "0 < n" using j by simp
  note pb = piece_of_byte [OF o' j]
  have fit: "blits_fit (map ?w rs) (length b)" using piece_blits_fit [OF o' n len] rs(2) b by simp
  have apart: "sorted_wrt apart (map ?w rs)"
    using rs(2) by (intro sorted_wrt_order [OF rs(1)] pieces_apart [OF o' n] len) auto
  show ?thesis
  proof (cases "j - piece_start C o' ?r < length (rd ?r)")
    case True
    have "?w ?r \<in> set (map ?w rs)" using pb(1) rs(2) by auto
    then show ?thesis using nth_blits_inside [OF fit apart, of _ _ j] True pb(2) by (simp add: Let_def)
  next
    case False
    have "j < p \<or> p + length d \<le> j" if pd: "(p, d) \<in> set (map ?w rs)" for p d
    proof -
      obtain r where r: "r < piece_count C o' n" "p = piece_start C o' r" "d = rd r" using pd rs(2) by auto
      show ?thesis
      proof (rule ccontr)
        assume a: "\<not> ?thesis"
        then have "j < piece_start C o' r + piece_size C o' n r" using len [of r] r by simp
        then have "r = ?r"
          using a r piece_starts_mono [OF o' n, of r ?r] piece_starts_mono [OF o' n, of ?r r] pb
          by (cases r ?r rule: linorder_cases) auto
        then show False using a r False by auto
      qed
    qed
    then show ?thesis using nth_blits_outside [OF fit, of j] b j False by (simp add: Let_def)
  qed
qed

lemma piece_of_position:
  assumes o': "o' < C" and n: "0 < n" and r: "r < piece_count C o' n"
    and j: "piece_start C o' r \<le> j" "j < piece_start C o' r + piece_size C o' n r"
  shows "(o' + j) div C = r"
proof (rule piece_position(1) [OF o', of r "piece_off o' r + (j - piece_start C o' r)"])
  show "piece_off o' r + (j - piece_start C o' r) < C" using piece_fits_chunk [OF o' n r] j by linarith
qed (use j in auto)

text \<open>The bytes that exist, counted by position and by piece.\<close>

lemma card_pieces:
  assumes o': "o' < C" and n: "0 < n" and len: "\<And>r. length (rd r) \<le> piece_size C o' n r"
  shows "card {j. j < n \<and> j - piece_start C o' ((o' + j) div C) < length (rd ((o' + j) div C))} =
    (\<Sum>r<piece_count C o' n. length (rd r))"
proof -
  let ?I = "\<lambda>r. {piece_start C o' r..<piece_start C o' r + length (rd r)}"
  have at: "(o' + j) div C = r \<and> j < n" if "r < piece_count C o' n" "j \<in> ?I r" for r j
    using that len [of r] piece_of_position [OF o' n that(1), of j] piece_end_le [OF o' n that(1)]
    by auto
  have "{j. j < n \<and> j - piece_start C o' ((o' + j) div C) < length (rd ((o' + j) div C))} =
      (\<Union>r \<in> {..<piece_count C o' n}. ?I r)" (is "?A = ?B")
  proof (intro equalityI subsetI)
    fix j assume j: "j \<in> ?A"
    then show "j \<in> ?B"
      using piece_of_byte [OF o', of j n] by (intro UN_I [of "(o' + j) div C"]) auto
  next
    fix j assume "j \<in> ?B"
    then obtain r where r: "r < piece_count C o' n" "j \<in> ?I r" by blast
    have "j - piece_start C o' r < length (rd r)" using r(2) by auto
    then show "j \<in> ?A" using at [OF r] by simp
  qed
  moreover have "card ?B = (\<Sum>r \<in> {..<piece_count C o' n}. card (?I r))"
  proof (rule card_UN_disjoint)
    show "\<forall>r \<in> {..<piece_count C o' n}. \<forall>s \<in> {..<piece_count C o' n}. r \<noteq> s \<longrightarrow> ?I r \<inter> ?I s = {}"
      using at by blast
  qed simp_all
  ultimately show ?thesis by simp
qed

text \<open>
  Every existing byte of the range arrives at its place; the rest of the buffer keeps what it had.
\<close>

lemma forward_read_bytes:
  fixes csz offset sz :: u64
  defines "k \<equiv> unat offset div unat csz" and "K \<equiv> range_pieces csz offset sz"
  assumes p: "plain_range csz offset sz" and K: "K \<le> 65536" and bt: "bulk_copies bt"
    and net: "healthy_net env" and buf: "unat sz \<le> length buf"
    and pairs: "read_pairs locate path nc failed draws (chunk_range (of_nat k) (of_nat (k + K - 1))) =
      Some (pairs_of k (\<lambda>r. [g r]) K)"
    and fr: "forward_read csz nhosts locate env bt cl path buf offset sz nc failed draws = Some (res, buf', failed')"
  shows "fst res = 0" and "failed' = failed" and "length buf' = length buf"
    and "unat sz \<le> j \<Longrightarrow> buf' ! j = buf ! j"
    and "j < unat sz \<Longrightarrow> buf' ! j =
      (let c = (unat offset + j) div unat csz; x = (unat offset + j) mod unat csz;
           d = daemon_chunk env cl (g (c - k)) path (of_nat c)
       in if x < length d then d ! x else buf ! j)"
    and "snd res = of_nat (card {j. j < unat sz \<and>
      (let c = (unat offset + j) div unat csz; x = (unat offset + j) mod unat csz
       in x < length (daemon_chunk env cl (g (c - k)) path (of_nat c)))})"
proof -
  define C o' n where "C = unat csz" and "o' = unat offset mod unat csz" and "n = unat sz"
  define rd where "rd = (\<lambda>r. pread_bytes (daemon_chunk env cl (g r) path (of_nat (k + r))) (piece_off o' r) (piece_size C o' n r))"
  note b = plain_rangeD [OF p]
  obtain rs where rs: "distinct rs" "set rs = {..<K}"
    and eq: "forward_read csz nhosts locate env bt cl path buf offset sz nc failed draws =
      Some ((0, of_nat (\<Sum>r<K. length (rd r))),
        blits (map (\<lambda>r. (piece_start C o' r, rd r)) rs) (take (unat sz) buf) @ drop (unat sz) buf, failed)"
    unfolding rd_def C_def o'_def n_def k_def K_def
    by (rule forward_read_cluster [OF p K [unfolded K_def] bt net buf pairs [unfolded k_def K_def]])
  let ?b = "blits (map (\<lambda>r. (piece_start C o' r, rd r)) rs) (take n buf)"
  have o': "o' < C" using b by (simp add: o'_def C_def)
  have buf': "buf' = ?b @ drop n buf" "fst res = 0" "failed' = failed" using fr eq by (auto simp: n_def)
  show "fst res = 0" "failed' = failed" using buf' by simp_all
  have len: "length (rd r) \<le> piece_size C o' n r" for r by (simp add: rd_def)
  have tn: "length (take n buf) = n" using buf by (simp add: n_def)
  have rsK: "set rs = {..<piece_count C o' n}" using rs(2) by (simp add: K_def C_def o'_def n_def)
  have "0 < n" using b by (simp add: n_def)
  then have lb: "length ?b = n" using piece_blits_fit [OF o' _ len] rsK tn by (simp add: length_blits)
  show "length buf' = length buf" using lb tn by (simp add: buf' n_def)
  show "buf' ! j = buf ! j" if "unat sz \<le> j"
    using that lb buf by (simp add: buf'(1) nth_append n_def)
  have off: "unat offset = k * C + o'" by (simp add: k_def C_def o'_def)
  have c: "(unat offset + j) div C = k + (o' + j) div C" "(unat offset + j) mod C = (o' + j) mod C" for j
    using o' by (simp_all add: off add.assoc)
  have inside: "j - piece_start C o' r < length (rd r) \<longleftrightarrow>
      (o' + j) mod C < length (daemon_chunk env cl (g r) path (of_nat (k + r)))"
    if "j < n" "r = (o' + j) div C" for j r
  proof -
    note pb = piece_of_byte [OF o' that(1), folded that(2)]
    have "j - piece_start C o' r < piece_size C o' n r" using pb(2,3) by linarith
    then show ?thesis unfolding pb(4) [symmetric] by (simp add: rd_def less_diff_conv2 less_diff_conv) linarith
  qed
  have card: "card {j. j < n \<and> j - piece_start C o' ((o' + j) div C) < length (rd ((o' + j) div C))} =
      (\<Sum>r<K. length (rd r))"
    using card_pieces [where rd = rd, OF o' \<open>0 < n\<close> len] by (simp add: K_def C_def o'_def n_def)
  have positions: "{j. j < n \<and> j - piece_start C o' ((o' + j) div C) < length (rd ((o' + j) div C))} =
      {j. j < unat sz \<and> (let c = (unat offset + j) div unat csz; x = (unat offset + j) mod unat csz
       in x < length (daemon_chunk env cl (g (c - k)) path (of_nat c)))}"
    unfolding C_def [symmetric] n_def [symmetric] c Let_def add_diff_cancel_left' using inside by blast
  have "snd res = of_nat (\<Sum>r<K. length (rd r))" using fr unfolding eq by auto
  then show "snd res = of_nat (card {j. j < unat sz \<and>
      (let c = (unat offset + j) div unat csz; x = (unat offset + j) mod unat csz
       in x < length (daemon_chunk env cl (g (c - k)) path (of_nat c)))})"
    unfolding positions [symmetric] card .
  show "buf' ! j = (let c = (unat offset + j) div unat csz; x = (unat offset + j) mod unat csz;
           d = daemon_chunk env cl (g (c - k)) path (of_nat c)
       in if x < length d then d ! x else buf ! j)" if "j < unat sz"
  proof -
    have j: "j < n" using that by (simp add: n_def)
    define r where "r = (o' + j) div C"
    note pb = piece_of_byte [OF o' j, folded r_def]
    let ?d = "daemon_chunk env cl (g r) path (of_nat (k + r))" and ?x = "j - piece_start C o' r"
    have "?x < length (rd r) \<longleftrightarrow> (o' + j) mod C < length ?d" by (rule inside [OF j r_def])
    moreover have "rd r ! ?x = ?d ! ((o' + j) mod C)" if "?x < length (rd r)"
      using that pb(4) nth_pread by (simp add: rd_def)
    moreover have "?b ! j = (if ?x < length (rd r) then rd r ! ?x else buf ! j)"
      using nth_piece_blits [OF o' tn rs(1) rsK len j] j by (simp add: Let_def r_def)
    ultimately show ?thesis
      using lb j by (simp add: buf'(1) nth_append C_def [symmetric] c r_def [symmetric])
  qed
qed

section \<open>Reading what was written\<close>

text \<open>The chunks of a range hold the pieces of a buffer on every host of their copies.\<close>

definition holds_range ::
    "u64 \<Rightarrow> rpc_env \<Rightarrow> cluster \<Rightarrow> (u64 \<Rightarrow> u64 list) \<Rightarrow> string \<Rightarrow> u64 \<Rightarrow> u64 \<Rightarrow> bytes \<Rightarrow> bool" where
  "holds_range csz env cl hosts path offset sz buf \<longleftrightarrow>
     (let C = unat csz; k = unat offset div C; o' = unat offset mod C
      in \<forall>r < range_pieces csz offset sz. \<forall>h \<in> set (hosts (of_nat (k + r))).
           pread_bytes (daemon_chunk env cl h path (of_nat (k + r))) (piece_off o' r) (piece_size C o' (unat sz) r) =
             piece C o' (unat sz) buf r)"

lemma holds_range_Un:
  assumes "holds_range csz env cl f path offset sz buf" and "holds_range csz env cl g path offset sz buf"
    and "\<And>c. set (h c) \<subseteq> set (f c) \<union> set (g c)"
  shows "holds_range csz env cl h path offset sz buf"
  using assms unfolding holds_range_def Let_def by blast

lemma forward_write_holds:
  assumes p: "plain_range csz offset sz" and K: "range_pieces csz offset sz \<le> 65536" and bt: "bulk_copies bt"
    and net: "healthy_net env" and buf: "unat sz \<le> length buf" and apart: "replicas_apart locate path nc"
    and fw: "forward_write csz nhosts locate env bt cl path buf offset sz nc = (res, cl')"
  shows "holds_range csz env cl' (chunk_hosts locate path nc) path offset sz buf"
  unfolding holds_range_def Let_def
proof (intro allI impI ballI)
  fix r h assume r: "r < range_pieces csz offset sz"
    and h: "h \<in> set (chunk_hosts locate path nc (of_nat (unat offset div unat csz + r)))"
  note b = plain_rangeD [OF p]
  have "length (piece (unat csz) (unat offset mod unat csz) (unat sz) buf r) =
      piece_size (unat csz) (unat offset mod unat csz) (unat sz) r"
    using b r buf by (intro length_piece) auto
  then show "pread_bytes (daemon_chunk env cl' h path (of_nat (unat offset div unat csz + r)))
       (piece_off (unat offset mod unat csz) r) (piece_size (unat csz) (unat offset mod unat csz) (unat sz) r) =
      piece (unat csz) (unat offset mod unat csz) (unat sz) buf r"
    using pread_pwrite forward_write_cluster(2) [OF p K bt net buf apart fw r h] by metis
qed

text \<open>A second write of the same data, to further copies, keeps what the first one wrote.\<close>

lemma forward_write_keeps:
  assumes p: "plain_range csz offset sz" and K: "range_pieces csz offset sz \<le> 65536" and bt: "bulk_copies bt"
    and net: "healthy_net env" and buf: "unat sz \<le> length buf" and apart: "replicas_apart locate path nc"
    and fw: "forward_write csz nhosts locate env bt cl path buf offset sz nc = (res, cl')"
    and holds: "holds_range csz env cl hosts path offset sz buf"
  shows "holds_range csz env cl' hosts path offset sz buf"
  unfolding holds_range_def Let_def
proof (intro allI impI ballI)
  let ?k = "unat offset div unat csz" and ?o = "unat offset mod unat csz"
  note b = plain_rangeD [OF p]
  fix r h assume r: "r < range_pieces csz offset sz" and h: "h \<in> set (hosts (of_nat (?k + r)))"
  show "pread_bytes (daemon_chunk env cl' h path (of_nat (?k + r))) (piece_off ?o r) (piece_size (unat csz) ?o (unat sz) r) =
      piece (unat csz) ?o (unat sz) buf r"
  proof (cases "h \<in> set (chunk_hosts locate path nc (of_nat (?k + r)))")
    case True
    then show ?thesis
      using forward_write_holds [OF p K bt net buf apart fw] r unfolding holds_range_def Let_def by blast
  next
    case False
    then have "daemon_chunk env cl' h path (of_nat (?k + r)) = daemon_chunk env cl h path (of_nat (?k + r))"
      by (intro forward_write_cluster(3) [OF p K bt net buf apart fw])
    then show ?thesis using holds r h unfolding holds_range_def Let_def by simp
  qed
qed

lemma blits_pieces:
  assumes o': "o' < C" and n: "0 < n" and b: "length b = n" "n \<le> length buf"
    and rs: "distinct rs" "set rs = {..<piece_count C o' n}"
  shows "blits (map (\<lambda>r. (piece_start C o' r, piece C o' n buf r)) rs) b = take n buf"
proof (rule nth_equalityI)
  have len: "length (piece C o' n buf r) \<le> piece_size C o' n r" for r by (simp add: piece_def)
  note fit = piece_blits_fit [where rd = "piece C o' n buf", OF o' n len, of rs]
  show leq: "length (blits (map (\<lambda>r. (piece_start C o' r, piece C o' n buf r)) rs) b) = length (take n buf)"
    using fit rs(2) b by (simp add: length_blits)
  fix j assume "j < length (blits (map (\<lambda>r. (piece_start C o' r, piece C o' n buf r)) rs) b)"
  then have j: "j < n" using leq b by simp
  note pb = piece_of_byte [OF o' j]
  have "j - piece_start C o' ((o' + j) div C) < piece_size C o' n ((o' + j) div C)" using pb(2,3) by linarith
  then show "blits (map (\<lambda>r. (piece_start C o' r, piece C o' n buf r)) rs) b ! j = take n buf ! j"
    using nth_piece_blits [where rd = "piece C o' n buf", OF o' b(1) rs len j] j
      length_piece [OF o' n pb(1) b(2)] nth_piece [OF b(2) pb(2,3) o' n pb(1)]
    by (simp add: Let_def)
qed

text \<open>The replicas a read chooses from.\<close>

lemma forward_read_targets:
  fixes csz offset sz :: u64
  defines "k \<equiv> unat offset div unat csz" and "K \<equiv> range_pieces csz offset sz"
  assumes p: "plain_range csz offset sz"
    and fr: "forward_read csz nhosts locate env bt cl path dst offset sz nc failed draws = Some z"
  obtains g where "read_pairs locate path nc failed draws (chunk_range (of_nat k) (of_nat (k + K - 1))) =
      Some (pairs_of k (\<lambda>r. [g r]) K)"
    and "\<And>r. r < K \<Longrightarrow> g r \<in> set (all_copies locate path nc (of_nat (k + r)))"
proof -
  note num = client_numbers [OF p, folded k_def K_def]
  have K: "0 < K" by (simp add: K_def piece_count_def)
  have kK: "k + K < 2 ^ 64" using range_pieces_end(3) [OF p] by (simp add: k_def K_def)
  note cr = chunk_range_upt [OF K kK]
  obtain pairs where pairs: "read_pairs locate path nc failed draws (map (\<lambda>r. of_nat (k + r)) [0..<K]) = Some pairs"
    using fr unfolding forward_read_def Let_def num(1,2) cr by (auto split: option.splits)
  obtain g where "pairs = map (\<lambda>r. (of_nat (k + r), g r)) [0..<K]"
    "\<forall>r \<in> set [0..<K]. g r \<in> set (all_copies locate path nc (of_nat (k + r)))"
    using read_pairs_targets [OF pairs] by auto
  then show thesis using that [of g] pairs unfolding cr by (simp add: pairs_of_def comp_def)
qed

lemma forward_read_holds:
  assumes p: "plain_range csz offset sz" and K: "range_pieces csz offset sz \<le> 65536" and bt: "bulk_copies bt"
    and net: "healthy_net env" and buf: "unat sz \<le> length buf" "unat sz \<le> length dst"
    and holds: "holds_range csz env cl (all_copies locate path nc) path offset sz buf"
    and fr: "forward_read csz nhosts locate env bt cl path dst offset sz nc failed draws = Some (res, dst', failed')"
  shows "res = (0, sz)" and "dst' = take (unat sz) buf @ drop (unat sz) dst" and "failed' = failed"
proof -
  define C k o' n where "C = unat csz" and "k = unat offset div unat csz"
    and "o' = unat offset mod unat csz" and "n = unat sz"
  note b = plain_rangeD [OF p]
  have o': "o' < C" and n: "0 < n" using b by (simp_all add: o'_def C_def n_def)
  obtain g where pairs: "read_pairs locate path nc failed draws
       (chunk_range (of_nat k) (of_nat (k + range_pieces csz offset sz - 1))) =
      Some (pairs_of k (\<lambda>r. [g r]) (range_pieces csz offset sz))"
    and g: "\<And>r. r < range_pieces csz offset sz \<Longrightarrow> g r \<in> set (all_copies locate path nc (of_nat (k + r)))"
    unfolding k_def using forward_read_targets [OF p fr, of thesis] by blast
  define rd where "rd = (\<lambda>r. pread_bytes (daemon_chunk env cl (g r) path (of_nat (k + r))) (piece_off o' r) (piece_size C o' n r))"
  obtain rs where rs: "distinct rs" "set rs = {..<range_pieces csz offset sz}"
    and eq: "forward_read csz nhosts locate env bt cl path dst offset sz nc failed draws =
      Some ((0, of_nat (\<Sum>r<range_pieces csz offset sz. length (rd r))),
        blits (map (\<lambda>r. (piece_start C o' r, rd r)) rs) (take n dst) @ drop n dst, failed)"
    unfolding rd_def C_def o'_def n_def k_def
    by (rule forward_read_cluster [OF p K bt net buf(2) pairs [unfolded k_def]])
  have rd: "rd r = piece C o' n buf r" if "r < piece_count C o' n" for r
    using holds g [of r] that unfolding holds_range_def Let_def rd_def C_def o'_def n_def k_def by blast
  have rsK: "set rs = {..<piece_count C o' n}" using rs(2) by (simp add: C_def o'_def n_def)
  have pieces: "map (\<lambda>r. (piece_start C o' r, rd r)) rs = map (\<lambda>r. (piece_start C o' r, piece C o' n buf r)) rs"
    using rd rsK by simp
  have "blits (map (\<lambda>r. (piece_start C o' r, rd r)) rs) (take n dst) = take n buf"
    unfolding pieces using blits_pieces [OF o' n _ _ rs(1) rsK, of "take n dst" buf] buf by (simp add: n_def)
  moreover have "(\<Sum>r<piece_count C o' n. length (rd r)) = n"
    using sum_piece_size [OF o' n] length_piece [OF o' n] buf(1) rd by (simp add: n_def)
  ultimately show "res = (0, sz)" "dst' = take (unat sz) buf @ drop (unat sz) dst" "failed' = failed"
    using fr eq by (auto simp: n_def C_def o'_def)
qed

lemma forward_read_some:
  assumes "read_pairs locate path nc failed draws (chunk_range (block_index offset csz)
      (block_index (offset + sz - 1) csz)) = Some pairs"
  obtains res dst' failed' where
    "forward_read csz nhosts locate env bt cl path dst offset sz nc failed draws = Some (res, dst', failed')"
proof -
  have "forward_read csz nhosts locate env bt cl path dst offset sz nc failed draws \<noteq> None"
    using assms by (auto simp: forward_read_def Let_def split: prod.splits)
  then show thesis using that by auto
qed

lemma read_pairs_some:
  assumes "\<And>c. c \<in> set cs \<Longrightarrow> read_target locate path nc failed draws c \<noteq> None"
  shows "\<exists>pairs. read_pairs locate path nc failed draws cs = Some pairs"
  using assms by (induction cs) (auto split: option.splits)

lemma read_target_some:
  assumes "rnd \<in> set (draws c)" and "ucast (locate path (ucast c) (int (rnd mod nc))) \<notin> set failed"
  shows "read_target locate path nc failed draws c \<noteq> None"
  using other_replica_ends [of rnd "draws c" locate path c nc failed "locate path (ucast c) 0"] assms
  by (auto simp: read_target_def Let_def)

text \<open>The two writes of a replicated file leave the data on every host of every copy.\<close>

lemma replicated_write_holds:
  assumes p: "plain_range csz offset sz" and K: "range_pieces csz offset sz \<le> 65536" and bt: "bulk_copies bt"
    and net: "healthy_net env" and buf: "unat sz \<le> length buf" and apart: "replicas_apart locate path nc"
    and w1: "forward_write csz nhosts locate env bt cl path buf offset sz 0 = (r1, cl1)"
    and w2: "forward_write csz nhosts locate env bt cl1 path buf offset sz nc = (r2, cl2)"
  shows "holds_range csz env cl2 (all_copies locate path nc) path offset sz buf"
proof (rule holds_range_Un)
  have "holds_range csz env cl1 (chunk_hosts locate path 0) path offset sz buf"
    by (rule forward_write_holds [OF p K bt net buf _ w1]) simp
  then show "holds_range csz env cl2 (chunk_hosts locate path 0) path offset sz buf"
    by (rule forward_write_keeps [OF p K bt net buf apart w2])
  show "holds_range csz env cl2 (chunk_hosts locate path nc) path offset sz buf"
    by (rule forward_write_holds [OF p K bt net buf apart w2])
qed (simp add: all_copies_split)

lemma single_write_holds:
  assumes "plain_range csz offset sz" and "range_pieces csz offset sz \<le> 65536" and "bulk_copies bt"
    and "healthy_net env" and "unat sz \<le> length buf"
    and "forward_write csz nhosts locate env bt cl path buf offset sz 0 = (r1, cl1)"
  shows "holds_range csz env cl1 (all_copies locate path 0) path offset sz buf"
proof (rule holds_range_Un)
  show "holds_range csz env cl1 (chunk_hosts locate path 0) path offset sz buf"
    by (rule forward_write_holds [OF assms(1-5) _ assms(6)]) simp
  then show "holds_range csz env cl1 (chunk_hosts locate path 0) path offset sz buf" .
qed (simp add: all_copies_split)

text \<open>A read that starts at the first copies finds what the hosts hold.\<close>

lemma held_range_read:
  assumes "plain_range csz offset sz" and "range_pieces csz offset sz \<le> 65536"
    and "bulk_copies bt" and "healthy_net env" and "unat sz \<le> length buf" and "unat sz \<le> length dst"
    and "holds_range csz env cl (all_copies locate path nc) path offset sz buf"
    and "\<And>c. ucast (locate path c 0) \<notin> set failed"
  shows "forward_read csz nhosts locate env bt cl path dst offset sz nc failed draws =
    Some ((0, sz), take (unat sz) buf @ drop (unat sz) dst, failed)"
proof -
  have "read_pairs locate path nc failed draws (chunk_range (block_index offset csz)
      (block_index (offset + sz - 1) csz)) = Some (map (\<lambda>c. (c, host_of locate path c 0))
      (chunk_range (block_index offset csz) (block_index (offset + sz - 1) csz)))"
    using assms(8) by (intro read_pairs_first)
  then obtain res dst' failed' where
    r: "forward_read csz nhosts locate env bt cl path dst offset sz nc failed draws = Some (res, dst', failed')"
    by (rule forward_read_some)
  show ?thesis using forward_read_holds [OF assms(1-7) r] r by simp
qed

end
