(* ===== verification/Sample_Cluster.thy ===== *)
theory Sample_Cluster
  imports Read_Refinement
begin

text \<open>
  A concrete cluster on which the properties are evaluated: a bulk transfer that copies, daemons whose
  pools run their tasks backwards, and a placement that alternates between hosts and keeps the
  replicas of a chunk apart.
\<close>

definition sample_bulk :: bulk_transfer where
  "sample_bulk dst dpos src spos n = Some (blit dst (unat dpos) (take (unat n) (drop (unat spos) src)))"

definition sample_storage :: chunk_storage where
  "sample_storage = \<lparr>root_path = ''/data/chunks'', chunksize = 524288\<rparr>"

definition sample_abt :: abt_env where
  "sample_abt = \<lparr>create_ok = \<lambda>_. True, wait_ok = \<lambda>_. True, task_io = \<lambda>_. quiet_env,
     task_order = \<lambda>n. rev [0..<n], cancelled_after = []\<rparr>"

definition sample_srv :: srv_env where
  "sample_srv = \<lparr>get_input_ok = True, bulk_create_ok = True, bulk_access_ok = True, srv_abt = sample_abt\<rparr>"

definition sample_net :: rpc_env where
  "sample_net = \<lparr>expose_ok = True, post_ok = \<lambda>_. True, reply_ok = \<lambda>_. True, executed = \<lambda>_. False,
     daemon_env = \<lambda>_. sample_srv, daemon_trunc = \<lambda>_. \<lparr>trunc_err = None, unlink_err = \<lambda>_. None\<rparr>,
     daemon_storage = \<lambda>_. sample_storage\<rparr>"

text \<open>The same cluster, its pools running forwards and its system calls interrupted.\<close>

definition sample_abt' :: abt_env where
  "sample_abt' = \<lparr>create_ok = \<lambda>_. True, wait_ok = \<lambda>_. True,
     task_io = \<lambda>_. quiet_env\<lparr>io_events := [Failed EINTR, Transferred 1]\<rparr>,
     task_order = \<lambda>n. [0..<n], cancelled_after = []\<rparr>"

definition sample_net' :: rpc_env where
  "sample_net' = sample_net\<lparr>daemon_env := \<lambda>_. sample_srv\<lparr>srv_abt := sample_abt'\<rparr>\<rparr>"

definition sample_hosts :: locator where
  "sample_hosts path c k = c mod 2 + 2 * word_of_int k"

lemma sample_bulk_copies [simp]: "bulk_copies sample_bulk"
  by (simp add: bulk_copies_def sample_bulk_def)

lemma sample_srv_healthy [simp]: "healthy sample_srv"
  by (auto simp: healthy_def sample_srv_def sample_abt_def benign_env_def quiet_env_def)

lemma sample_net_healthy [simp]: "healthy_net sample_net"
  by (simp add: healthy_net_def sample_net_def)

lemma sample_net'_healthy [simp]: "healthy_net sample_net'"
  by (auto simp: healthy_net_def sample_net_def sample_net'_def healthy_def sample_srv_def sample_abt'_def
      benign_env_def quiet_env_def retryable_def)

lemma sample_net'_storage [simp]: "daemon_storage sample_net' = daemon_storage sample_net"
  by (simp add: sample_net'_def)

lemma ucast_host_inject: "ucast (a :: u32) = (ucast b :: u64) \<longleftrightarrow> a = b"
  unfolding word_unat_eq_iff unat_ucast_host ..

lemma sample_hosts_apart [simp]: "replicas_apart sample_hosts path 2"
  by (simp add: replicas_apart_def chunk_hosts_def copies_def host_of_def sample_hosts_def
      ucast_host_inject upt_rec)

lemma sample_range [simp]: "plain_range 524288 524280 16"
  "piece_count 524288 524280 16 = 2"
  by (simp_all add: plain_range_def is_power_of_2_def piece_count_def)

lemma sample_replica: "(ucast (sample_hosts path c 1) :: 8 word) \<noteq> 0"
  by (cases "odd c") (simp_all add: sample_hosts_def mod_2_eq_odd)

end
