(* ===== verification/Srv_Data_Safety.thy ===== *)
theory Srv_Data_Safety
  imports Srv_Data_Proofs
begin

text \<open>
  What the daemon keeps when things go wrong: whatever system calls, Argobots calls and bulk transfers
  fail, and wherever a handler is cut short, the chunk directories stay well formed. The states a
  daemon can reach through its handlers are an inductive set.
\<close>

section \<open>A write that may fail anywhere\<close>

text \<open>A bulk transfer may fail or deliver any bytes, but it does not resize the target buffer.\<close>

definition keeps_size :: "bulk_transfer \<Rightarrow> bool" where
  "keeps_size bt \<longleftrightarrow> (\<forall>dst dpos src spos n d. bt dst dpos src spos n = Some d \<longrightarrow> length d = length dst)"

definition loop_state :: "errno \<times> srv_state + srv_state \<Rightarrow> srv_state" where
  "loop_state r = (case r of Inl (_, st) \<Rightarrow> st | Inr st \<Rightarrow> st)"

lemma srv_write_loop_any:
  fixes csz :: u64 and o' n :: nat and sel :: "nat \<Rightarrow> bool"
  defines "C \<equiv> unat csz"
  defines "K \<equiv> piece_count C o' n"
  defines "S \<equiv> sel_bytes C o' n sel"
  assumes v: "valid_request csz k o' n sel inp mine" and bt: "keeps_size bt" and n: "length cbuf = n"
    and j: "j \<le> K" and at: "at_piece C k o' n sel j st" and len: "length (bulk_buf st) = S K"
  shows "\<exists>j' \<le> K. srv_tasks (loop_state (srv_write_loop csz bt abt inp mine cbuf
        (map (\<lambda>r. of_nat (k + r)) [j..<K]) st)) = map (sel_task C k o' n sel) (filter sel [0..<j'])"
    and "length (bulk_buf (loop_state (srv_write_loop csz bt abt inp mine cbuf
        (map (\<lambda>r. of_nat (k + r)) [j..<K]) st))) = S K"
proof -
  let ?run = "\<lambda>j st. loop_state (srv_write_loop csz bt abt inp mine cbuf (map (\<lambda>r. of_nat (k + r)) [j..<K]) st)"
  let ?P = "\<lambda>st'. (\<exists>j' \<le> K. srv_tasks st' = map (sel_task C k o' n sel) (filter sel [0..<j'])) \<and>
    length (bulk_buf st') = S K"
  have stop: "?P st" if "j \<le> K" "at_piece C k o' n sel j st" "length (bulk_buf st) = S K" for j st
    using that by (auto simp: at_piece_def Let_def)
  have "?P (?run j st)"
    using j at len
  proof (induction j arbitrary: st rule: inc_induct)
    case base
    then show ?case using stop [of K st] by (simp add: loop_state_def)
  next
    case (step j)
    have up: "[j..<K] = j # [Suc j..<K]" using step(2) by (rule upt_conv_Cons)
    have mine: "mine (of_nat (k + j)) = sel j" using valid_requestD(10) [OF v] step(2) by (simp add: K_def C_def)
    have here: "?P st" using stop [OF _ step.prems] step(2) by simp
    show ?case
    proof (cases "chnk_id_curr st < in_chunk_n inp \<and> sel j")
      case False
      then show ?thesis
        using here step.IH [OF at_piece_skip [OF step.prems(1)] step.prems(2)] step(2) mine
        unfolding up by (auto simp: loop_state_def K_def)
    next
      case True
      obtain sz os lo ts where plan: "plan_chunk csz inp (of_nat (length cbuf)) st (of_nat (k + j)) = (sz, os, lo, ts)"
        by (metis surj_pair)
      have next_at: "at_piece C k o' n sel (Suc j)
          (advance inp (of_nat (k + j)) (sz, os, lo, ts) buf st)" for buf
        using at_piece_step [OF v step.prems(1) [unfolded C_def]] step(2) True plan n
        by (auto simp: C_def K_def)
      have bb: "bulk_buf (advance inp i p buf st) = buf" for i p buf
        by (simp add: advance_def split: prod.splits)
      show ?thesis
      proof (cases "bt (bulk_buf st) lo cbuf os sz")
        case None
        then show ?thesis using True mine here unfolding up by (simp add: plan [unfolded of_nat_add] loop_state_def)
      next
        case (Some buf)
        then have buf: "length buf = S K" using bt step.prems(2) unfolding keeps_size_def by metis
        then show ?thesis
          using True mine here Some step.IH [OF next_at [of buf]]
          unfolding up by (auto simp: plan [unfolded of_nat_add] loop_state_def bb)
      qed
    qed
  qed
  then show "\<exists>j' \<le> K. srv_tasks (?run j st) = map (sel_task C k o' n sel) (filter sel [0..<j'])"
    "length (bulk_buf (?run j st)) = S K" by blast+
qed

lemma wf_run_write_tasks:
  assumes "wf_fs cs fs"
    and "\<And>t. t \<in> set tasks \<Longrightarrow> unat (task_pos t) + unat (task_size t) \<le> length buf \<and>
      unat (task_off t) + unat (task_size t) \<le> unat (chunksize cs)"
  shows "wf_fs cs (snd (run_write_tasks cs io p buf tasks order fs res))"
  using assms(1)
proof (induction order arbitrary: fs res)
  case (Cons i order)
  show ?case
  proof (cases "i < length tasks")
    case True
    let ?t = "tasks ! i"
    have "wf_fs cs (snd (write_file_abt cs (io i) fs p buf ?t))"
      using wf_fs_write_chunk [OF Cons.prems, of "unat (task_size ?t)" "drop (unat (task_pos ?t)) buf"
          "unat (task_off ?t)"] assms(2) [OF nth_mem [OF True]]
      by (auto simp: write_file_abt_def split: prod.splits sum.splits)
        (metis add.commute le_diff_conv2 add_leD1 snd_conv)+
    then show ?thesis using Cons.IH True by (auto simp: Let_def split: prod.splits)
  qed (use Cons in simp)
qed simp

lemma wf_srv_write:
  assumes v: "valid_request csz k o' n sel inp mine" and bt: "keeps_size bt" and n: "length cbuf = n"
    and cs: "chunksize cs = csz" and wf: "wf_fs cs fs"
  shows "wf_fs cs (snd (srv_write csz cs env bt mine fs inp cbuf))"
proof -
  let ?C = "unat csz" and ?K = "piece_count (unat csz) o' n" and ?S = "sel_bytes (unat csz) o' n sel"
  let ?r = "srv_write_loop csz bt (srv_abt env) inp mine cbuf
    (chunk_range (in_chunk_start inp) (in_chunk_end inp)) (srv_init csz inp (of_nat (length cbuf)))"
  note d = valid_requestD [OF v] and b = valid_bounds [OF v] and facts = sel_tasks_facts [OF v]
  have init: "length (bulk_buf (srv_init csz inp (of_nat (length cbuf)))) = ?S ?K"
    using d(9) b(4) by (simp add: srv_init_def unat_of_nat_small)
  have at: "at_piece ?C k o' n sel 0 (srv_init csz inp (of_nat (length cbuf)))"
    using at_piece_init [OF v] n by simp
  obtain j where j: "j \<le> ?K" "srv_tasks (loop_state ?r) = map (sel_task ?C k o' n sel) (filter sel [0..<j])"
    and len: "length (bulk_buf (loop_state ?r)) = ?S ?K"
    using srv_write_loop_any [OF v bt n _ at init, of "srv_abt env"] chunk_range_pieces [OF v] by auto
  have task: "unat (task_pos t) + unat (task_size t) \<le> length (bulk_buf (loop_state ?r)) \<and>
      unat (task_off t) + unat (task_size t) \<le> unat (chunksize cs)"
    if t: "t \<in> set (srv_tasks (loop_state ?r))" for t
  proof -
    obtain r where "r < j" and r': "sel r" "t = sel_task ?C k o' n sel r" using t j(2) by auto
    then have r: "r < ?K" "sel r" "t = sel_task ?C k o' n sel r" using j(1) by simp_all
    show ?thesis using facts(2-5) [OF r(1,2)] piece_fits_chunk [of o' ?C n r] d(1,2) r len cs by simp
  qed
  let ?run = "\<lambda>order. run_write_tasks cs (task_io (srv_abt env)) (in_path inp) (bulk_buf (loop_state ?r))
    (srv_tasks (loop_state ?r)) order fs Map.empty"
  have wf': "wf_fs cs (snd (?run order))" for order by (rule wf_run_write_tasks [OF wf task])
  show ?thesis
  proof (cases ?r)
    case (Inl e)
    then show ?thesis using wf wf' by (cases e) (simp add: srv_write_def Let_def loop_state_def)
  next
    case (Inr st)
    then have st: "loop_state ?r = st" by (simp add: loop_state_def)
    obtain res fs' where run: "?run (task_order (srv_abt env) (length (srv_tasks st))) = (res, fs')" by fastforce
    then have "wf_fs cs fs'" using wf' by (metis snd_conv)
    then show ?thesis using wf Inr run unfolding st by (simp add: srv_write_def Let_def split: prod.split)
  qed
qed

section \<open>Truncation\<close>

lemma wf_truncate_abt:
  assumes wf: "wf_fs cs fs" and csz: "chunksize cs = csz" "is_power_of_2 csz" "csz < 2 ^ 32"
  shows "wf_fs cs (snd (truncate_abt csz cs env fs p sz))"
proof -
  have trim: "wf_fs cs (snd (case trim_chunk_space cs (unlink_err env) fs1 p start of
      (None, fs2) \<Rightarrow> (0, fs2) | (Some x, fs2) \<Rightarrow> (exn_code x, fs2)))" if "wf_fs cs fs1" for fs1 start
    using wf_fs_trim_chunk_space [OF that, of "unlink_err env" p start]
    by (auto split: prod.splits option.splits)
  have "0 < unat csz" using csz(2) by (auto simp: is_power_of_2_def unat_gt_0)
  then have "unat (block_overrun sz csz) \<le> unat (chunksize cs)"
    using unat_block_overrun [OF csz(2)] csz by (simp add: less_imp_le)
  then have cut: "wf_fs cs (snd (truncate_chunk_file cs (trunc_err env) fs p i (unat (block_overrun sz csz))))" for i
    by (rule wf_fs_truncate_chunk_file [OF wf])
  obtain x fs1 where t: "truncate_chunk_file cs (trunc_err env) fs p (block_index sz csz)
      (unat (block_overrun sz csz)) = (x, fs1)" by fastforce
  have wf1: "wf_fs cs fs1" using cut t by (metis snd_conv)
  show ?thesis
    using trim [OF wf] trim [OF wf1] wf1 by (cases x) (simp_all add: truncate_abt_def Let_def t)
qed

lemma wf_rpc_srv_truncate:
  assumes "wf_fs cs fs" and "chunksize cs = csz" "is_power_of_2 csz" "csz < 2 ^ 32"
  shows "wf_fs cs (snd (rpc_srv_truncate csz cs env tenv fs p len))"
  using assms wf_truncate_abt [OF assms, of tenv p len]
  by (auto simp: rpc_srv_truncate_def truncate_and_wait_def split: prod.splits option.splits)

text \<open>
  A truncation without faults cuts the file at the byte: what this daemon holds below the new length
  stays, what it holds above is gone. The chunk the cut goes through has to exist.
\<close>

lemma canonical_dir_wf:
  assumes "wf_fs cs fs" and "fs (absolute cs (get_chunks_dir p)) \<noteq> None"
  shows "canonical_dir cs fs p"
  using assms by (fastforce simp: canonical_dir_def wf_fs_def wf_chunk_dir_def list_all_iff split: option.splits)

lemma truncate_abt_ok:
  assumes wf: "wf_fs cs fs" and cs: "chunksize cs = csz" and csz: "is_power_of_2 csz" "csz < 2 ^ 32"
    and dir: "fs (absolute cs (get_chunks_dir p)) \<noteq> None"
    and cut: "unat sz mod unat csz \<noteq> 0 \<Longrightarrow> chunk_content cs fs p (block_index sz csz) \<noteq> None"
    and env: "trunc_err env = None" "unlink_err env = (\<lambda>_. None)"
    and run: "truncate_abt csz cs env fs p sz = (err, fs')"
  shows "err = 0"
    and "chunk_content cs fs' q i =
      (if get_chunks_dir q \<noteq> get_chunks_dir p \<or> unat i < unat sz div unat csz then chunk_content cs fs q i
       else if unat i = unat sz div unat csz \<and> unat sz mod unat csz \<noteq> 0
       then map_option (\<lambda>c. truncate_bytes c (unat sz mod unat csz)) (chunk_content cs fs q i)
       else None)"
proof -
  note idx = unat_block_index [OF csz(1), of sz] and over = unat_block_overrun [OF csz(1), of sz]
  have pad: "block_overrun sz csz \<noteq> 0 \<longleftrightarrow> unat sz mod unat csz \<noteq> 0" using over by (metis unat_eq_0)
  let ?start = "block_index sz csz"
  have "err = 0 \<and> chunk_content cs fs' q i =
      (if get_chunks_dir q \<noteq> get_chunks_dir p \<or> unat i < unat sz div unat csz then chunk_content cs fs q i
       else if unat i = unat sz div unat csz \<and> unat sz mod unat csz \<noteq> 0
       then map_option (\<lambda>c. truncate_bytes c (unat sz mod unat csz)) (chunk_content cs fs q i)
       else None)"
  proof (cases "unat sz mod unat csz = 0")
    case True
    note t = trim_chunk_space_ok [OF canonical_dir_wf [OF wf dir], of ?start]
    obtain fs2 where eq: "trim_chunk_space cs (\<lambda>_. None) fs p ?start = (None, fs2)"
      using t(1) by (metis prod.collapse)
    have "err = 0" "fs' = fs2"
      using run pad True by (simp_all add: truncate_abt_def env Let_def eq)
    then show ?thesis using t(2) [of q i] True by (simp add: eq word_le_nat_alt idx)
  next
    case False
    obtain c where c: "chunk_content cs fs p ?start = Some c" using cut [OF False] by auto
    define fs1 where "fs1 = put_chunk cs fs p ?start (truncate_bytes c (unat sz mod unat csz))"
    have tc: "truncate_chunk_file cs None fs p ?start (unat (block_overrun sz csz)) = (None, fs1)"
      by (simp add: truncate_chunk_file_ok [OF c] over fs1_def)
    have "unat sz mod unat csz \<le> unat (chunksize cs)"
      using csz(1) cs by (auto simp: is_power_of_2_def unat_gt_0 intro: less_imp_le)
    then have wf1: "wf_fs cs fs1"
      using wf_fs_truncate_chunk_file [OF wf, of "unat (block_overrun sz csz)" None p ?start] tc over by simp
    have dir1: "fs1 (absolute cs (get_chunks_dir p)) \<noteq> None" by (simp add: fs1_def put_chunk_def Let_def)
    note t = trim_chunk_space_ok [OF canonical_dir_wf [OF wf1 dir1], of "?start + 1"]
    obtain fs2 where eq: "trim_chunk_space cs (\<lambda>_. None) fs1 p (?start + 1) = (None, fs2)"
      using t(1) by (metis prod.collapse)
    have res: "err = 0" "fs' = fs2"
      using run pad False by (simp_all add: truncate_abt_def env Let_def eq tc)
    have "0 < unat csz" using csz(1) by (auto simp: is_power_of_2_def unat_gt_0)
    moreover have "unat csz \<noteq> 1" using False by auto
    ultimately have "1 < unat csz" by linarith
    moreover have "0 < unat sz" using False by (cases "unat sz = 0") auto
    ultimately have "unat sz div unat csz < unat sz" by (rule div_less_dividend)
    then have "unat sz div unat csz < 2 ^ 64 - 1" using unat_u64_less [of sz] by linarith
    moreover have "?start + 1 = of_nat (Suc (unat sz div unat csz))" unfolding idx [symmetric] by simp
    ultimately have start1: "unat (?start + 1) = Suc (unat sz div unat csz)"
      using unat_of_nat_small [of "Suc (unat sz div unat csz)"] by (simp add: add.commute)
    have i: "i = ?start \<longleftrightarrow> unat i = unat sz div unat csz" by (simp add: word_unat_eq_iff idx)
    have same: "chunk_content cs fs q i = Some c" if "get_chunks_dir q = get_chunks_dir p" "i = ?start"
      using c that by (simp add: chunk_content_eq)
    show ?thesis
      using t(2) [of q i, unfolded eq snd_conv] same False
      unfolding res fs1_def chunk_content_put word_le_nat_alt start1 i by auto
  qed
  then show "err = 0" "chunk_content cs fs' q i =
      (if get_chunks_dir q \<noteq> get_chunks_dir p \<or> unat i < unat sz div unat csz then chunk_content cs fs q i
       else if unat i = unat sz div unat csz \<and> unat sz mod unat csz \<noteq> 0
       then map_option (\<lambda>c. truncate_bytes c (unat sz mod unat csz)) (chunk_content cs fs q i)
       else None)" by blast+
qed

lemma truncate_abt_bytes:
  assumes wf: "wf_fs cs fs" and cs: "chunksize cs = csz" and csz: "is_power_of_2 csz" "csz < 2 ^ 32"
    and dir: "fs (absolute cs (get_chunks_dir p)) \<noteq> None"
    and cut: "unat sz mod unat csz \<noteq> 0 \<Longrightarrow> chunk_content cs fs p (block_index sz csz) \<noteq> None"
    and env: "trunc_err env = None" "unlink_err env = (\<lambda>_. None)"
    and run: "truncate_abt csz cs env fs p sz = (err, fs')" and x: "x < unat csz"
  shows "byte0 (chunk_bytes cs fs' p i) x =
    (if unat i * unat csz + x < unat sz then byte0 (chunk_bytes cs fs p i) x else 0)"
proof -
  let ?C = "unat csz" and ?i = "unat i"
  note t = truncate_abt_ok(2) [OF wf cs csz dir cut env run, of p i]
  have sz: "unat sz = unat sz div ?C * ?C + unat sz mod ?C" by simp
  consider "?i < unat sz div ?C" | "?i = unat sz div ?C" | "unat sz div ?C < ?i" by linarith
  then show ?thesis
  proof cases
    case 1
    then have "(?i + 1) * ?C \<le> unat sz div ?C * ?C" by (intro mult_le_mono1) simp
    then have "(?i + 1) * ?C \<le> unat sz" by (rule order.trans) simp
    then have "?i * ?C + x < unat sz" using x by simp
    then show ?thesis using t 1 by (simp add: chunk_bytes_def)
  next
    case 2
    have "?i * ?C + x < unat sz \<longleftrightarrow> x < unat sz mod ?C" unfolding 2 using sz by linarith
    then show ?thesis
      using t 2 by (cases "chunk_content cs fs p i") (auto simp: chunk_bytes_def byte0_truncate byte0_def [of "[]"])
  next
    case 3
    then have "(unat sz div ?C + 1) * ?C \<le> ?i * ?C" by (intro mult_le_mono1) simp
    moreover have "unat sz mod ?C < ?C" using x by (intro mod_less_divisor) simp
    ultimately have "\<not> ?i * ?C + x < unat sz" using sz by (simp only: distrib_right)
    then show ?thesis using t 3 by (simp add: chunk_bytes_def byte0_def)
  qed
qed

section \<open>The states of a daemon\<close>

text \<open>
  The chunk directories of a daemon change through its handlers only: writes of clients and of proxies,
  truncations, and the removal of a file's chunks. Requests are the ones clients send; everything around
  the handlers may fail.
\<close>

inductive daemon_fs :: "u64 \<Rightarrow> chunk_storage \<Rightarrow> local_fs \<Rightarrow> bool" for csz cs where
  start: "daemon_fs csz cs Map.empty"
| client_write: "daemon_fs csz cs fs \<Longrightarrow> keeps_size bt \<Longrightarrow>
    valid_request csz k o' (length cbuf) sel inp (bit_mine inp) \<Longrightarrow>
    rpc_srv_write csz cs env bt fs inp cbuf = (out, fs') \<Longrightarrow> daemon_fs csz cs fs'"
| proxy_write: "daemon_fs csz cs fs \<Longrightarrow> keeps_size bt \<Longrightarrow>
    valid_request csz k o' (length cbuf) sel inp (located_here str_hash d inp) \<Longrightarrow>
    rpc_srv_proxy_write str_hash d csz cs env bt fs inp cbuf = (out, fs') \<Longrightarrow> daemon_fs csz cs fs'"
| truncate: "daemon_fs csz cs fs \<Longrightarrow>
    rpc_srv_truncate csz cs env tenv fs p len = (err, fs') \<Longrightarrow> daemon_fs csz cs fs'"
| remove: "daemon_fs csz cs fs \<Longrightarrow> destroy_chunk_space cs e fs p = (r, fs') \<Longrightarrow> daemon_fs csz cs fs'"

lemma daemon_fs_wf:
  assumes "daemon_fs csz cs fs" and cs: "chunksize cs = csz" "is_power_of_2 csz" "csz < 2 ^ 32"
  shows "wf_fs cs fs"
  using assms(1)
proof induction
  case start
  show ?case by (simp add: wf_fs_def)
next
  case (client_write fs bt k o' cbuf sel inp env out fs')
  then show ?case using wf_srv_write [OF client_write(3,2) refl cs(1), of fs env] by (simp add: rpc_srv_write_def)
next
  case (proxy_write fs bt k o' cbuf sel inp str_hash d env out fs')
  then show ?case using wf_srv_write [OF proxy_write(3,2) refl cs(1), of fs env] by (simp add: rpc_srv_proxy_write_def)
next
  case (truncate fs env tenv p len err fs')
  then show ?case using wf_rpc_srv_truncate [OF truncate(3) cs, of env tenv p len] by simp
next
  case (remove fs e p r fs')
  then show ?case using wf_fs_destroy_chunk_space [OF remove(3), of e p] by simp
qed

end
