(* ===== verification/Storage_Properties.thy ===== *)
theory Storage_Properties
  imports Sample_Cluster Srv_Data_Safety
begin

text \<open>
  Properties of the chunk store of a daemon, of the placement of chunks and of the error paths of the
  client's data requests.
\<close>

section \<open>The chunk store\<close>

text \<open>
  C19. Whatever sequence of writes, truncates and removes a daemon executes, with any failures of the
  file system, of bulk transfers and of the thread pool, its chunk directories contain only chunk files
  with distinct numerical names and at most one chunk size of data each. The write requests are the ones
  clients form (\<open>valid_request\<close>: the fields agree with a byte range cut into chunks and a selection of
  them), and a bulk transfer, if it succeeds, does not change the size of the buffer it fills
  (\<open>keeps_size\<close>); truncates and removes are arbitrary.
\<close>

theorem daemon_storage_invariant:
  assumes "daemon_fs csz cs fs" and "chunksize cs = csz" and "is_power_of_2 csz" and "csz < 2 ^ 32"
  shows "wf_fs cs fs"
  using assms by (rule daemon_fs_wf)

text \<open>A daemon that has executed the request of a client for one of the two chunks of a write.\<close>

definition sample_request :: data_in where
  "sample_request = data_request 524288 6 ''/f'' 524280 16 0 1 (write_fan_out sample_hosts ''/f'' 0 1 0) 1"

definition ranged_bulk :: bulk_transfer where
  "ranged_bulk dst dpos src spos n =
     (if unat spos + unat n \<le> length src \<and> unat dpos + unat n \<le> length dst then sample_bulk dst dpos src spos n
      else None)"

definition sample_written :: local_fs where
  "sample_written = snd (rpc_srv_write 524288 sample_storage sample_srv ranged_bulk Map.empty sample_request
     (replicate 16 7))"

lemma sample_request_valid:
  "valid_request 524288 0 524280 16 (\<lambda>r. 1 \<in> set (chunk_hosts sample_hosts ''/f'' 0 (of_nat r))) sample_request
     (bit_mine sample_request)"
proof -
  have "1 \<in> set (targets (write_fan_out sample_hosts ''/f'' 0 1 0))" by code_simp
  moreover have "replicas_apart sample_hosts ''/f'' 0"
    by (simp add: replicas_apart_def chunk_hosts_def copies_def)
  ultimately show ?thesis
    using write_request_valid [of 524288 524280 16 sample_hosts "''/f''" 0 1 6] by (simp add: sample_request_def)
qed

lemma sample_written_reached: "daemon_fs 524288 sample_storage sample_written"
proof -
  have "keeps_size ranged_bulk" by (auto simp: keeps_size_def ranged_bulk_def sample_bulk_def)
  then show ?thesis
    unfolding sample_written_def
    by (rule daemon_fs.client_write [OF daemon_fs.start _ _ prod.collapse [symmetric]])
      (use sample_request_valid in simp)
qed

lemma sample_written_bytes: "chunk_bytes sample_storage sample_written ''/f'' 1 = replicate 8 7"
proof -
  have "bulk_copies ranged_bulk" using sample_bulk_copies by (simp add: bulk_copies_def ranged_bulk_def)
  note eq = srv_write_eq(2) [OF sample_request_valid this sample_srv_healthy, of "replicate 16 7"
      sample_storage Map.empty 1]
  have "in_path sample_request = ''/f''" by (simp add: sample_request_def data_request_def)
  moreover have "filter (\<lambda>r. 1 \<in> set (chunk_hosts sample_hosts ''/f'' 0 (of_nat r))) [0..<2] = [1]" by code_simp
  ultimately show ?thesis
    using eq
    by (simp add: sample_written_def rpc_srv_write_def pwrite_bytes_def piece_off_def piece_def piece_size_def
        piece_start_def chunk_bytes_def chunk_content_eq)
qed

theorem daemon_storage_invariant_witness:
  "wf_fs sample_storage sample_written \<and> chunk_bytes sample_storage sample_written ''/f'' 1 = replicate 8 7"
  using daemon_storage_invariant [OF sample_written_reached] sample_written_bytes
  by (simp add: sample_storage_def is_power_of_2_def)

text \<open>
  C21. Writing a range within a chunk, with interrupted and short writes in between, touches no other
  chunk of any file, and what it leaves in its chunk is a prefix of the buffer at the given offset. It
  reports success only when all of it was written, and does report success when nothing but interruptions
  and short writes came in between.
\<close>

theorem write_chunk_outcome:
  assumes "sz \<le> length buf" and "off + sz \<le> unat (chunksize cs)"
  shows "same_elsewhere cs fs (snd (write_chunk cs env fs p i buf sz off)) p i \<and>
    (\<exists>n \<le> sz. chunk_bytes cs (snd (write_chunk cs env fs p i buf sz off)) p i =
        pwrite_bytes (chunk_bytes cs fs p i) off (take n buf) \<and>
      (\<forall>m. fst (write_chunk cs env fs p i buf sz off) = Inr m \<longrightarrow> m = sz \<and> n = sz)) \<and>
    (benign_env env \<longrightarrow> fst (write_chunk cs env fs p i buf sz off) = Inr sz)"
  using write_chunk_any [where cs = cs and env = env and fs = fs and p = p and i = i and off = off,
      OF assms(1) prod.collapse [symmetric]] write_chunk_ok [OF _ assms(1), of env cs fs p i off]
  by auto

theorem write_chunk_outcome_witness:
  "fst (write_chunk sample_storage (quiet_env\<lparr>io_events := [Failed EINTR, Transferred 1]\<rparr>) Map.empty ''/f'' 0 [1, 2, 3] 3 5) = Inr 3"
  using write_chunk_outcome [of 3 "[1, 2, 3]" 5 sample_storage Map.empty
      "quiet_env\<lparr>io_events := [Failed EINTR, Transferred 1]\<rparr>" "''/f''" 0]
  by (simp add: sample_storage_def benign_env_def quiet_env_def transient_def retryable_def)

text \<open>
  C22. Truncating the chunks of a file on a daemon keeps the bytes below the new size and removes all
  others, provided that the chunk the new size falls into exists.
\<close>

theorem truncate_keeps_prefix:
  assumes "wf_fs cs fs" and "chunksize cs = csz" and "is_power_of_2 csz" and "csz < 2 ^ 32"
    and "fs (absolute cs (get_chunks_dir p)) \<noteq> None"
    and "unat sz mod unat csz \<noteq> 0 \<Longrightarrow> chunk_content cs fs p (block_index sz csz) \<noteq> None"
    and "trunc_err env = None" and "unlink_err env = (\<lambda>_. None)" and "x < unat csz"
  shows "fst (truncate_abt csz cs env fs p sz) = 0 \<and>
    byte0 (chunk_bytes cs (snd (truncate_abt csz cs env fs p sz)) p i) x =
      (if unat i * unat csz + x < unat sz then byte0 (chunk_bytes cs fs p i) x else 0)"
  using truncate_abt_ok(1) [OF assms(1-8) prod.collapse [symmetric]]
    truncate_abt_bytes [OF assms(1-8) prod.collapse [symmetric] assms(9), of i] by (rule conjI)

theorem truncate_keeps_prefix_witness:
  "fst (truncate_abt 524288 sample_storage \<lparr>trunc_err = None, unlink_err = \<lambda>_. None\<rparr>
     [''/data/chunks/f'' \<mapsto> [(''0'', [1, 2, 3])]] ''/f'' 2) = 0"
proof -
  have name: "show_nat 0 = ''0''" by code_simp
  have dir: "absolute sample_storage (get_chunks_dir ''/f'') = ''/data/chunks/f''"
    by (simp add: absolute_def sample_storage_def get_chunks_dir_def)
  have bi: "block_index 2 524288 = 0"
    using unat_block_index [of 524288 2] by (simp add: is_power_of_2_def flip: unat_eq_0)
  have canon: "canonical_name ''0''" using stoul_chunk_name [of 0] by (simp add: canonical_name_def name)
  have "wf_fs sample_storage [''/data/chunks/f'' \<mapsto> [(''0'', [1, 2, 3])]]"
    using canon by (auto simp: wf_fs_def wf_chunk_dir_def sample_storage_def split: if_splits)
  then show ?thesis
    using truncate_keeps_prefix [of sample_storage "[''/data/chunks/f'' \<mapsto> [(''0'', [1, 2, 3])]]" 524288 "''/f''" 2
        "\<lparr>trunc_err = None, unlink_err = \<lambda>_. None\<rparr>" 0]
    by (simp add: dir bi chunk_content_eq name is_power_of_2_def) (simp add: sample_storage_def)
qed

text \<open>
  C30. Two files have different chunk directories, for absolute paths without the character that
  replaces the slash.
\<close>

theorem chunk_directories_distinct:
  assumes "storable_path p" and "storable_path q" and "p \<noteq> q"
  shows "absolute cs (get_chunks_dir p) \<noteq> absolute cs (get_chunks_dir q)"
  using get_chunks_dir_inject [OF assms(1,2)] assms(3) by simp

theorem chunk_directories_distinct_witness:
  "absolute sample_storage (get_chunks_dir ''/a/b'') \<noteq> absolute sample_storage (get_chunks_dir ''/a/c'')"
  by (rule chunk_directories_distinct) (simp_all add: storable_path_def)

text \<open>A path with a colon shares its chunk directory with another path.\<close>

lemma chunk_directory_collision: "get_chunks_dir ''/a/b'' = get_chunks_dir ''/a:b''"
  by (simp add: get_chunks_dir_def)

section \<open>Placement\<close>

text \<open>
  C28. The hash distributor places every chunk on an existing host, and the copies of a chunk on
  different hosts as long as there are as many hosts and the hash plus the copy does not exceed 64 bits.
\<close>

theorem copies_on_distinct_hosts:
  assumes "m \<noteq> n" and "m < unat (hosts_size d)" and "n < unat (hosts_size d)"
    and "unat (str_hash (path @ show_nat (unat chnk_id))) + unat (hosts_size d) < 2 ^ 64"
  shows "simple_locate_data str_hash d path chnk_id (int m) \<noteq> simple_locate_data str_hash d path chnk_id (int n) \<and>
    simple_locate_data str_hash d path chnk_id (int m) < hosts_size d"
proof -
  have "0 < hosts_size d" using assms(2) by (auto simp: word_less_nat_alt)
  then show ?thesis
    using hash_host_replicas [of m n "hosts_size d" str_hash "path @ show_nat (unat chnk_id)"] assms hash_host_range
    by (simp add: simple_locate_data_def)
qed

theorem copies_on_distinct_hosts_witness:
  "simple_locate_data (\<lambda>_. 5) (SimpleHashDistributor_new 0 4) ''/f'' 0 (int 0) \<noteq>
     simple_locate_data (\<lambda>_. 5) (SimpleHashDistributor_new 0 4) ''/f'' 0 (int 1)"
  using copies_on_distinct_hosts [of 0 1 "SimpleHashDistributor_new 0 4" "\<lambda>_. 5" "''/f''" 0]
  by (simp add: SimpleHashDistributor_new_def)

text \<open>
  C29. The bit set that tells a daemon its chunks survives the transport as base64 text: every bit
  inside the set is read back unchanged, whatever the number of bytes.
\<close>

theorem bitset_transport:
  assumes "unat p div 8 < length data"
  shows "get_bitset (decompress_bitset (compress_bitset (set_bitset data p))) q = (p = q \<or> get_bitset data q) \<or>
    length data \<le> unat q div 8"
  using get_bitset_transport [of q "set_bitset data p"] get_set_bitset [OF assms, of q]
  by (cases "unat q div 8 < length data") auto

theorem bitset_transport_witness:
  "get_bitset (decompress_bitset (compress_bitset (set_bitset [0, 0] 9))) 9"
  using bitset_transport [of 9 "[0, 0]" 9] by simp

section \<open>Errors of the client's data requests\<close>

text \<open>
  The replica loop of a read draws the copy modulo the number of replicas, while the copies are numbered from 0 to
  that number: with one replica it asks for the first copy again and again, and never ends once its host has failed.
\<close>

lemma single_replica_never_read:
  assumes "ucast (locate path (ucast c) 0) \<in> set failed"
  shows "read_target locate path 1 failed draws c = None"
proof -
  have "other_replica locate path c 1 failed (locate path (ucast c) 0) rnds = None" for rnds
    using assms by (induction rnds) simp_all
  then show ?thesis by (simp add: read_target_def)
qed

lemma gather_writes_clean:
  "fst (gather_writes hs err n) = 0 \<longleftrightarrow> err = 0 \<and> (\<forall>h \<in> set hs. \<exists>out. h = Some out \<and> out_err out = 0)"
  by (induction hs arbitrary: err n) (auto split: option.splits)

lemma post_writes_lost:
  assumes "h \<in> set ts" and "post_ok env h \<or> num_copies = 0" and "\<not> reply_ok env h"
  shows "fst (post_writes csz env bt num_copies buf request ts cl) \<or>
    None \<in> set (fst (snd (post_writes csz env bt num_copies buf request ts cl)))"
  using assms
proof (induction ts arbitrary: cl)
  case (Cons t ts)
  then show ?case by (auto simp: Let_def split: prod.splits)
      (metis fst_conv snd_conv)+
qed simp

text \<open>
  C20. A write, of the primary copy or of the replicas, is reported as an error with size 0 when the reply
  of a host it involves is lost. For the replicas the request must have been posted: there, a request that
  cannot be posted is skipped.
\<close>

theorem lost_reply_reported:
  assumes "h \<in> set (targets (write_fan_out locate path (block_index offset csz)
      (block_index (offset + write_size - 1) csz) num_copies))"
    and "post_ok env h \<or> num_copies = 0" and "\<not> reply_ok env h"
  shows "fst (fst (forward_write csz nhosts locate env bt cl path buf offset write_size num_copies)) \<noteq> 0 \<and>
    snd (fst (forward_write csz nhosts locate env bt cl path buf offset write_size num_copies)) = 0"
proof -
  let ?f = "write_fan_out locate path (block_index offset csz) (block_index (offset + write_size - 1) csz) num_copies"
  let ?req = "data_request csz nhosts path offset write_size (block_index offset csz)
    (block_index (offset + write_size - 1) csz) ?f"
  obtain failed handles cl' where p: "post_writes csz env bt num_copies (take (unat write_size) buf) ?req (targets ?f) cl =
      (failed, handles, cl')" by (metis prod_cases3)
  have "failed \<or> None \<in> set handles"
    using post_writes_lost [OF assms, of csz bt "take (unat write_size) buf" ?req cl] by (simp add: p)
  then have "failed \<or> fst (gather_writes handles 0 0) \<noteq> 0" using gather_writes_clean [of handles 0 0] by auto
  then show ?thesis by (auto simp: forward_write_def Let_def p split: prod.splits)
qed

theorem lost_reply_reported_witness:
  "fst (fst (forward_write 524288 2 sample_hosts (sample_net\<lparr>reply_ok := \<lambda>h. h \<noteq> 1\<rparr>) sample_bulk
     (\<lambda>_. Map.empty) ''/f'' (replicate 16 0) 524280 16 0)) \<noteq> 0 \<and>
   fst (fst (forward_write 524288 6 sample_hosts (sample_net\<lparr>reply_ok := \<lambda>h. h \<noteq> 3\<rparr>) sample_bulk
     (\<lambda>_. Map.empty) ''/f'' (replicate 16 0) 524280 16 1)) \<noteq> 0"
proof -
  have "1 \<in> set (targets (write_fan_out sample_hosts ''/f'' (block_index 524280 524288)
      (block_index (524280 + 16 - 1) 524288) 0))"
    "3 \<in> set (targets (write_fan_out sample_hosts ''/f'' (block_index 524280 524288)
      (block_index (524280 + 16 - 1) 524288) 1))"
    by code_simp+
  then show ?thesis
    using lost_reply_reported [of 1 sample_hosts "''/f''" 524280 524288 16 0]
      lost_reply_reported [of 3 sample_hosts "''/f''" 524280 524288 16 1] by (simp add: sample_net_def)
qed

text \<open>
  C31. \<open>forward_truncate\<close> computes the last chunk to contact from the difference of the sizes instead of
  the current size. When a file that keeps \<open>n\<close> whole chunks loses at most \<open>n\<close> chunk sizes of bytes, no
  daemon is contacted, the call reports success and all chunks stay, also those behind the new size. The
  comment in the code says that the servers which have to delete chunks are found out.
\<close>

theorem truncate_contacts_nobody:
  assumes "is_power_of_2 csz" and "new_size < current_size" and "unat new_size div unat csz < 2 ^ 32"
    and "unat current_size - unat new_size \<le> unat new_size div unat csz * unat csz"
  shows "forward_truncate csz locate env cl path current_size new_size num_copies = (0, cl)"
proof -
  have B: "0 < unat csz" using assms(1) by (auto simp: is_power_of_2_def unat_gt_0)
  have lt: "unat new_size < unat current_size" using assms(2) by (simp add: word_less_nat_alt)
  have "unat (current_size - new_size) = unat current_size - unat new_size"
    using assms(2) by (simp add: unat_sub)
  then have "unat (current_size - new_size - 1) = unat current_size - unat new_size - 1"
    using lt by (subst unat_minus_one) (auto simp: unat_eq_0 [symmetric])
  moreover have "unat current_size - unat new_size - 1 < unat new_size div unat csz * unat csz"
    using assms(4) lt by linarith
  ultimately have idx: "unat (current_size - new_size - 1) div unat csz < unat new_size div unat csz"
    by (simp add: div_less_iff_less_mult [OF B])
  then have guard: "(ucast (block_index (current_size - new_size - 1) csz) :: u32) < ucast (block_index new_size csz)"
    using assms(3) unat_block_index [OF assms(1)]
    by (simp add: word_less_nat_alt unsigned_ucast_eq take_bit_nat_eq_self)
  have "[unat (ucast (block_index new_size csz) :: u32)..<
      Suc (unat (ucast (block_index (current_size - new_size - 1) csz) :: u32))] = []"
    using guard by (simp add: word_less_nat_alt)
  then show ?thesis by (simp add: forward_truncate_def truncate_hosts_def Let_def del: upt_Suc)
qed

theorem truncate_contacts_nobody_witness:
  "forward_truncate 524288 sample_hosts sample_net (\<lambda>_. Map.empty) ''/f'' 1572864 1048576 0 = (0, \<lambda>_. Map.empty)"
  by (rule truncate_contacts_nobody) (simp_all add: is_power_of_2_def)

end
