(* ===== verification/Metadata_Codec.thy ===== *)
theory Metadata_Codec
  imports Decimal
begin

text \<open>
  The metadata object of a file and its textual form (\<open>src/common/metadata.cpp\<close>): mode, size and, by
  build option, times, link count, blocks, link target and renamed path, separated by \<open>|\<close>. The build
  options of \<open>config.hpp\<close> and CMake are a record, so that every statement holds for every build.

  The parser walks a C string by pointer; stepping over the end of the string, which the assertions of
  a debug build exclude, is the error \<open>Past_end\<close>. Times and block counts are signed 64-bit numbers,
  kept as words and read with \<open>sint\<close>.
\<close>

record md_config =
  use_atime :: bool
  use_mtime :: bool
  use_ctime :: bool
  use_link_cnt :: bool
  use_blocks :: bool
  has_symlinks :: bool
  has_rename :: bool

record Metadata =
  md_atime :: u64
  md_mtime :: u64
  md_ctime :: u64
  md_mode :: u32
  md_link_count :: u64
  md_size :: u64
  md_blocks :: u64
  md_target_path :: string
  md_rename_path :: string

datatype md_error = Conversion conv_error | Past_end

definition MSP :: char where
  "MSP = CHR ''|''"

section \<open>Construction\<close>

definition Metadata_default :: Metadata where
  "Metadata_default =
     \<lparr>md_atime = 0, md_mtime = 0, md_ctime = 0, md_mode = 0, md_link_count = 0, md_size = 0, md_blocks = 0,
      md_target_path = [], md_rename_path = []\<rparr>"

definition init_time :: "md_config \<Rightarrow> u64 \<Rightarrow> Metadata \<Rightarrow> Metadata" where
  "init_time cfg now md =
     md\<lparr>md_ctime := (if use_ctime cfg then now else md_ctime md),
        md_mtime := (if use_mtime cfg then now else md_mtime md),
        md_atime := (if use_atime cfg then now else md_atime md)\<rparr>"

definition Metadata_new :: "md_config \<Rightarrow> u64 \<Rightarrow> u32 \<Rightarrow> Metadata" where
  "Metadata_new cfg now mode = init_time cfg now (Metadata_default\<lparr>md_mode := mode\<rparr>)"

definition Metadata_new_link :: "md_config \<Rightarrow> u64 \<Rightarrow> u32 \<Rightarrow> string \<Rightarrow> Metadata" where
  "Metadata_new_link cfg now mode target =
     init_time cfg now (Metadata_default\<lparr>md_mode := mode, md_target_path := target\<rparr>)"

definition update_atime_now :: "u64 \<Rightarrow> Metadata \<Rightarrow> Metadata" where
  "update_atime_now now md = md\<lparr>md_atime := now\<rparr>"

definition update_mtime_now :: "u64 \<Rightarrow> Metadata \<Rightarrow> Metadata" where
  "update_mtime_now now md = md\<lparr>md_mtime := now\<rparr>"

text \<open>\<open>S_ISDIR\<close>, \<open>S_ISREG\<close> and \<open>S_ISLNK\<close> of \<open>sys/stat.h\<close>, and \<open>LINK_MODE\<close>.\<close>

definition S_ISDIR :: "u32 \<Rightarrow> bool" where
  "S_ISDIR mode \<longleftrightarrow> mode AND 0xF000 = 0x4000"

definition S_ISREG :: "u32 \<Rightarrow> bool" where
  "S_ISREG mode \<longleftrightarrow> mode AND 0xF000 = 0x8000"

definition S_ISLNK :: "u32 \<Rightarrow> bool" where
  "S_ISLNK mode \<longleftrightarrow> mode AND 0xF000 = 0xA000"

definition is_link :: "Metadata \<Rightarrow> bool" where
  "is_link md \<longleftrightarrow> S_ISLNK (md_mode md)"

definition LINK_MODE :: u32 where
  "LINK_MODE = 0x1FF OR 0xA000"

section \<open>Printing\<close>

definition field :: "bool \<Rightarrow> string \<Rightarrow> string" where
  "field enabled s = (if enabled then MSP # s else [])"

definition serialize :: "md_config \<Rightarrow> Metadata \<Rightarrow> string" where
  "serialize cfg md =
     show_nat (unat (md_mode md)) @ MSP # show_nat (unat (md_size md)) @
     field (use_atime cfg) (show_int (sint (md_atime md))) @
     field (use_mtime cfg) (show_int (sint (md_mtime md))) @
     field (use_ctime cfg) (show_int (sint (md_ctime md))) @
     field (use_link_cnt cfg) (show_nat (unat (md_link_count md))) @
     field (use_blocks cfg) (show_int (sint (md_blocks md))) @
     field (has_symlinks cfg) (md_target_path md @ field (has_rename cfg) (md_rename_path md))"

section \<open>Parsing\<close>

definition and_then :: "'e + 'a \<Rightarrow> ('a \<Rightarrow> 'e + 'b) \<Rightarrow> 'e + 'b" where
  "and_then r f = (case r of Inl e \<Rightarrow> Inl e | Inr v \<Rightarrow> f v)"

definition c_str :: "string \<Rightarrow> string" where
  "c_str s = takeWhile (\<lambda>c. c \<noteq> CHR 0x00) s"

text \<open>\<open>std::stol(++ptr, &read); ptr += read\<close>\<close>

definition parse_next :: "(string \<Rightarrow> conv_error + 'a \<times> nat) \<Rightarrow> string \<Rightarrow> md_error + 'a \<times> string" where
  "parse_next conv ptr = (case ptr of
       [] \<Rightarrow> Inl Past_end
     | _ # t \<Rightarrow>
         (case conv t of Inl e \<Rightarrow> Inl (Conversion e) | Inr (v, read) \<Rightarrow> Inr (v, drop read t)))"

definition parse_opt ::
    "bool \<Rightarrow> (string \<Rightarrow> conv_error + 'a \<times> nat) \<Rightarrow> 'a \<Rightarrow> string \<Rightarrow> md_error + 'a \<times> string" where
  "parse_opt enabled conv dflt ptr = (if enabled then parse_next conv ptr else Inr (dflt, ptr))"

text \<open>
  Link target and renamed path. The target first takes the whole rest; with renaming it is cut at the
  last separator. Without one, \<open>find_last_of\<close> is \<open>npos\<close>: the target stays whole, the pointer wraps back
  to its start, and the renamed path is the same string.
\<close>

definition parse_paths :: "md_config \<Rightarrow> string \<Rightarrow> md_error + string \<times> string" where
  "parse_paths cfg ptr =
     (if \<not> has_symlinks cfg then Inr ([], [])
      else (case ptr of
              [] \<Rightarrow> Inl Past_end
            | _ # rest \<Rightarrow>
                if \<not> has_rename cfg then Inr (rest, [])
                else if rest = [] then Inl Past_end
                else if MSP \<notin> set rest then Inr (rest, rest)
                else (let rename = rev (takeWhile (\<lambda>c. c \<noteq> MSP) (rev rest))
                      in Inr (take (length rest - Suc (length rename)) rest, rename))))"

definition Metadata_parse :: "md_config \<Rightarrow> string \<Rightarrow> md_error + Metadata" where
  "Metadata_parse cfg binary_str =
     (case stoul (c_str binary_str) of
        Inl e \<Rightarrow> Inl (Conversion e)
      | Inr (mode, read) \<Rightarrow>
          and_then (parse_next stol (drop read (c_str binary_str))) (\<lambda>(sz, p1).
          and_then (parse_opt (use_atime cfg) stol 0 p1) (\<lambda>(atime, p2).
          and_then (parse_opt (use_mtime cfg) stol 0 p2) (\<lambda>(mtime, p3).
          and_then (parse_opt (use_ctime cfg) stol 0 p3) (\<lambda>(ctime, p4).
          and_then (parse_opt (use_link_cnt cfg) stoul 0 p4) (\<lambda>(links, p5).
          and_then (parse_opt (use_blocks cfg) stol 0 p5) (\<lambda>(blocks, p6).
          and_then (parse_paths cfg p6) (\<lambda>(target, rename).
            Inr \<lparr>md_atime = word_of_int atime, md_mtime = word_of_int mtime, md_ctime = word_of_int ctime,
                 md_mode = of_nat mode, md_link_count = of_nat links, md_size = word_of_int sz,
                 md_blocks = word_of_int blocks, md_target_path = target, md_rename_path = rename\<rparr>))))))))"

section \<open>Parsing undoes printing\<close>

lemma and_then_simps [simp]:
  "and_then (Inl e) f = Inl e"
  "and_then (Inr v) f = f v"
  by (simp_all add: and_then_def)

lemma ends_number_simps [simp]:
  "ends_number []"
  "ends_number (MSP # s)"
  by (simp_all add: ends_number_def MSP_def is_digit_def)

lemma ends_number_field [simp]: "ends_number rest \<Longrightarrow> ends_number (field b s @ rest)"
  by (simp add: field_def)

lemma ends_number_field_end [simp]: "ends_number (field b s)"
  by (simp add: field_def)

lemma parse_next_nat [simp]:
  "ends_number rest \<Longrightarrow> n < 2 ^ 64 \<Longrightarrow> parse_next stoul (MSP # show_nat n @ rest) = Inr (n, rest)"
  by (simp add: parse_next_def stoul_show_nat)

lemma parse_next_int [simp]:
  "ends_number rest \<Longrightarrow> - (2 ^ 63) \<le> i \<Longrightarrow> i < 2 ^ 63 \<Longrightarrow>
     parse_next stol (MSP # show_int i @ rest) = Inr (i, rest)"
  by (simp add: parse_next_def stol_show_int)

lemma parse_next_size [simp]:
  assumes "ends_number rest" and "n < 2 ^ 63"
  shows "parse_next stol (MSP # show_nat n @ rest) = Inr (int n, rest)"
proof -
  have "show_nat n = show_int (int n)" by (simp add: show_int_def)
  then show ?thesis using assms parse_next_int [of rest "int n"] by simp
qed

lemma parse_opt_field [simp]:
  assumes "ends_number rest" and "enabled \<Longrightarrow> parse_next conv (MSP # s @ rest) = Inr (v, rest)"
  shows "parse_opt enabled conv dflt (field enabled s @ rest) = Inr (if enabled then v else dflt, rest)"
  using assms by (simp add: parse_opt_def field_def)

lemma sint_range: "- (2 ^ 63) \<le> sint (w :: u64)" "sint (w :: u64) < 2 ^ 63"
  using sint_ge [of w] sint_lt [of w] by simp_all

lemma split_last_sep:
  assumes "MSP \<notin> set r"
  shows "rev (takeWhile (\<lambda>c. c \<noteq> MSP) (rev (t @ MSP # r))) = r"
proof -
  have "takeWhile (\<lambda>c. c \<noteq> MSP) (rev r @ MSP # rev t) = rev r"
    using assms by (auto simp: takeWhile_append)
  then show ?thesis by simp
qed

lemma parse_paths_field:
  assumes "has_rename cfg \<Longrightarrow> MSP \<notin> set rename"
  shows "parse_paths cfg (field (has_symlinks cfg) (target @ field (has_rename cfg) rename)) =
    Inr (if has_symlinks cfg then target else [], if has_symlinks cfg \<and> has_rename cfg then rename else [])"
  using assms split_last_sep [of rename target]
  by (simp add: parse_paths_def field_def Let_def)

text \<open>What a build stores: the fields it leaves out come back with their default.\<close>

definition stored :: "md_config \<Rightarrow> Metadata \<Rightarrow> Metadata" where
  "stored cfg md =
     \<lparr>md_atime = (if use_atime cfg then md_atime md else 0),
      md_mtime = (if use_mtime cfg then md_mtime md else 0),
      md_ctime = (if use_ctime cfg then md_ctime md else 0),
      md_mode = md_mode md,
      md_link_count = (if use_link_cnt cfg then md_link_count md else 0),
      md_size = md_size md,
      md_blocks = (if use_blocks cfg then md_blocks md else 0),
      md_target_path = (if has_symlinks cfg then md_target_path md else []),
      md_rename_path = (if has_symlinks cfg \<and> has_rename cfg then md_rename_path md else [])\<rparr>"

text \<open>
  The metadata that can be stored: the size is a non-negative \<open>long\<close>, the paths are C strings, and the
  renamed path has no separator.
\<close>

definition storable :: "md_config \<Rightarrow> Metadata \<Rightarrow> bool" where
  "storable cfg md \<longleftrightarrow> unat (md_size md) < 2 ^ 63 \<and>
     CHR 0x00 \<notin> set (md_target_path md) \<and> CHR 0x00 \<notin> set (md_rename_path md) \<and>
     (has_rename cfg \<longrightarrow> MSP \<notin> set (md_rename_path md))"

lemma show_nat_no_nul: "CHR 0x00 \<notin> set (show_nat n)"
  using show_nat_digits [of n] by (auto simp: list_all_iff is_digit_def)

lemma show_int_no_nul: "CHR 0x00 \<notin> set (show_int i)"
  by (simp add: show_int_def show_nat_no_nul)

lemma c_str_id: "CHR 0x00 \<notin> set s \<Longrightarrow> c_str s = s"
  by (auto simp: c_str_def takeWhile_eq_all_conv)

lemma serialize_no_nul:
  assumes "storable cfg md"
  shows "CHR 0x00 \<notin> set (serialize cfg md)"
  using assms by (simp add: serialize_def field_def storable_def show_nat_no_nul show_int_no_nul MSP_def)

lemma Metadata_parse_serialize:
  assumes "storable cfg md"
  shows "Metadata_parse cfg (serialize cfg md) = Inr (stored cfg md)"
proof -
  have mode: "unat (md_mode md) < 2 ^ 64"
    using unsigned_less [of "md_mode md", where ?'a = nat] by simp
  have c: "c_str (serialize cfg md) = serialize cfg md" by (rule c_str_id [OF serialize_no_nul [OF assms]])
  show ?thesis
    using assms mode unat_u64_less [of "md_link_count md"] sint_range
    unfolding Metadata_parse_def c
    by (simp add: serialize_def stoul_show_nat parse_paths_field storable_def stored_def)
qed

text \<open>A size of \<open>2 ^ 63\<close> or more is printed as an unsigned number and rejected by the parser.\<close>

lemma stol_huge: "ends_number rest \<Longrightarrow> 2 ^ 63 \<le> n \<Longrightarrow> stol (show_nat n @ rest) = Inl Out_of_range"
  by (simp add: stol_def scan_number_show_nat Let_def)

lemma Metadata_parse_huge:
  assumes "2 ^ 63 \<le> unat (md_size md)" and "CHR 0x00 \<notin> set (md_target_path md)" "CHR 0x00 \<notin> set (md_rename_path md)"
  shows "Metadata_parse cfg (serialize cfg md) = Inl (Conversion Out_of_range)"
proof -
  have mode: "unat (md_mode md) < 2 ^ 64"
    using unsigned_less [of "md_mode md", where ?'a = nat] by simp
  have "CHR 0x00 \<notin> set (serialize cfg md)"
    using assms(2,3) by (simp add: serialize_def field_def show_nat_no_nul show_int_no_nul MSP_def)
  then have c: "c_str (serialize cfg md) = serialize cfg md" by (rule c_str_id)
  have huge: "parse_next stol (MSP # show_nat (unat (md_size md)) @ rest) = Inl (Conversion Out_of_range)"
    if "ends_number rest" for rest
    using stol_huge [OF that assms(1)] by (simp add: parse_next_def)
  show ?thesis
    using mode unfolding Metadata_parse_def c by (simp add: serialize_def stoul_show_nat huge)
qed

lemma serialize_stored [simp]: "serialize cfg (stored cfg md) = serialize cfg md"
  by (simp add: serialize_def stored_def field_def)

lemma stored_stored [simp]: "stored cfg (stored cfg md) = stored cfg md"
  by (simp add: stored_def)

lemma md_size_stored [simp]: "md_size (stored cfg md) = md_size md"
  by (simp add: stored_def)

lemma storable_stored [simp]: "storable cfg md \<Longrightarrow> storable cfg (stored cfg md)"
  by (simp add: storable_def stored_def)

lemma stored_size_id [simp]: "stored cfg md\<lparr>md_size := md_size md\<rparr> = stored cfg md"
  by (simp add: stored_def)

end
