(* ===== verification/Merge_Op.thy ===== *)
theory Merge_Op
  imports Metadata_Codec "HOL-Library.Multiset"
begin

text \<open>
  The merge operator of the metadata store (\<open>src/daemon/backend/metadata/merge.cpp\<close>): updates of a
  file's metadata are written as operands, and RocksDB folds the operands of a key over its value with
  \<open>FullMergeV2\<close>. Appends additionally reserve the offset they start at, under the 16-bit identifier of
  the operand, in a table of the metadata module.

  Operands travel as strings. The size operand is parsed from a C string inside the slice; a slice
  without a terminating NUL is the error \<open>Past_end\<close>.

  \<open>FullMergeV2\<close> asserts that a decrease names a size below the current one. The release build, which is
  the default one, compiles assertions out (\<open>-DNDEBUG\<close>), and the model is of that build: the decrease sets
  the size whatever it was. Properties of a decrease take the assertion as a hypothesis.
\<close>

datatype merge_operand =
    IncreaseSizeOperand u64 u16 bool
  | DecreaseSizeOperand u64
  | CreateOperand string
  | UpdateTimeOperand u64

datatype merge_error = First_not_create | Unrecognized char | Malformed md_error

definition NUL :: char where
  "NUL = CHR 0x00"

section \<open>Serialisation\<close>

definition operand_id :: "merge_operand \<Rightarrow> char" where
  "operand_id op = (case op of
       IncreaseSizeOperand _ _ _ \<Rightarrow> CHR ''i''
     | DecreaseSizeOperand _ \<Rightarrow> CHR ''d''
     | CreateOperand _ \<Rightarrow> CHR ''c''
     | UpdateTimeOperand _ \<Rightarrow> CHR ''t'')"

definition serialize_params :: "merge_operand \<Rightarrow> string" where
  "serialize_params op = (case op of
       IncreaseSizeOperand sz merge_id appd \<Rightarrow>
         if appd then show_nat (unat sz) @ CHR '','' # show_nat (unat merge_id) @ [NUL]
         else show_nat (unat sz) @ [NUL]
     | DecreaseSizeOperand sz \<Rightarrow> show_nat (unat sz)
     | CreateOperand metadata \<Rightarrow> metadata
     | UpdateTimeOperand mtime \<Rightarrow> show_int (sint mtime))"

definition serialize_id :: "merge_operand \<Rightarrow> string" where
  "serialize_id op = [operand_id op, CHR '':'']"

definition serialize_operand :: "merge_operand \<Rightarrow> string" where
  "serialize_operand op = serialize_id op @ serialize_params op"

definition get_id :: "string \<Rightarrow> merge_error + char" where
  "get_id serialized_op = (case serialized_op of [] \<Rightarrow> Inl (Malformed Past_end) | c # _ \<Rightarrow> Inr c)"

definition get_params :: "string \<Rightarrow> string" where
  "get_params serialized_op = drop 2 serialized_op"

definition parse_increase :: "string \<Rightarrow> merge_error + u64 \<times> u16 \<times> bool" where
  "parse_increase params =
     (if NUL \<notin> set params then Inl (Malformed Past_end)
      else (case stoul (c_str params) of
              Inl e \<Rightarrow> Inl (Malformed (Conversion e))
            | Inr (sz, read) \<Rightarrow>
                if read + 1 = length params \<or> params ! read = NUL then Inr (of_nat sz, 0, False)
                else (case stoul (drop (read + 1) (c_str params)) of
                        Inl e \<Rightarrow> Inl (Malformed (Conversion e))
                      | Inr (merge_id, _) \<Rightarrow> Inr (of_nat sz, of_nat merge_id, True))))"

definition parse_number :: "string \<Rightarrow> merge_error + u64" where
  "parse_number params =
     (case stoul params of Inl e \<Rightarrow> Inl (Malformed (Conversion e)) | Inr (v, _) \<Rightarrow> Inr (of_nat v))"

section \<open>Merging\<close>

type_synonym reservations = "(u16 \<times> u64) list"

primrec merge_loop ::
    "string list \<Rightarrow> u64 \<Rightarrow> Metadata \<Rightarrow> reservations \<Rightarrow> merge_error + u64 \<times> Metadata \<times> reservations" where
  "merge_loop [] fsize md rs = Inr (fsize, md, rs)"
| "merge_loop (serialized_op # ops) fsize md rs =
     (case get_id serialized_op of
        Inl e \<Rightarrow> Inl e
      | Inr op_id \<Rightarrow>
          if op_id = CHR ''i''
          then (case parse_increase (get_params serialized_op) of
                  Inl e \<Rightarrow> Inl e
                | Inr (sz, merge_id, appd) \<Rightarrow>
                    if appd then merge_loop ops (fsize + sz) md (rs @ [(merge_id, fsize)])
                    else merge_loop ops (max sz fsize) md rs)
          else if op_id = CHR ''d''
          then (case parse_number (get_params serialized_op) of
                  Inl e \<Rightarrow> Inl e
                | Inr sz \<Rightarrow> merge_loop ops sz md rs)
          else if op_id = CHR ''c'' then merge_loop ops fsize md rs
          else if op_id = CHR ''t''
          then (case parse_number (get_params serialized_op) of
                  Inl e \<Rightarrow> Inl e
                | Inr mtime \<Rightarrow> merge_loop ops fsize (md\<lparr>md_mtime := mtime\<rparr>) rs)
          else Inl (Unrecognized op_id))"

definition FullMergeV2 ::
    "md_config \<Rightarrow> string option \<Rightarrow> string list \<Rightarrow> merge_error + string \<times> reservations" where
  "FullMergeV2 cfg existing_value operand_list =
     and_then
       (case existing_value of
          Some v \<Rightarrow> Inr (v, operand_list)
        | None \<Rightarrow>
            (case operand_list of
               [] \<Rightarrow> Inl (Malformed Past_end)
             | op # ops \<Rightarrow>
                 and_then (get_id op) (\<lambda>op_id.
                   if op_id \<noteq> CHR ''c'' then Inl First_not_create else Inr (get_params op, ops))))
       (\<lambda>(prev_md_value, ops).
          case Metadata_parse cfg prev_md_value of
            Inl e \<Rightarrow> Inl (Malformed e)
          | Inr md \<Rightarrow>
              and_then (merge_loop ops (md_size md) md []) (\<lambda>(fsize, md', rs).
                Inr (serialize cfg (md'\<lparr>md_size := fsize\<rparr>), rs)))"

definition PartialMergeMulti :: "string list \<Rightarrow> string option" where
  "PartialMergeMulti operand_list = None"

section \<open>What an operand means\<close>

definition apply_operand :: "merge_operand \<Rightarrow> Metadata \<Rightarrow> Metadata" where
  "apply_operand op md = (case op of
       IncreaseSizeOperand sz _ appd \<Rightarrow>
         md\<lparr>md_size := (if appd then md_size md + sz else max sz (md_size md))\<rparr>
     | DecreaseSizeOperand sz \<Rightarrow> md\<lparr>md_size := sz\<rparr>
     | CreateOperand _ \<Rightarrow> md
     | UpdateTimeOperand mtime \<Rightarrow> md\<lparr>md_mtime := mtime\<rparr>)"

definition reserves :: "merge_operand \<Rightarrow> Metadata \<Rightarrow> reservations" where
  "reserves op md = (case op of
       IncreaseSizeOperand _ merge_id True \<Rightarrow> [(merge_id, md_size md)]
     | _ \<Rightarrow> [])"

definition apply_operands :: "merge_operand list \<Rightarrow> Metadata \<Rightarrow> Metadata" where
  "apply_operands ops md = fold apply_operand ops md"

primrec all_reserves :: "merge_operand list \<Rightarrow> Metadata \<Rightarrow> reservations" where
  "all_reserves [] md = []"
| "all_reserves (op # ops) md = reserves op md @ all_reserves ops (apply_operand op md)"

lemma apply_operands_simps [simp]:
  "apply_operands [] md = md"
  "apply_operands (op # ops) md = apply_operands ops (apply_operand op md)"
  by (simp_all add: apply_operands_def)

lemma apply_operands_append: "apply_operands (xs @ ys) md = apply_operands ys (apply_operands xs md)"
  by (simp add: apply_operands_def)

lemma all_reserves_append:
  "all_reserves (xs @ ys) md = all_reserves xs md @ all_reserves ys (apply_operands xs md)"
  by (induction xs arbitrary: md) simp_all

section \<open>Operands survive transport\<close>

lemma get_id_serialize [simp]: "get_id (serialize_operand op) = Inr (operand_id op)"
  by (simp add: get_id_def serialize_operand_def serialize_id_def)

lemma get_params_serialize [simp]: "get_params (serialize_operand op) = serialize_params op"
  by (simp add: get_params_def serialize_operand_def serialize_id_def)

lemma ends_number_params [simp]:
  "ends_number (NUL # s)" "ends_number (CHR '','' # s)"
  by (simp_all add: ends_number_def NUL_def is_digit_def)

lemma nul_show_nat [simp]: "NUL \<notin> set (show_nat n)"
  using show_nat_no_nul by (simp add: NUL_def)

lemma nul_comma [simp]: "NUL \<noteq> CHR '',''"
  by (simp add: NUL_def)

lemma c_str_nul:
  assumes "NUL \<notin> set s"
  shows "c_str (s @ NUL # t) = s"
  using assms by (auto simp: c_str_def NUL_def takeWhile_append)

lemma stoul_show [simp]: "stoul (show_nat (unat (w :: u64))) = Inr (unat w, length (show_nat (unat w)))"
  using stoul_show_nat [of "[]" "unat w"] unat_u64_less [of w] by simp

lemma parse_increase_serialize:
  "parse_increase (serialize_params (IncreaseSizeOperand sz merge_id appd)) =
     Inr (sz, if appd then merge_id else 0, appd)"
proof (cases appd)
  case False
  have "c_str (show_nat (unat sz) @ [NUL]) = show_nat (unat sz)" by (rule c_str_nul) simp
  then show ?thesis using False by (simp add: serialize_params_def parse_increase_def)
next
  case True
  let ?s = "show_nat (unat sz)" and ?m = "show_nat (unat merge_id)"
  have c: "c_str (?s @ CHR '','' # ?m @ [NUL]) = ?s @ CHR '','' # ?m"
    using c_str_nul [of "?s @ CHR '','' # ?m" "[]"] by simp
  have m: "unat merge_id < 2 ^ 64" using unsigned_less [of merge_id, where ?'a = nat] by simp
  have "stoul (?s @ CHR '','' # ?m) = Inr (unat sz, length ?s)"
    using stoul_show_nat unat_u64_less by simp
  moreover have "stoul ?m = Inr (unat merge_id, length ?m)"
    using stoul_show_nat [of "[]" "unat merge_id"] m by simp
  moreover have "(?s @ CHR '','' # ?m @ [NUL]) ! length ?s \<noteq> NUL" by (simp add: NUL_def)
  ultimately show ?thesis using True by (simp add: serialize_params_def parse_increase_def c)
qed

lemma of_nat_int_word:
  assumes "int n = i" and "(of_int i :: u64) = w"
  shows "of_nat n = w"
  using assms by (metis of_int_of_nat_eq)

lemma parse_number_serialize:
  "parse_number (serialize_params (DecreaseSizeOperand sz)) = Inr sz"
  "parse_number (serialize_params (UpdateTimeOperand mtime)) = Inr mtime"
proof -
  show "parse_number (serialize_params (DecreaseSizeOperand sz)) = Inr sz"
    by (simp add: parse_number_def serialize_params_def)
  show "parse_number (serialize_params (UpdateTimeOperand mtime)) = Inr mtime"
  proof (cases "sint mtime < 0")
    case False
    then have "show_int (sint mtime) = show_nat (nat (sint mtime))" by (simp add: show_int_def)
    moreover have "nat (sint mtime) < 2 ^ 64" using sint_range(2) [of mtime] by simp
    ultimately have "stoul (show_int (sint mtime)) = Inr (nat (sint mtime), length (show_int (sint mtime)))"
      using stoul_show_nat [of "[]"] by simp
    moreover have "(of_nat (nat (sint mtime)) :: u64) = mtime"
      using False of_nat_int_word [of "nat (sint mtime)" "sint mtime" mtime] by simp
    ultimately show ?thesis by (simp add: parse_number_def serialize_params_def)
  next
    case True
    define v where "v = nat (- sint mtime)"
    have v: "0 < v" "v < 2 ^ 64" using True sint_range(1) [of mtime] by (auto simp: v_def)
    have "stoul (show_int (sint mtime)) = Inr (2 ^ 64 - v, Suc (length (show_nat v)))"
      using scan_number_neg_show_nat [of "[]" v] True v by (simp add: stoul_def show_int_def v_def)
    moreover have "int (2 ^ 64 - v) = 2 ^ 64 + sint mtime" using v True by (simp add: v_def of_nat_diff)
    then have "(of_nat (2 ^ 64 - v) :: u64) = mtime"
      using of_nat_int_word [of "2 ^ 64 - v" "2 ^ 64 + sint mtime" mtime] by simp
    ultimately show ?thesis by (simp add: parse_number_def serialize_params_def)
  qed
qed

lemma md_size_mtime: "md\<lparr>md_mtime := t, md_size := n\<rparr> = md\<lparr>md_size := n, md_mtime := t\<rparr>"
  by (cases md) simp

lemma merge_loop_serialize:
  "merge_loop (map serialize_operand ops) fsize md rs =
     (let md1 = md\<lparr>md_size := fsize\<rparr>; md' = apply_operands ops md1 in
      Inr (md_size md', md'\<lparr>md_size := md_size md\<rparr>, rs @ all_reserves ops md1))"
proof (induction ops arbitrary: fsize md rs)
  case (Cons op ops)
  then show ?case
    by (cases op) (auto simp: parse_increase_serialize parse_number_serialize operand_id_def
        apply_operand_def reserves_def Let_def md_size_mtime)
qed simp

section \<open>The merge operator applies the operands in order\<close>

lemma stored_apply:
  "stored cfg (apply_operands ops (stored cfg md)) = stored cfg (apply_operands ops md)"
proof (induction ops arbitrary: md)
  case (Cons op ops)
  have "stored cfg (apply_operand op (stored cfg md)) = stored cfg (apply_operand op md)"
    by (cases op) (simp_all add: apply_operand_def stored_def)
  then show ?case using Cons by (metis apply_operands_simps(2))
qed simp

lemma all_reserves_cong:
  "md_size md1 = md_size md2 \<Longrightarrow> all_reserves ops md1 = all_reserves ops md2"
proof (induction ops arbitrary: md1 md2)
  case Nil
  show ?case by simp
next
  case (Cons op ops)
  have "md_size (apply_operand op md1) = md_size (apply_operand op md2)"
    using Cons.prems by (cases op) (simp_all add: apply_operand_def)
  then have "all_reserves ops (apply_operand op md1) = all_reserves ops (apply_operand op md2)" by (rule Cons.IH)
  moreover have "reserves op md1 = reserves op md2"
    unfolding reserves_def Cons.prems ..
  ultimately show ?case by (simp only: all_reserves.simps)
qed

lemma all_reserves_stored: "all_reserves ops (stored cfg md) = all_reserves ops md"
  by (rule all_reserves_cong) simp

lemma FullMergeV2_value:
  assumes "storable cfg md"
  shows "FullMergeV2 cfg (Some (serialize cfg md)) (map serialize_operand ops) =
    Inr (serialize cfg (apply_operands ops md), all_reserves ops md)"
proof -
  have "serialize cfg (apply_operands ops (stored cfg md)) = serialize cfg (apply_operands ops md)"
    using serialize_stored [of cfg "apply_operands ops (stored cfg md)"]
      serialize_stored [of cfg "apply_operands ops md"] stored_apply [of cfg ops md] by simp
  then show ?thesis
    using assms all_reserves_stored [of ops cfg md]
    by (simp add: FullMergeV2_def Metadata_parse_serialize merge_loop_serialize Let_def)
qed

lemma FullMergeV2_create:
  assumes "storable cfg md"
  shows "FullMergeV2 cfg None (map serialize_operand (CreateOperand (serialize cfg md) # ops)) =
    FullMergeV2 cfg (Some (serialize cfg md)) (map serialize_operand ops)"
  by (simp add: FullMergeV2_def operand_id_def serialize_params_def)

text \<open>
  RocksDB may collapse any prefix of the operands into a value at any time. The result is the same, and
  so are the offsets reserved, as long as the collapsed sizes can be stored.
\<close>

lemma FullMergeV2_collapse:
  assumes "storable cfg md" and "storable cfg (apply_operands xs md)"
    and "FullMergeV2 cfg (Some (serialize cfg md)) (map serialize_operand xs) = Inr (v, rs)"
    and "FullMergeV2 cfg (Some v) (map serialize_operand ys) = Inr (w, rs')"
  shows "FullMergeV2 cfg (Some (serialize cfg md)) (map serialize_operand (xs @ ys)) = Inr (w, rs @ rs')"
proof -
  have "v = serialize cfg (apply_operands xs md)" "rs = all_reserves xs md"
    using assms(1,3) by (simp_all add: FullMergeV2_value)
  then have "w = serialize cfg (apply_operands ys (apply_operands xs md))" "rs' = all_reserves ys (apply_operands xs md)"
    using assms(2,4) by (simp_all add: FullMergeV2_value)
  then show ?thesis
    using assms(1) \<open>rs = all_reserves xs md\<close>
    by (simp add: FullMergeV2_value apply_operands_append all_reserves_append del: map_append)
qed

section \<open>Concurrent writers\<close>

text \<open>Plain size updates commute: the size becomes the largest one, in whatever order they arrive.\<close>

definition plain_increase :: "merge_operand \<Rightarrow> bool" where
  "plain_increase op \<longleftrightarrow> (case op of IncreaseSizeOperand _ _ appd \<Rightarrow> \<not> appd | _ \<Rightarrow> False)"

definition operand_size :: "merge_operand \<Rightarrow> u64" where
  "operand_size op = (case op of IncreaseSizeOperand sz _ _ \<Rightarrow> sz | _ \<Rightarrow> 0)"

lemma apply_plain:
  assumes "list_all plain_increase ops"
  shows "apply_operands ops md = md\<lparr>md_size := fold max (map operand_size ops) (md_size md)\<rparr>"
  using assms
proof (induction ops arbitrary: md)
  case (Cons op ops)
  then obtain sz m where "op = IncreaseSizeOperand sz m False"
    by (cases op) (auto simp: plain_increase_def)
  then show ?case using Cons by (simp add: apply_operand_def operand_size_def)
qed simp

lemma apply_plain_order:
  assumes "list_all plain_increase ops" and "mset ops' = mset ops"
  shows "apply_operands ops' md = apply_operands ops md"
proof -
  have p': "list_all plain_increase ops'" using assms mset_eq_setD [OF assms(2)] by (simp add: list_all_iff)
  have "fold max (map operand_size ops') = fold max (map operand_size ops)"
  proof (rule fold_multiset_equiv)
    show "mset (map operand_size ops') = mset (map operand_size ops)" unfolding mset_map assms(2) ..
  qed (rule ext, simp add: max.left_commute)
  then show ?thesis by (simp add: apply_plain [OF assms(1)] apply_plain [OF p'])
qed

text \<open>
  Appends get consecutive intervals: each starts where the ones before it end, and the size grows by
  their sum.
\<close>

definition append_op :: "u64 \<times> u16 \<Rightarrow> merge_operand" where
  "append_op a = IncreaseSizeOperand (fst a) (snd a) True"

lemma apply_appends: "apply_operands (map append_op as) md = md\<lparr>md_size := md_size md + sum_list (map fst as)\<rparr>"
  by (induction as arbitrary: md) (simp_all add: apply_operand_def append_op_def add.assoc)

lemma reserve_appends:
  "i < length as \<Longrightarrow> all_reserves (map append_op as) md ! i =
     (snd (as ! i), md_size md + sum_list (map fst (take i as)))"
proof (induction as arbitrary: md i)
  case (Cons a as)
  then show ?case
    by (cases i) (simp_all add: reserves_def append_op_def apply_operand_def add.assoc)
qed simp

lemma length_reserve_appends: "length (all_reserves (map append_op as) md) = length as"
  by (induction as arbitrary: md) (simp_all add: reserves_def append_op_def)

lemma unat_sum_list:
  assumes "n + (\<Sum>x\<leftarrow>xs. unat (x :: u64)) < 2 ^ 64"
  shows "unat (of_nat n + sum_list xs) = n + (\<Sum>x\<leftarrow>xs. unat x)"
proof -
  have "of_nat n + sum_list xs = of_nat (n + (\<Sum>x\<leftarrow>xs. unat x))" by (induction xs) (simp_all add: algebra_simps)
  then show ?thesis using assms by (simp only: unat_of_nat_small)
qed

lemma append_offset:
  assumes fits: "unat (md_size md) + (\<Sum>a\<leftarrow>as. unat (fst a)) < 2 ^ 64" and i: "i < length as"
  shows "unat (snd (all_reserves (map append_op as) md ! i)) =
    unat (md_size md) + (\<Sum>a\<leftarrow>take i as. unat (fst a))"
proof -
  have "(\<Sum>a\<leftarrow>take i as @ drop i as. unat (fst a)) =
      (\<Sum>a\<leftarrow>take i as. unat (fst a)) + (\<Sum>a\<leftarrow>drop i as. unat (fst a))"
    unfolding map_append sum_list_append ..
  then show ?thesis
    using unat_sum_list [of "unat (md_size md)" "map fst (take i as)"] fits i
    by (simp add: reserve_appends comp_def)
qed

lemma appends_disjoint:
  assumes fits: "unat (md_size md) + (\<Sum>a\<leftarrow>as. unat (fst a)) < 2 ^ 64" and ij: "i < j" "j < length as"
  shows "unat (snd (all_reserves (map append_op as) md ! i)) + unat (fst (as ! i)) \<le>
    unat (snd (all_reserves (map append_op as) md ! j))"
proof -
  let ?S = "\<lambda>i. \<Sum>a\<leftarrow>take i as. unat (fst a)"
  have "(\<Sum>a\<leftarrow>take (Suc i) as @ drop (Suc i) (take j as). unat (fst a)) =
      ?S (Suc i) + (\<Sum>a\<leftarrow>drop (Suc i) (take j as). unat (fst a))"
    unfolding map_append sum_list_append ..
  moreover have "take (Suc i) as @ drop (Suc i) (take j as) = take j as"
    using ij append_take_drop_id [of "Suc i" "take j as"] by (simp add: min_def)
  ultimately have "?S (Suc i) \<le> ?S j" by simp
  moreover have "?S (Suc i) = ?S i + unat (fst (as ! i))" using ij by (simp add: take_Suc_conv_app_nth)
  ultimately show ?thesis using ij by (simp add: append_offset [OF fits])
qed

end
