(* ===== verification/Path_Util.thy ===== *)
theory Path_Util
  imports Gkfs_Prelude "HOL-Library.Sublist"
begin

text \<open>
  String functions on paths (\<open>src/common/path_util.cpp\<close>), shared by client and daemon. Paths are C
  strings: they hold no NUL character. \<open>dirname\<close> is \<open>path_dirname\<close> here.
\<close>

abbreviation separator :: char where "separator \<equiv> CHR ''/''"

definition is_relative :: "string \<Rightarrow> bool" where
  "is_relative path \<longleftrightarrow> path \<noteq> [] \<and> hd path \<noteq> separator"

definition is_absolute :: "string \<Rightarrow> bool" where
  "is_absolute path \<longleftrightarrow> path \<noteq> [] \<and> hd path = separator"

definition has_trailing_slash :: "string \<Rightarrow> bool" where
  "has_trailing_slash path \<longleftrightarrow> path \<noteq> [] \<and> last path = separator"

definition prepend_path :: "string \<Rightarrow> string \<Rightarrow> string" where
  "prepend_path prefix_path raw_path = prefix_path @ [separator] @ raw_path"

text \<open>The component at the start of a string and what follows it, from the next separator on.\<close>

abbreviation component :: "string \<Rightarrow> string" where "component \<equiv> takeWhile (\<lambda>c. c \<noteq> separator)"
abbreviation after_component :: "string \<Rightarrow> string" where "after_component \<equiv> dropWhile (\<lambda>c. c \<noteq> separator)"

lemma length_after_component: "length (after_component s) \<le> length s"
  by (rule length_dropWhile_le)

text \<open>The loop of \<open>split_path\<close>, on the part of the path from index \<open>end\<close> on.\<close>

function split_loop :: "string \<Rightarrow> string list" where
  "split_loop s = (if s = [] then [] else component s # split_loop (drop 1 (after_component s)))"
  by pat_completeness auto
termination
proof (relation "measure length")
  fix s :: string assume "s \<noteq> []"
  then show "(drop 1 (after_component s), s) \<in> measure length"
    using length_after_component [of s] by (cases s) (auto simp: le_imp_less_Suc diff_le_self le_diff_conv)
qed simp

declare split_loop.simps [simp del]

definition split_path :: "string \<Rightarrow> string list" where
  "split_path path = split_loop (if is_absolute path then drop 1 path else path)"

definition absolute_to_relative :: "string \<Rightarrow> string \<Rightarrow> string" where
  "absolute_to_relative root_path absolute_path =
     (if \<not> prefix root_path absolute_path then []
      else let rel = drop (length root_path) absolute_path
           in if rel = [] then [separator]
              else if has_trailing_slash absolute_path \<and> length rel \<noteq> 1 then butlast rel else rel)"

text \<open>None: \<open>find_last_of\<close> found no separator, which the assertion excludes.\<close>

definition find_last_of :: "string \<Rightarrow> nat option" where
  "find_last_of s =
     (if separator \<in> set s then Some (length s - 1 - length (takeWhile (\<lambda>c. c \<noteq> separator) (rev s))) else None)"

definition path_dirname :: "string \<Rightarrow> string" where
  "path_dirname path = (case find_last_of path of
       None \<Rightarrow> path
     | Some n \<Rightarrow> take (if n = 0 then 1 else n) path)"

section \<open>Components\<close>

text \<open>The path with given components, and components that a path can have.\<close>

definition join :: "string list \<Rightarrow> string" where
  "join cs = concat (map (\<lambda>c. separator # c) cs)"

definition is_component :: "string \<Rightarrow> bool" where
  "is_component c \<longleftrightarrow> c \<noteq> [] \<and> separator \<notin> set c"

lemma join_simps [simp]: "join [] = []" "join (c # cs) = separator # c @ join cs" "join (xs @ ys) = join xs @ join ys"
  by (simp_all add: join_def)

lemma join_empty [simp]: "join cs = [] \<longleftrightarrow> cs = []"
  by (cases cs) simp_all

lemma join_hd: "join cs = [] \<or> hd (join cs) = separator"
  by (cases cs) simp_all

lemma component_join [simp]:
  "separator \<notin> set c \<Longrightarrow> component (c @ join cs) = c" "separator \<notin> set c \<Longrightarrow> after_component (c @ join cs) = join cs"
proof -
  assume "separator \<notin> set c"
  then have "takeWhile (\<lambda>c. c \<noteq> separator) c = c" "dropWhile (\<lambda>c. c \<noteq> separator) c = []"
    by (auto simp: takeWhile_eq_all_conv dropWhile_eq_Nil_conv)
  moreover have "component (join cs) = []" "after_component (join cs) = join cs" by (cases cs; simp)+
  ultimately show "component (c @ join cs) = c" "after_component (c @ join cs) = join cs"
    by (auto simp: takeWhile_append dropWhile_append)
qed

lemma split_loop_join:
  "list_all is_component cs \<Longrightarrow> split_loop (drop 1 (join cs)) = cs"
proof (induction cs)
  case (Cons c cs)
  then show ?case by (subst split_loop.simps) (simp add: is_component_def)
qed (simp add: split_loop.simps)

lemma split_path_join: "list_all is_component cs \<Longrightarrow> split_path (join cs) = cs"
  by (cases cs) (simp_all add: split_path_def is_absolute_def split_loop_join [simplified] split_loop.simps [of "[]"]
      split_loop_join [of "c # cs" for c cs, simplified])

lemma join_inject:
  assumes "list_all is_component cs" and "list_all is_component ds"
  shows "join cs = join ds \<longleftrightarrow> cs = ds"
  using split_path_join [OF assms(1)] split_path_join [OF assms(2)] by metis

lemma find_last_of_join:
  assumes "is_component c"
  shows "find_last_of (join (cs @ [c])) = Some (length (join cs))"
proof -
  have c: "separator \<notin> set (rev c)" using assms by (simp add: is_component_def)
  then have tw: "takeWhile (\<lambda>x. x \<noteq> separator) (rev c @ separator # xs) = rev c" for xs
    by (simp add: takeWhile_append takeWhile_eq_all_conv)
  show ?thesis using tw [of "rev (join cs)"] by (simp add: find_last_of_def)
qed

lemma path_dirname_join:
  assumes "is_component c"
  shows "path_dirname (join (cs @ [c])) = (if cs = [] then [separator] else join cs)"
  using find_last_of_join [OF assms, of cs] by (simp add: path_dirname_def)

lemma absolute_to_relative_join:
  assumes "list_all is_component cs" and "list_all is_component rs"
  shows "absolute_to_relative (join rs) (join (rs @ cs)) = (if cs = [] then [separator] else join cs)"
proof -
  have "\<not> has_trailing_slash (join (rs @ cs))" if ne: "cs \<noteq> []"
  proof -
    obtain ds d where "cs = ds @ [d]" using ne by (metis rev_exhaust)
    moreover from this have "is_component d" using assms(1) by simp
    moreover from this have "last d \<noteq> separator" unfolding is_component_def by (metis last_in_set)
    ultimately show ?thesis by (simp add: has_trailing_slash_def is_component_def)
  qed
  then show ?thesis by (simp add: absolute_to_relative_def Let_def)
qed

end
