(* ===== verification/Metadata_DB.thy ===== *)
theory Metadata_DB
  imports Merge_Op Path_Util "HOL-Library.Char_ord"
begin

text \<open>
  The metadata backend (\<open>src/daemon/backend/metadata/rocksdb_backend.cpp\<close>, \<open>db.cpp\<close>,
  \<open>metadata_module.cpp\<close>, \<open>src/daemon/ops/metadentry.cpp\<close>).

  RocksDB is a parameter: a record of its functions over a state type of its own. Each call says what
  status it returned and on which values and operands it called the merge operator while it ran; the
  merge operator then enters the offsets of the appends among them in the table of the metadata module.
  What the backend relies on is the hypothesis \<open>rocksdb_ok\<close>. A scan returns the merged values only: that the
  iterator, too, may run the merge operator and enter offsets in the table is not modelled, so the
  properties of appends are about runs in which no listing comes between an append and its lookup.
\<close>

section \<open>The key-value store\<close>

datatype rdb_status = Status_OK | Status_NotFound | Status_Other

datatype batch_op = Batch_Delete string | Batch_Put string string

type_synonym merge_call = "string option \<times> string list"

record 's rocksdb =
  rdb_Get :: "'s \<Rightarrow> string \<Rightarrow> rdb_status \<times> string \<times> 's \<times> merge_call list"
  rdb_Merge :: "'s \<Rightarrow> string \<Rightarrow> string \<Rightarrow> rdb_status \<times> 's \<times> merge_call list"
  rdb_Delete :: "'s \<Rightarrow> string \<Rightarrow> rdb_status \<times> 's"
  rdb_Write :: "'s \<Rightarrow> batch_op list \<Rightarrow> rdb_status \<times> 's"
  rdb_Scan :: "'s \<Rightarrow> string \<Rightarrow> (string \<times> string) list"

datatype db_exn = NotFoundException | DBException | ExistsException string | Parse_error md_error

section \<open>The metadata module\<close>

text \<open>The database with the table of reserved offsets.\<close>

record 's mdb =
  mdb_state :: 's
  append_offset_reserve :: "u16 \<rightharpoonup> u64"

definition append_offset_reserve_put :: "u16 \<Rightarrow> u64 \<Rightarrow> (u16 \<rightharpoonup> u64) \<Rightarrow> (u16 \<rightharpoonup> u64)" where
  "append_offset_reserve_put merge_id offset reserve = reserve(merge_id \<mapsto> offset)"

text \<open>None: \<open>std::map::at\<close> throws \<open>out_of_range\<close>.\<close>

definition append_offset_reserve_get_and_erase ::
    "u16 \<Rightarrow> (u16 \<rightharpoonup> u64) \<Rightarrow> (u64 \<times> (u16 \<rightharpoonup> u64)) option" where
  "append_offset_reserve_get_and_erase merge_id reserve =
     (case reserve merge_id of None \<Rightarrow> None | Some out \<Rightarrow> Some (out, reserve(merge_id := None)))"

definition run_merge_call :: "md_config \<Rightarrow> merge_call \<Rightarrow> (u16 \<rightharpoonup> u64) \<Rightarrow> (u16 \<rightharpoonup> u64)" where
  "run_merge_call cfg c reserve = (case FullMergeV2 cfg (fst c) (snd c) of
       Inl _ \<Rightarrow> reserve
     | Inr (_, rs) \<Rightarrow> fold (\<lambda>(merge_id, offset). append_offset_reserve_put merge_id offset) rs reserve)"

definition run_merge_calls :: "md_config \<Rightarrow> merge_call list \<Rightarrow> (u16 \<rightharpoonup> u64) \<Rightarrow> (u16 \<rightharpoonup> u64)" where
  "run_merge_calls cfg cs reserve = fold (run_merge_call cfg) cs reserve"

section \<open>The RocksDB backend\<close>

definition throw_status_excpt :: "rdb_status \<Rightarrow> db_exn" where
  "throw_status_excpt s = (if s = Status_NotFound then NotFoundException else DBException)"

definition db_Get :: "md_config \<Rightarrow> 's rocksdb \<Rightarrow> 's mdb \<Rightarrow> string \<Rightarrow> rdb_status \<times> string \<times> 's mdb" where
  "db_Get cfg api m key = (case rdb_Get api (mdb_state m) key of (s, val, st, cs) \<Rightarrow>
     (s, val, \<lparr>mdb_state = st, append_offset_reserve = run_merge_calls cfg cs (append_offset_reserve m)\<rparr>))"

definition db_Merge ::
    "md_config \<Rightarrow> 's rocksdb \<Rightarrow> 's mdb \<Rightarrow> string \<Rightarrow> merge_operand \<Rightarrow> rdb_status \<times> 's mdb" where
  "db_Merge cfg api m key op = (case rdb_Merge api (mdb_state m) key (serialize_operand op) of (s, st, cs) \<Rightarrow>
     (s, \<lparr>mdb_state = st, append_offset_reserve = run_merge_calls cfg cs (append_offset_reserve m)\<rparr>))"

definition get_impl :: "md_config \<Rightarrow> 's rocksdb \<Rightarrow> 's mdb \<Rightarrow> string \<Rightarrow> (db_exn + string) \<times> 's mdb" where
  "get_impl cfg api m key = (case db_Get cfg api m key of (s, val, m') \<Rightarrow>
     (if s \<noteq> Status_OK then Inl (throw_status_excpt s) else Inr val, m'))"

definition put_impl :: "md_config \<Rightarrow> 's rocksdb \<Rightarrow> 's mdb \<Rightarrow> string \<Rightarrow> string \<Rightarrow> db_exn option \<times> 's mdb" where
  "put_impl cfg api m key val = (case db_Merge cfg api m key (CreateOperand val) of (s, m') \<Rightarrow>
     (if s \<noteq> Status_OK then Some (throw_status_excpt s) else None, m'))"

definition exists_impl :: "md_config \<Rightarrow> 's rocksdb \<Rightarrow> 's mdb \<Rightarrow> string \<Rightarrow> (db_exn + bool) \<times> 's mdb" where
  "exists_impl cfg api m key = (case db_Get cfg api m key of (s, val, m') \<Rightarrow>
     (if s \<noteq> Status_OK
      then (if s = Status_NotFound then Inr False else Inl (throw_status_excpt s))
      else Inr True, m'))"

definition put_no_exist_impl ::
    "md_config \<Rightarrow> 's rocksdb \<Rightarrow> 's mdb \<Rightarrow> string \<Rightarrow> string \<Rightarrow> db_exn option \<times> 's mdb" where
  "put_no_exist_impl cfg api m key val = (case exists_impl cfg api m key of
       (Inl e, m') \<Rightarrow> (Some e, m')
     | (Inr True, m') \<Rightarrow> (Some (ExistsException key), m')
     | (Inr False, m') \<Rightarrow> put_impl cfg api m' key val)"

definition remove_impl :: "'s rocksdb \<Rightarrow> 's mdb \<Rightarrow> string \<Rightarrow> db_exn option \<times> 's mdb" where
  "remove_impl api m key = (case rdb_Delete api (mdb_state m) key of (s, st) \<Rightarrow>
     (if s \<noteq> Status_OK then Some (throw_status_excpt s) else None, m\<lparr>mdb_state := st\<rparr>))"

definition update_impl ::
    "'s rocksdb \<Rightarrow> 's mdb \<Rightarrow> string \<Rightarrow> string \<Rightarrow> string \<Rightarrow> db_exn option \<times> 's mdb" where
  "update_impl api m old_key new_key val =
     (case rdb_Write api (mdb_state m) [Batch_Delete old_key, Batch_Put new_key val] of (s, st) \<Rightarrow>
       (if s \<noteq> Status_OK then Some (throw_status_excpt s) else None, m\<lparr>mdb_state := st\<rparr>))"

text \<open>\<open>if constexpr(use_mtime)\<close> of the size updates; \<open>now\<close> is what \<open>time\<close> returns.\<close>

definition merge_mtime ::
    "md_config \<Rightarrow> 's rocksdb \<Rightarrow> 's mdb \<Rightarrow> string \<Rightarrow> u64 \<Rightarrow> db_exn option \<times> 's mdb" where
  "merge_mtime cfg api m key now =
     (if use_mtime cfg
      then (case db_Merge cfg api m key (UpdateTimeOperand now) of (s, m') \<Rightarrow>
              (if s \<noteq> Status_OK then Some (throw_status_excpt s) else None, m'))
      else (None, m))"

text \<open>The result of \<open>increase_size\<close> is an \<open>off_t\<close>: \<open>-1\<close> unless an append found its reservation.\<close>

definition increase_size_impl ::
    "md_config \<Rightarrow> 's rocksdb \<Rightarrow> 's mdb \<Rightarrow> u16 \<Rightarrow> u64 \<Rightarrow> string \<Rightarrow> u64 \<Rightarrow> u64 \<Rightarrow> bool
       \<Rightarrow> (db_exn + u64) \<times> 's mdb" where
  "increase_size_impl cfg api m merge_id now key io_size offset appd =
     (if appd
      then (case db_Merge cfg api m key (IncreaseSizeOperand io_size merge_id True) of (s, m1) \<Rightarrow>
              if s \<noteq> Status_OK then (Inl (throw_status_excpt s), m1)
              else (case get_impl cfg api m1 key of
                      (Inl e, m2) \<Rightarrow> (Inl e, m2)
                    | (Inr _, m2) \<Rightarrow>
                        (case append_offset_reserve_get_and_erase merge_id (append_offset_reserve m2) of
                           None \<Rightarrow> (Inr (- 1), m2)
                         | Some (out_offset, reserve) \<Rightarrow>
                             (Inr out_offset, m2\<lparr>append_offset_reserve := reserve\<rparr>))))
      else (case db_Merge cfg api m key (IncreaseSizeOperand (offset + io_size) 0 False) of (s, m1) \<Rightarrow>
              if s \<noteq> Status_OK then (Inl (throw_status_excpt s), m1)
              else (case merge_mtime cfg api m1 key now of
                      (Some e, m2) \<Rightarrow> (Inl e, m2)
                    | (None, m2) \<Rightarrow> (Inr (- 1), m2))))"

definition decrease_size_impl ::
    "md_config \<Rightarrow> 's rocksdb \<Rightarrow> 's mdb \<Rightarrow> u64 \<Rightarrow> string \<Rightarrow> u64 \<Rightarrow> db_exn option \<times> 's mdb" where
  "decrease_size_impl cfg api m now key sz =
     (case db_Merge cfg api m key (DecreaseSizeOperand sz) of (s, m1) \<Rightarrow>
        if s \<noteq> Status_OK then (Some (throw_status_excpt s), m1) else merge_mtime cfg api m1 key now)"

section \<open>Directory entries\<close>

text \<open>
  One iteration of the scan: entries that are the directory itself, lie deeper than one level, or carry
  the mark of a renamed file are skipped.
\<close>

primrec dirents_loop ::
    "md_config \<Rightarrow> string \<Rightarrow> (string \<times> string) list \<Rightarrow> (string \<times> Metadata) list
       \<Rightarrow> md_error + (string \<times> Metadata) list" where
  "dirents_loop cfg root_path [] entries = Inr entries"
| "dirents_loop cfg root_path (kv # kvs) entries =
     (if \<not> prefix root_path (fst kv) then Inr entries
      else if length (fst kv) = length root_path then dirents_loop cfg root_path kvs entries
      else if CHR ''/'' \<in> set (drop (length root_path) (fst kv)) then dirents_loop cfg root_path kvs entries
      else (case Metadata_parse cfg (snd kv) of
              Inl e \<Rightarrow> Inl e
            | Inr md \<Rightarrow>
                if has_rename cfg \<and> md_blocks md = - 1 then dirents_loop cfg root_path kvs entries
                else dirents_loop cfg root_path kvs
                       (entries @ [(drop (length root_path) (fst kv), md)])))"

definition get_dirents_impl ::
    "md_config \<Rightarrow> 's rocksdb \<Rightarrow> 's mdb \<Rightarrow> string \<Rightarrow> db_exn + (string \<times> bool) list" where
  "get_dirents_impl cfg api m root_path =
     (case dirents_loop cfg root_path (rdb_Scan api (mdb_state m) root_path) [] of
        Inl e \<Rightarrow> Inl (Parse_error e)
      | Inr es \<Rightarrow> Inr (map (\<lambda>(name, md). (name, S_ISDIR (md_mode md))) es))"

definition get_dirents_extended_impl ::
    "md_config \<Rightarrow> 's rocksdb \<Rightarrow> 's mdb \<Rightarrow> string \<Rightarrow> db_exn + (string \<times> bool \<times> u64 \<times> u64) list" where
  "get_dirents_extended_impl cfg api m root_path =
     (case dirents_loop cfg root_path (rdb_Scan api (mdb_state m) root_path) [] of
        Inl e \<Rightarrow> Inl (Parse_error e)
      | Inr es \<Rightarrow> Inr (map (\<lambda>(name, md). (name, S_ISDIR (md_mode md), md_size md, md_ctime md)) es))"

text \<open>\<open>MetadataDB::get_dirents\<close> adds the slash a directory path lacks.\<close>

definition dirents_root :: "string \<Rightarrow> string" where
  "dirents_root dir = (if \<not> has_trailing_slash dir \<and> length dir \<noteq> 1 then dir @ ''/'' else dir)"

definition mdb_get_dirents ::
    "md_config \<Rightarrow> 's rocksdb \<Rightarrow> 's mdb \<Rightarrow> string \<Rightarrow> db_exn + (string \<times> bool) list" where
  "mdb_get_dirents cfg api m dir = get_dirents_impl cfg api m (dirents_root dir)"

definition mdb_get_dirents_extended ::
    "md_config \<Rightarrow> 's rocksdb \<Rightarrow> 's mdb \<Rightarrow> string \<Rightarrow> db_exn + (string \<times> bool \<times> u64 \<times> u64) list" where
  "mdb_get_dirents_extended cfg api m dir = get_dirents_extended_impl cfg api m (dirents_root dir)"

section \<open>Metadata operations of the daemon\<close>

definition md_get_str :: "md_config \<Rightarrow> 's rocksdb \<Rightarrow> 's mdb \<Rightarrow> string \<Rightarrow> (db_exn + string) \<times> 's mdb" where
  "md_get_str cfg api m path = get_impl cfg api m path"

definition md_get :: "md_config \<Rightarrow> 's rocksdb \<Rightarrow> 's mdb \<Rightarrow> string \<Rightarrow> (db_exn + Metadata) \<times> 's mdb" where
  "md_get cfg api m path = (case md_get_str cfg api m path of
       (Inl e, m') \<Rightarrow> (Inl e, m')
     | (Inr s, m') \<Rightarrow>
         ((case Metadata_parse cfg s of Inl e \<Rightarrow> Inl (Parse_error e) | Inr md \<Rightarrow> Inr md), m'))"

definition md_get_size :: "md_config \<Rightarrow> 's rocksdb \<Rightarrow> 's mdb \<Rightarrow> string \<Rightarrow> (db_exn + u64) \<times> 's mdb" where
  "md_get_size cfg api m path = (case md_get cfg api m path of (r, m') \<Rightarrow> (map_sum id md_size r, m'))"

text \<open>The states \<open>atime_state\<close>, \<open>mtime_state\<close>, \<open>ctime_state\<close> of the daemon decide which times are set;
  \<open>create_exist_check\<close> is on, as in \<open>config.hpp\<close>.\<close>

definition md_create ::
    "md_config \<Rightarrow> 's rocksdb \<Rightarrow> bool \<times> bool \<times> bool \<Rightarrow> u64 \<Rightarrow> 's mdb \<Rightarrow> string \<Rightarrow> Metadata
       \<Rightarrow> db_exn option \<times> 's mdb" where
  "md_create cfg api time_state now m path md = (case time_state of (at, mt, ct) \<Rightarrow>
     (let md' = md\<lparr>md_atime := (if at then now else md_atime md),
                   md_mtime := (if mt then now else md_mtime md),
                   md_ctime := (if ct then now else md_ctime md)\<rparr>
      in put_no_exist_impl cfg api m path (serialize cfg md')))"

definition md_update :: "md_config \<Rightarrow> 's rocksdb \<Rightarrow> 's mdb \<Rightarrow> string \<Rightarrow> Metadata \<Rightarrow> db_exn option \<times> 's mdb" where
  "md_update cfg api m path md = update_impl api m path path (serialize cfg md)"

definition md_update_size ::
    "md_config \<Rightarrow> 's rocksdb \<Rightarrow> 's mdb \<Rightarrow> u16 \<Rightarrow> u64 \<Rightarrow> string \<Rightarrow> u64 \<Rightarrow> u64 \<Rightarrow> bool
       \<Rightarrow> (db_exn + u64) \<times> 's mdb" where
  "md_update_size cfg api m merge_id now path io_size offset appd =
     increase_size_impl cfg api m merge_id now path io_size offset appd"

definition md_remove :: "'s rocksdb \<Rightarrow> 's mdb \<Rightarrow> string \<Rightarrow> db_exn option \<times> 's mdb" where
  "md_remove api m path = (case remove_impl api m path of
       (Some NotFoundException, m') \<Rightarrow> (None, m')
     | r \<Rightarrow> r)"

end
