(* ===== verification/Metadata_DB_Proofs.thy ===== *)
theory Metadata_DB_Proofs
  imports Metadata_DB
begin

text \<open>
  The metadata backend over RocksDB behaves as a map from paths to metadata objects, whenever and
  however RocksDB folds its operands; an append learns the file size before it.
\<close>

section \<open>What the backend relies on\<close>

text \<open>
  A key holds a value and the operands written since, or operands only. The documented meaning of such
  an entry is the result of the merge operator. RocksDB may call the operator on any run of consecutive
  operands, with what comes before collapsed to a value.
\<close>

type_synonym raw_entry = "string option \<times> string list"

definition merged :: "md_config \<Rightarrow> raw_entry \<Rightarrow> string option" where
  "merged cfg r =
     (if snd r = [] then fst r
      else case FullMergeV2 cfg (fst r) (snd r) of Inl _ \<Rightarrow> None | Inr (v, _) \<Rightarrow> Some v)"

definition call_at :: "md_config \<Rightarrow> raw_entry \<Rightarrow> nat \<Rightarrow> nat \<Rightarrow> merge_call" where
  "call_at cfg r i j =
     (if i = 0 then fst r else merged cfg (fst r, take i (snd r)), drop i (take j (snd r)))"

definition call_of :: "md_config \<Rightarrow> raw_entry \<Rightarrow> merge_call \<Rightarrow> bool" where
  "call_of cfg r c \<longleftrightarrow> (\<exists>i j. i < j \<and> j \<le> length (snd r) \<and> c = call_at cfg r i j)"

definition last_call_of :: "md_config \<Rightarrow> raw_entry \<Rightarrow> merge_call \<Rightarrow> bool" where
  "last_call_of cfg r c \<longleftrightarrow> (\<exists>i < length (snd r). c = call_at cfg r i (length (snd r)))"

definition add_operand :: "string \<Rightarrow> raw_entry option \<Rightarrow> raw_entry" where
  "add_operand op e = (case e of None \<Rightarrow> (None, [op]) | Some (b, ops) \<Rightarrow> (b, ops @ [op]))"

definition batch_step :: "batch_op \<Rightarrow> (string \<rightharpoonup> raw_entry) \<Rightarrow> (string \<rightharpoonup> raw_entry)" where
  "batch_step b h = (case b of Batch_Delete k \<Rightarrow> h(k := None) | Batch_Put k v \<Rightarrow> h(k \<mapsto> (Some v, [])))"

text \<open>Keys are ordered bytewise.\<close>

fun key_le :: "string \<Rightarrow> string \<Rightarrow> bool" where
  "key_le [] ys = True"
| "key_le (x # xs) [] = False"
| "key_le (x # xs) (y # ys) \<longleftrightarrow> (of_char x :: nat) < of_char y \<or> x = y \<and> key_le xs ys"

definition get_ok :: "md_config \<Rightarrow> 's rocksdb \<Rightarrow> ('s \<Rightarrow> string \<rightharpoonup> raw_entry) \<Rightarrow> bool" where
  "get_ok cfg api hist \<longleftrightarrow> (\<forall>s k.
     (hist s k = None \<longrightarrow> (\<exists>v s'. rdb_Get api s k = (Status_NotFound, v, s', []) \<and> hist s' = hist s)) \<and>
     (\<forall>r v. hist s k = Some r \<and> merged cfg r = Some v \<longrightarrow>
        (\<exists>s' cs. rdb_Get api s k = (Status_OK, v, s', cs) \<and> hist s' = hist s \<and> list_all (call_of cfg r) cs)))"

definition merge_ok :: "md_config \<Rightarrow> 's rocksdb \<Rightarrow> ('s \<Rightarrow> string \<rightharpoonup> raw_entry) \<Rightarrow> bool" where
  "merge_ok cfg api hist \<longleftrightarrow> (\<forall>s k op. let r = add_operand op (hist s k) in
     \<exists>s' cs. rdb_Merge api s k op = (Status_OK, s', cs) \<and> hist s' = (hist s)(k \<mapsto> r) \<and>
       list_all (call_of cfg r) cs \<and>
       (\<forall>v. merged cfg r = Some v \<longrightarrow>
          list_ex (last_call_of cfg r) (cs @ snd (snd (snd (rdb_Get api s' k))))))"

definition scan_ok :: "md_config \<Rightarrow> 's rocksdb \<Rightarrow> ('s \<Rightarrow> string \<rightharpoonup> raw_entry) \<Rightarrow> bool" where
  "scan_ok cfg api hist \<longleftrightarrow> (\<forall>s start.
     sorted_wrt (\<lambda>a b. key_le (fst a) (fst b) \<and> fst a \<noteq> fst b) (rdb_Scan api s start) \<and>
     set (rdb_Scan api s start) =
       {(k, v). key_le start k \<and> (\<exists>r. hist s k = Some r \<and> merged cfg r = Some v)})"

definition rocksdb_ok :: "md_config \<Rightarrow> 's rocksdb \<Rightarrow> ('s \<Rightarrow> string \<rightharpoonup> raw_entry) \<Rightarrow> bool" where
  "rocksdb_ok cfg api hist \<longleftrightarrow> get_ok cfg api hist \<and> merge_ok cfg api hist \<and> scan_ok cfg api hist \<and>
     (\<forall>s k. \<exists>s'. rdb_Delete api s k = (Status_OK, s') \<and> hist s' = (hist s)(k := None)) \<and>
     (\<forall>s b. \<exists>s'. rdb_Write api s b = (Status_OK, s') \<and> hist s' = fold batch_step b (hist s))"

section \<open>Entries written by the backend\<close>

definition entry_of :: "md_config \<Rightarrow> raw_entry \<Rightarrow> Metadata \<Rightarrow> merge_operand list \<Rightarrow> bool" where
  "entry_of cfg r md ops \<longleftrightarrow>
     (r = (Some (serialize cfg md), map serialize_operand ops) \<or>
      r = (None, map serialize_operand (CreateOperand (serialize cfg md) # ops))) \<and>
     (\<forall>i \<le> length ops. storable cfg (apply_operands (take i ops) md))"

definition wf_hist :: "md_config \<Rightarrow> (string \<rightharpoonup> raw_entry) \<Rightarrow> bool" where
  "wf_hist cfg h \<longleftrightarrow> (\<forall>k r. h k = Some r \<longrightarrow> (\<exists>md ops. entry_of cfg r md ops))"

definition view :: "md_config \<Rightarrow> (string \<rightharpoonup> raw_entry) \<Rightarrow> string \<rightharpoonup> Metadata" where
  "view cfg h k = (case h k of
       None \<Rightarrow> None
     | Some r \<Rightarrow> (case merged cfg r of
         None \<Rightarrow> None
       | Some v \<Rightarrow> (case Metadata_parse cfg v of Inl _ \<Rightarrow> None | Inr md \<Rightarrow> Some md)))"

lemma entry_storable:
  assumes "entry_of cfg r md ops"
  shows "storable cfg (apply_operands ops md)" and "storable cfg md"
  using assms unfolding entry_of_def by (metis order_refl take_all_iff, metis apply_operands_simps(1) take0 le0 take_0)

lemma entry_take:
  assumes "entry_of cfg r md ops"
  shows "storable cfg (apply_operands (take i ops) md)"
  using assms unfolding entry_of_def by (cases "i \<le> length ops") (auto simp: take_all_iff [THEN iffD2] dest: spec [of _ "length ops"])

lemma merged_entry:
  assumes "entry_of cfg r md ops"
  shows "merged cfg r = Some (serialize cfg (apply_operands ops md))"
  using assms FullMergeV2_value [OF entry_storable(2) [OF assms], of ops]
    FullMergeV2_create [OF entry_storable(2) [OF assms], of ops]
  by (auto simp: entry_of_def merged_def)

lemma view_entry:
  assumes "h k = Some r" and "entry_of cfg r md ops"
  shows "view cfg h k = Some (stored cfg (apply_operands ops md))"
  using assms merged_entry [OF assms(2)] Metadata_parse_serialize [OF entry_storable(1) [OF assms(2)]]
  by (simp add: view_def)

lemma view_None: "wf_hist cfg h \<Longrightarrow> view cfg h k = None \<longleftrightarrow> h k = None"
  using view_entry by (fastforce simp: wf_hist_def view_def split: option.splits)

lemma entry_extend:
  assumes "entry_of cfg r md ops" and "storable cfg (apply_operand op (apply_operands ops md))"
  shows "entry_of cfg (add_operand (serialize_operand op) (Some r)) md (ops @ [op])"
proof -
  have "storable cfg (apply_operands (take i (ops @ [op])) md)" for i
    using assms(2) entry_take [OF assms(1), of i]
    by (cases "i \<le> length ops") (simp_all add: apply_operands_append)
  then show ?thesis using assms(1) by (auto simp: entry_of_def add_operand_def)
qed

lemma entry_new:
  assumes "storable cfg md"
  shows "entry_of cfg (add_operand (serialize_operand (CreateOperand (serialize cfg md))) None) md []"
    and "entry_of cfg (Some (serialize cfg md), []) md []"
  using assms by (simp_all add: entry_of_def add_operand_def)

section \<open>Reserved offsets\<close>

definition append_ids :: "merge_operand list \<Rightarrow> u16 set" where
  "append_ids ops = {m. \<exists>sz. IncreaseSizeOperand sz m True \<in> set ops}"

lemma all_reserves_ids: "fst ` set (all_reserves ops md) \<subseteq> append_ids ops"
proof (induction ops arbitrary: md)
  case (Cons op ops)
  have "fst ` set (reserves op md) \<subseteq> append_ids [op]"
    by (cases op) (auto simp: reserves_def append_ids_def split: bool.splits)
  then show ?case using Cons [of "apply_operand op md"] by (auto simp: append_ids_def)
qed simp

lemma put_all_other:
  "m \<notin> fst ` set rs \<Longrightarrow>
     fold (\<lambda>(merge_id, offset). append_offset_reserve_put merge_id offset) rs reserve m = reserve m"
  by (induction rs arbitrary: reserve) (auto simp: append_offset_reserve_put_def)

text \<open>A call of the merge operator on operands of a written entry, in terms of the operands' meaning.\<close>

lemma FullMergeV2_call:
  assumes e: "entry_of cfg r md ops" and ij: "i < j" "j \<le> length (snd r)"
  obtains a b v where "a \<le> b" and "b \<le> length ops" and "j = length (snd r) \<longrightarrow> b = length ops"
    and "j = length (snd r) \<longrightarrow> ops \<noteq> [] \<longrightarrow> a < b"
    and "FullMergeV2 cfg (fst (call_at cfg r i j)) (snd (call_at cfg r i j)) =
      Inr (v, all_reserves (drop a (take b ops)) (apply_operands (take a ops) md))"
proof -
  have vals: "FullMergeV2 cfg (Some (serialize cfg (apply_operands (take a ops) md)))
      (map serialize_operand (drop a (take b ops))) =
    Inr (serialize cfg (apply_operands (drop a (take b ops)) (apply_operands (take a ops) md)),
         all_reserves (drop a (take b ops)) (apply_operands (take a ops) md))" for a b
    using FullMergeV2_value [OF entry_take [OF e]] by blast
  have prefix: "merged cfg (Some (serialize cfg md), map serialize_operand (take a ops)) =
      Some (serialize cfg (apply_operands (take a ops) md))" for a
    using merged_entry [of cfg "(Some (serialize cfg md), map serialize_operand (take a ops))" md "take a ops"]
      entry_take [OF e] by (simp add: entry_of_def min_def split: if_splits)
  have prefix': "merged cfg (None, map serialize_operand (CreateOperand (serialize cfg md) # take a ops)) =
      Some (serialize cfg (apply_operands (take a ops) md))" for a
    using merged_entry [of cfg "(None, map serialize_operand (CreateOperand (serialize cfg md) # take a ops))" md "take a ops"]
      entry_take [OF e] by (simp add: entry_of_def min_def split: if_splits)
  consider "r = (Some (serialize cfg md), map serialize_operand ops)"
    | "r = (None, map serialize_operand (CreateOperand (serialize cfg md) # ops))"
    using e by (auto simp: entry_of_def)
  then show thesis
  proof cases
    case 1
    have "call_at cfg r i j = (Some (serialize cfg (apply_operands (take i ops) md)),
        map serialize_operand (drop i (take j ops)))"
      using prefix [of i] by (cases "i = 0") (simp_all add: call_at_def 1 take_map drop_map)
    then show thesis using that [of i j] vals [of i j] ij by (simp add: 1)
  next
    case 2
    show thesis
    proof (cases i)
      case 0
      obtain j' where j: "j = Suc j'" using ij by (cases j) auto
      have "call_at cfg r i j = (None, map serialize_operand (CreateOperand (serialize cfg md) # take j' ops))"
        by (simp add: call_at_def 2 0 j take_map)
      then have "FullMergeV2 cfg (fst (call_at cfg r i j)) (snd (call_at cfg r i j)) =
          FullMergeV2 cfg (Some (serialize cfg md)) (map serialize_operand (take j' ops))"
        using FullMergeV2_create [OF entry_storable(2) [OF e], of "take j' ops"] by (simp del: list.map)
      then show thesis using that [of 0 j'] vals [of 0 j'] ij by (simp add: 2 j)
    next
      case (Suc i')
      obtain j' where j: "j = Suc j'" using ij by (cases j) auto
      have "call_at cfg r i j = (Some (serialize cfg (apply_operands (take i' ops) md)),
          map serialize_operand (drop i' (take j' ops)))"
        using prefix' [of i'] by (simp add: call_at_def 2 Suc j take_map drop_map)
      then show thesis using that [of i' j'] vals [of i' j'] ij by (simp add: 2 Suc j)
    qed
  qed
qed

lemma put_all_last:
  "fold (\<lambda>(merge_id, offset). append_offset_reserve_put merge_id offset) (rs @ [(m, off)]) reserve m = Some off"
  by (simp add: append_offset_reserve_put_def)

lemma run_merge_call_reserve:
  assumes e: "entry_of cfg r md (ops @ [IncreaseSizeOperand sz m True])" and m: "m \<notin> append_ids ops"
    and c: "call_of cfg r c"
  shows "run_merge_call cfg c reserve m = reserve m \<or>
      run_merge_call cfg c reserve m = Some (md_size (apply_operands ops md))"
    and "last_call_of cfg r c \<Longrightarrow> run_merge_call cfg c reserve m = Some (md_size (apply_operands ops md))"
proof -
  let ?op = "IncreaseSizeOperand sz m True"
  have hit: "fold (\<lambda>(merge_id, offset). append_offset_reserve_put merge_id offset)
      (all_reserves (drop a (take b (ops @ [?op]))) (apply_operands (take a (ops @ [?op])) md)) reserve m =
    (if a < b \<and> b = Suc (length ops) then Some (md_size (apply_operands ops md)) else reserve m)"
    if "a \<le> b" "b \<le> Suc (length ops)" for a b
  proof (cases "a < b \<and> b = Suc (length ops)")
    case True
    then have a: "a \<le> length ops" by simp
    have "all_reserves (drop a (take b (ops @ [?op]))) (apply_operands (take a (ops @ [?op])) md) =
        all_reserves (drop a ops) (apply_operands (take a ops) md) @
        [(m, md_size (apply_operands (drop a ops) (apply_operands (take a ops) md)))]"
      using True a by (simp add: all_reserves_append reserves_def)
    moreover have "apply_operands (drop a ops) (apply_operands (take a ops) md) = apply_operands ops md"
      by (simp flip: apply_operands_append)
    ultimately show ?thesis unfolding if_P [OF True] by (simp only: put_all_last)
  next
    case False
    have "set (drop a (take b (ops @ [?op]))) \<subseteq> set ops"
    proof (cases "b \<le> length ops")
      case True
      then show ?thesis by (auto dest!: in_set_dropD in_set_takeD)
    next
      case nb: False
      then have "a = b" "b = Suc (length ops)" using False that by linarith+
      then show ?thesis by simp
    qed
    then have "m \<notin> append_ids (drop a (take b (ops @ [?op])))" using m by (auto simp: append_ids_def)
    then show ?thesis using False all_reserves_ids by (subst put_all_other) auto
  qed
  have call: "run_merge_call cfg (call_at cfg r i j) reserve m \<in> {reserve m, Some (md_size (apply_operands ops md))} \<and>
      (j = length (snd r) \<longrightarrow> run_merge_call cfg (call_at cfg r i j) reserve m = Some (md_size (apply_operands ops md)))"
    if ij: "i < j" "j \<le> length (snd r)" for i j
  proof -
    obtain a b v where ab: "a \<le> b" "b \<le> length (ops @ [?op])" "j = length (snd r) \<longrightarrow> b = length (ops @ [?op])"
      "j = length (snd r) \<longrightarrow> ops @ [?op] \<noteq> [] \<longrightarrow> a < b"
      and fm: "FullMergeV2 cfg (fst (call_at cfg r i j)) (snd (call_at cfg r i j)) =
        Inr (v, all_reserves (drop a (take b (ops @ [?op]))) (apply_operands (take a (ops @ [?op])) md))"
      by (rule FullMergeV2_call [OF e ij])
    have "run_merge_call cfg (call_at cfg r i j) reserve m =
        (if a < b \<and> b = Suc (length ops) then Some (md_size (apply_operands ops md)) else reserve m)"
      unfolding run_merge_call_def fm using hit [of a b] ab by simp
    then show ?thesis using ab(3,4) by auto
  qed
  show "run_merge_call cfg c reserve m = reserve m \<or>
      run_merge_call cfg c reserve m = Some (md_size (apply_operands ops md))"
    using c call unfolding call_of_def by blast
  show "run_merge_call cfg c reserve m = Some (md_size (apply_operands ops md))" if "last_call_of cfg r c"
    using that call unfolding last_call_of_def by blast
qed

lemma run_merge_calls_reserve:
  assumes e: "entry_of cfg r md (ops @ [IncreaseSizeOperand sz m True])" and m: "m \<notin> append_ids ops"
    and cs: "list_all (call_of cfg r) cs"
    and hit: "list_ex (last_call_of cfg r) cs \<or> reserve m = Some (md_size (apply_operands ops md))"
  shows "run_merge_calls cfg cs reserve m = Some (md_size (apply_operands ops md))"
  using cs hit
proof (induction cs arbitrary: reserve)
  case (Cons c cs)
  have c: "call_of cfg r c" "list_all (call_of cfg r) cs" using Cons.prems by simp_all
  note step = run_merge_call_reserve [OF e m c(1), of reserve]
  have "run_merge_calls cfg cs (run_merge_call cfg c reserve) m = Some (md_size (apply_operands ops md))"
    using step Cons.prems by (intro Cons.IH [OF c(2)]) auto
  then show ?case by (simp add: run_merge_calls_def)
qed (simp add: run_merge_calls_def)

section \<open>The operations of the backend\<close>

lemma rocksdb_okD:
  assumes "rocksdb_ok cfg api hist"
  shows "get_ok cfg api hist" and "merge_ok cfg api hist" and "scan_ok cfg api hist"
    and "\<exists>s'. rdb_Delete api s k = (Status_OK, s') \<and> hist s' = (hist s)(k := None)"
    and "\<exists>s'. rdb_Write api s b = (Status_OK, s') \<and> hist s' = fold batch_step b (hist s)"
  using assms unfolding rocksdb_ok_def by blast+

lemma get_okD:
  assumes "get_ok cfg api hist" and "hist s k = Some r" and "merged cfg r = Some v"
  obtains s' cs where "rdb_Get api s k = (Status_OK, v, s', cs)" and "hist s' = hist s"
    and "list_all (call_of cfg r) cs"
  using assms unfolding get_ok_def by blast

lemma db_Merge_ok:
  assumes "rocksdb_ok cfg api hist"
  obtains m' where "db_Merge cfg api m k op = (Status_OK, m')"
    and "hist (mdb_state m') = (hist (mdb_state m))(k \<mapsto> add_operand (serialize_operand op) (hist (mdb_state m) k))"
proof -
  obtain s' cs where "rdb_Merge api (mdb_state m) k (serialize_operand op) = (Status_OK, s', cs)"
    "hist s' = (hist (mdb_state m))(k \<mapsto> add_operand (serialize_operand op) (hist (mdb_state m) k))"
    using rocksdb_okD(2) [OF assms] unfolding merge_ok_def Let_def by blast
  then show thesis using that by (simp add: db_Merge_def)
qed

lemma db_Get_missing:
  assumes "rocksdb_ok cfg api hist" and "hist (mdb_state m) k = None"
  obtains v m' where "db_Get cfg api m k = (Status_NotFound, v, m')" and "hist (mdb_state m') = hist (mdb_state m)"
proof -
  obtain v s' where "rdb_Get api (mdb_state m) k = (Status_NotFound, v, s', [])" "hist s' = hist (mdb_state m)"
    using rocksdb_okD(1) [OF assms(1)] assms(2) unfolding get_ok_def by blast
  then show thesis using that by (simp add: db_Get_def)
qed

lemma db_Get_present:
  assumes "rocksdb_ok cfg api hist" and "hist (mdb_state m) k = Some r" and "entry_of cfg r md ops"
  obtains m' where "db_Get cfg api m k = (Status_OK, serialize cfg (apply_operands ops md), m')"
    and "hist (mdb_state m') = hist (mdb_state m)"
proof -
  obtain s' cs where "rdb_Get api (mdb_state m) k = (Status_OK, serialize cfg (apply_operands ops md), s', cs)"
    "hist s' = hist (mdb_state m)"
    using rocksdb_okD(1) [OF assms(1)] assms(2) merged_entry [OF assms(3)] unfolding get_ok_def by blast
  then show thesis using that by (simp add: db_Get_def)
qed

text \<open>An append learns the size before it, whenever RocksDB runs the merge operator.\<close>

lemma increase_size_append:
  assumes ok: "rocksdb_ok cfg api hist" and k: "hist (mdb_state m) k = Some r" and e: "entry_of cfg r md ops"
    and id: "merge_id \<notin> append_ids ops"
    and fit: "storable cfg (apply_operand (IncreaseSizeOperand sz merge_id True) (apply_operands ops md))"
  obtains m' where "increase_size_impl cfg api m merge_id now k sz off True = (Inr (md_size (apply_operands ops md)), m')"
    and "hist (mdb_state m') = (hist (mdb_state m))(k \<mapsto>
      add_operand (serialize_operand (IncreaseSizeOperand sz merge_id True)) (Some r))"
proof -
  let ?op = "IncreaseSizeOperand sz merge_id True" and ?h = "hist (mdb_state m)"
  define r' where "r' = add_operand (serialize_operand ?op) (Some r)"
  have e': "entry_of cfg r' md (ops @ [?op])" unfolding r'_def by (rule entry_extend [OF e fit])
  note v = merged_entry [OF e']
  obtain s1 cs where mg: "rdb_Merge api (mdb_state m) k (serialize_operand ?op) = (Status_OK, s1, cs)"
    and h1: "hist s1 = ?h(k \<mapsto> r')" and cs: "list_all (call_of cfg r') cs"
    and ex: "list_ex (last_call_of cfg r') (cs @ snd (snd (snd (rdb_Get api s1 k))))"
    using rocksdb_okD(2) [OF ok, unfolded merge_ok_def Let_def, rule_format, of "mdb_state m" k "serialize_operand ?op"] k v
    unfolding r'_def by auto
  obtain s2 cs2 where gt: "rdb_Get api s1 k = (Status_OK, serialize cfg (apply_operands (ops @ [?op]) md), s2, cs2)"
    and h2: "hist s2 = hist s1" and cs2: "list_all (call_of cfg r') cs2"
    using get_okD [OF rocksdb_okD(1) [OF ok] _ v, of s1 k] h1 by auto
  let ?res = "run_merge_calls cfg cs2 (run_merge_calls cfg cs (append_offset_reserve m))"
  have "run_merge_calls cfg (cs @ cs2) (append_offset_reserve m) merge_id = Some (md_size (apply_operands ops md))"
    using cs cs2 ex gt by (intro run_merge_calls_reserve [OF e' id]) auto
  then have res: "?res merge_id = Some (md_size (apply_operands ops md))" by (simp add: run_merge_calls_def)
  show thesis
  proof (rule that)
    show "increase_size_impl cfg api m merge_id now k sz off True =
        (Inr (md_size (apply_operands ops md)), \<lparr>mdb_state = s2, append_offset_reserve = ?res(merge_id := None)\<rparr>)"
      by (simp add: increase_size_impl_def db_Merge_def mg get_impl_def db_Get_def gt
          append_offset_reserve_get_and_erase_def res)
  qed (simp add: h1 h2 r'_def)
qed

end
