(* ===== verification/Metadata_Backend.thy ===== *)
theory Metadata_Backend
  imports Metadata_DB_Proofs
begin

text \<open>
  The contract of a metadata backend (\<open>AbstractMetadataBackend\<close>): it is a map from paths to metadata
  objects, and each operation changes the entry of its path and no other. The daemon's operations on the
  RocksDB backend meet it.
\<close>

section \<open>The contract\<close>

locale metadata_backend =
  fixes valid :: "'d \<Rightarrow> bool"
    and contents :: "'d \<Rightarrow> string \<rightharpoonup> Metadata"
    and canon canon_new :: "Metadata \<Rightarrow> Metadata"
    and fits :: "Metadata \<Rightarrow> bool"
    and get_op :: "'d \<Rightarrow> string \<Rightarrow> (db_exn + Metadata) \<times> 'd"
    and create_op :: "'d \<Rightarrow> string \<Rightarrow> Metadata \<Rightarrow> db_exn option \<times> 'd"
    and update_op :: "'d \<Rightarrow> string \<Rightarrow> Metadata \<Rightarrow> db_exn option \<times> 'd"
    and remove_op :: "'d \<Rightarrow> string \<Rightarrow> db_exn option \<times> 'd"
  assumes get_law: "valid d \<Longrightarrow> \<exists>d'. get_op d k =
        ((case contents d k of None \<Rightarrow> Inl NotFoundException | Some md \<Rightarrow> Inr md), d') \<and>
        valid d' \<and> contents d' = contents d"
    and create_law: "valid d \<Longrightarrow> fits md \<Longrightarrow> \<exists>d'. create_op d k md =
        (if contents d k = None then None else Some (ExistsException k), d') \<and> valid d' \<and>
        contents d' = (if contents d k = None then (contents d)(k \<mapsto> canon_new md) else contents d)"
    and update_law: "valid d \<Longrightarrow> fits md \<Longrightarrow> \<exists>d'. update_op d k md = (None, d') \<and> valid d' \<and>
        contents d' = (contents d)(k \<mapsto> canon md)"
    and remove_law: "valid d \<Longrightarrow> \<exists>d'. remove_op d k = (None, d') \<and> valid d' \<and>
        contents d' = (contents d)(k := None)"
begin

lemma create_get:
  assumes "valid d" and "fits md" and "contents d k = None"
  shows "fst (create_op d k md) = None" and "fst (get_op (snd (create_op d k md)) k) = Inr (canon_new md)"
proof -
  obtain d1 where c: "create_op d k md = (None, d1)" "valid d1" "contents d1 = (contents d)(k \<mapsto> canon_new md)"
    using create_law [OF assms(1,2), of k] assms(3) by auto
  then show "fst (create_op d k md) = None" "fst (get_op (snd (create_op d k md)) k) = Inr (canon_new md)"
    using get_law [OF c(2), of k] by auto
qed

lemma create_twice:
  assumes "valid d" and "fits md" and "fits md'"
  shows "fst (create_op (snd (create_op d k md)) k md') = Some (ExistsException k)"
    and "contents (snd (create_op (snd (create_op d k md)) k md')) = contents (snd (create_op d k md))"
proof -
  obtain d1 where c: "create_op d k md = (if contents d k = None then None else Some (ExistsException k), d1)"
    "valid d1" "contents d1 k \<noteq> None"
    using create_law [OF assms(1,2), of k] by (auto split: if_splits)
  then show "fst (create_op (snd (create_op d k md)) k md') = Some (ExistsException k)"
    "contents (snd (create_op (snd (create_op d k md)) k md')) = contents (snd (create_op d k md))"
    using create_law [OF c(2) assms(3), of k] by auto
qed

lemma remove_get:
  assumes "valid d"
  shows "fst (get_op (snd (remove_op d k)) k) = Inl NotFoundException"
    and "k' \<noteq> k \<Longrightarrow> fst (get_op (snd (remove_op d k)) k') = fst (get_op d k')"
proof -
  obtain d1 where r: "remove_op d k = (None, d1)" "valid d1" "contents d1 = (contents d)(k := None)"
    using remove_law [OF assms, of k] by blast
  show "fst (get_op (snd (remove_op d k)) k) = Inl NotFoundException"
    using get_law [OF r(2), of k] r by auto
  show "fst (get_op (snd (remove_op d k)) k') = fst (get_op d k')" if "k' \<noteq> k"
    using get_law [OF r(2), of k'] get_law [OF assms, of k'] r that by auto
qed

lemma remove_create:
  assumes "valid d" and "fits md"
  shows "fst (create_op (snd (remove_op d k)) k md) = None"
proof -
  obtain d1 where r: "remove_op d k = (None, d1)" "valid d1" "contents d1 = (contents d)(k := None)"
    using remove_law [OF assms(1), of k] by blast
  then show ?thesis using create_get(1) [OF r(2) assms(2), of k] by simp
qed

end

section \<open>RocksDB meets it\<close>

definition mdb_valid :: "md_config \<Rightarrow> 's rocksdb \<Rightarrow> ('s \<Rightarrow> string \<rightharpoonup> raw_entry) \<Rightarrow> 's mdb \<Rightarrow> bool" where
  "mdb_valid cfg api hist m \<longleftrightarrow> rocksdb_ok cfg api hist \<and> wf_hist cfg (hist (mdb_state m))"

definition mdb_view :: "md_config \<Rightarrow> ('s \<Rightarrow> string \<rightharpoonup> raw_entry) \<Rightarrow> 's mdb \<Rightarrow> string \<rightharpoonup> Metadata" where
  "mdb_view cfg hist m = view cfg (hist (mdb_state m))"

lemma wf_hist_entry:
  assumes "wf_hist cfg h" and "h k = Some r"
  obtains md ops where "entry_of cfg r md ops"
  using assms unfolding wf_hist_def by blast

lemma wf_hist_upd: "wf_hist cfg h \<Longrightarrow> entry_of cfg r md ops \<Longrightarrow> wf_hist cfg (h(k \<mapsto> r))"
  unfolding wf_hist_def by auto

lemma wf_hist_del: "wf_hist cfg h \<Longrightarrow> wf_hist cfg (h(k := None))"
  unfolding wf_hist_def by auto

lemma view_upd:
  assumes "entry_of cfg r md ops"
  shows "view cfg (h(k \<mapsto> r)) = (view cfg h)(k \<mapsto> stored cfg (apply_operands ops md))"
proof
  fix k'
  show "view cfg (h(k \<mapsto> r)) k' = ((view cfg h)(k \<mapsto> stored cfg (apply_operands ops md))) k'"
    using view_entry [of "h(k \<mapsto> r)" k r cfg md ops] assms by (auto simp: view_def)
qed

lemma view_del: "view cfg (h(k := None)) = (view cfg h)(k := None)"
  by (rule ext) (simp add: view_def)

lemma md_get_law:
  assumes "mdb_valid cfg api hist m"
  shows "\<exists>m'. md_get cfg api m k =
    ((case mdb_view cfg hist m k of None \<Rightarrow> Inl NotFoundException | Some md \<Rightarrow> Inr md), m') \<and>
    mdb_valid cfg api hist m' \<and> mdb_view cfg hist m' = mdb_view cfg hist m"
proof -
  have ok: "rocksdb_ok cfg api hist" and wf: "wf_hist cfg (hist (mdb_state m))"
    using assms by (simp_all add: mdb_valid_def)
  show ?thesis
  proof (cases "hist (mdb_state m) k")
    case None
    obtain v m' where "db_Get cfg api m k = (Status_NotFound, v, m')" "hist (mdb_state m') = hist (mdb_state m)"
      by (rule db_Get_missing [OF ok None])
    then show ?thesis
      using None ok wf by (simp add: md_get_def md_get_str_def get_impl_def throw_status_excpt_def
          mdb_view_def view_def mdb_valid_def)
  next
    case (Some r)
    obtain md ops where e: "entry_of cfg r md ops" by (rule wf_hist_entry [OF wf Some])
    obtain m' where "db_Get cfg api m k = (Status_OK, serialize cfg (apply_operands ops md), m')"
      "hist (mdb_state m') = hist (mdb_state m)"
      by (rule db_Get_present [OF ok Some e])
    then show ?thesis
      using ok wf view_entry [of "hist (mdb_state m)" k, OF Some e] Metadata_parse_serialize [OF entry_storable(1) [OF e]]
      by (simp add: md_get_def md_get_str_def get_impl_def mdb_view_def mdb_valid_def)
  qed
qed

definition with_times :: "bool \<times> bool \<times> bool \<Rightarrow> u64 \<Rightarrow> Metadata \<Rightarrow> Metadata" where
  "with_times time_state now md = (case time_state of (at, mt, ct) \<Rightarrow>
     md\<lparr>md_atime := (if at then now else md_atime md), md_mtime := (if mt then now else md_mtime md),
        md_ctime := (if ct then now else md_ctime md)\<rparr>)"

lemma storable_with_times [simp]: "storable cfg (with_times time_state now md) = storable cfg md"
  by (simp add: storable_def with_times_def split: prod.splits)

lemma md_create_law:
  assumes "mdb_valid cfg api hist m" and "storable cfg md"
  shows "\<exists>m'. md_create cfg api time_state now m k md =
      (if mdb_view cfg hist m k = None then None else Some (ExistsException k), m') \<and> mdb_valid cfg api hist m' \<and>
    mdb_view cfg hist m' = (if mdb_view cfg hist m k = None
      then (mdb_view cfg hist m)(k \<mapsto> stored cfg (with_times time_state now md)) else mdb_view cfg hist m)"
proof -
  have ok: "rocksdb_ok cfg api hist" and wf: "wf_hist cfg (hist (mdb_state m))"
    using assms by (simp_all add: mdb_valid_def)
  let ?md = "with_times time_state now md"
  have create: "md_create cfg api time_state now m k md = put_no_exist_impl cfg api m k (serialize cfg ?md)"
    by (cases time_state) (simp add: md_create_def with_times_def Let_def)
  have st: "storable cfg ?md" using assms(2) by simp
  show ?thesis
  proof (cases "hist (mdb_state m) k")
    case None
    then have vn: "mdb_view cfg hist m k = None" by (simp add: mdb_view_def view_def)
    obtain v m1 where g: "db_Get cfg api m k = (Status_NotFound, v, m1)" "hist (mdb_state m1) = hist (mdb_state m)"
      by (rule db_Get_missing [OF ok None])
    obtain m2 where p: "db_Merge cfg api m1 k (CreateOperand (serialize cfg ?md)) = (Status_OK, m2)"
      "hist (mdb_state m2) = (hist (mdb_state m1))(k \<mapsto>
         add_operand (serialize_operand (CreateOperand (serialize cfg ?md))) (hist (mdb_state m1) k))"
      by (rule db_Merge_ok [OF ok])
    note e = entry_new(1) [OF st]
    have "mdb_valid cfg api hist m2" using ok wf_hist_upd [OF wf e] p(2) g(2) None by (simp add: mdb_valid_def)
    moreover have "mdb_view cfg hist m2 = (mdb_view cfg hist m)(k \<mapsto> stored cfg ?md)"
      using view_upd [OF e, of "hist (mdb_state m)" k] p(2) g(2) None by (simp add: mdb_view_def)
    ultimately show ?thesis
      using vn by (simp add: create put_no_exist_impl_def exists_impl_def g put_impl_def p(1))
  next
    case (Some r)
    obtain md0 ops where e: "entry_of cfg r md0 ops" by (rule wf_hist_entry [OF wf Some])
    obtain m' where g: "db_Get cfg api m k = (Status_OK, serialize cfg (apply_operands ops md0), m')"
      "hist (mdb_state m') = hist (mdb_state m)"
      by (rule db_Get_present [OF ok Some e])
    have vn: "mdb_view cfg hist m k \<noteq> None" using view_entry [of "hist (mdb_state m)" k, OF Some e] by (simp add: mdb_view_def)
    then show ?thesis
      using ok wf g(2) by (simp add: create put_no_exist_impl_def exists_impl_def g(1) mdb_valid_def mdb_view_def)
  qed
qed

lemma md_update_law:
  assumes "mdb_valid cfg api hist m" and "storable cfg md"
  shows "\<exists>m'. md_update cfg api m k md = (None, m') \<and> mdb_valid cfg api hist m' \<and>
    mdb_view cfg hist m' = (mdb_view cfg hist m)(k \<mapsto> stored cfg md)"
proof -
  have ok: "rocksdb_ok cfg api hist" and wf: "wf_hist cfg (hist (mdb_state m))"
    using assms by (simp_all add: mdb_valid_def)
  obtain s' where w: "rdb_Write api (mdb_state m) [Batch_Delete k, Batch_Put k (serialize cfg md)] = (Status_OK, s')"
    "hist s' = (hist (mdb_state m))(k \<mapsto> (Some (serialize cfg md), []))"
    using rocksdb_okD(5) [OF ok, of "mdb_state m" "[Batch_Delete k, Batch_Put k (serialize cfg md)]"]
    by (auto simp: batch_step_def)
  note e = entry_new(2) [OF assms(2)]
  show ?thesis
    using ok w wf_hist_upd [OF wf e] view_upd [OF e, of "hist (mdb_state m)" k]
    by (simp add: md_update_def update_impl_def mdb_valid_def mdb_view_def)
qed

lemma md_remove_law:
  assumes "mdb_valid cfg api hist m"
  shows "\<exists>m'. md_remove api m k = (None, m') \<and> mdb_valid cfg api hist m' \<and>
    mdb_view cfg hist m' = (mdb_view cfg hist m)(k := None)"
proof -
  have ok: "rocksdb_ok cfg api hist" and wf: "wf_hist cfg (hist (mdb_state m))"
    using assms by (simp_all add: mdb_valid_def)
  obtain s' where "rdb_Delete api (mdb_state m) k = (Status_OK, s')" "hist s' = (hist (mdb_state m))(k := None)"
    using rocksdb_okD(4) [OF ok] by blast
  then show ?thesis
    using ok wf_hist_del [OF wf] by (simp add: md_remove_def remove_impl_def mdb_valid_def mdb_view_def view_del)
qed

interpretation rocks: metadata_backend "mdb_valid cfg api hist" "mdb_view cfg hist"
    "stored cfg" "\<lambda>md. stored cfg (with_times time_state now md)" "storable cfg" "md_get cfg api"
    "md_create cfg api time_state now" "md_update cfg api" "md_remove api"
  for cfg and api :: "'s rocksdb" and hist time_state now
  by unfold_locales (fact md_get_law md_create_law md_update_law md_remove_law)+

section \<open>Size updates\<close>

lemma stored_apply_operand:
  "stored cfg (apply_operand op (stored cfg md)) = stored cfg (apply_operand op md)"
  using stored_apply [of cfg "[op]" md] by simp

lemma storable_apply_stored:
  assumes "storable cfg md" and "storable cfg (apply_operand op (stored cfg md))"
  shows "storable cfg (apply_operand op md)"
  using assms by (cases op) (auto simp: apply_operand_def storable_def stored_def)

lemma view_entryE:
  assumes "mdb_valid cfg api hist m" and "mdb_view cfg hist m k = Some md"
  obtains r md0 ops where "hist (mdb_state m) k = Some r" and "entry_of cfg r md0 ops"
    and "md = stored cfg (apply_operands ops md0)"
proof -
  obtain r where r: "hist (mdb_state m) k = Some r"
    using assms(2) by (auto simp: mdb_view_def view_def split: option.splits)
  obtain md0 ops where e: "entry_of cfg r md0 ops"
    using wf_hist_entry [of cfg "hist (mdb_state m)" k, OF _ r] assms(1) unfolding mdb_valid_def by blast
  then show thesis
    using that [OF r e] view_entry [of "hist (mdb_state m)" k, OF r e] assms(2) by (simp add: mdb_view_def)
qed

lemma db_Merge_law:
  assumes v: "mdb_valid cfg api hist m" and k: "mdb_view cfg hist m k = Some md"
    and fit: "storable cfg (apply_operand op md)"
  shows "\<exists>m'. db_Merge cfg api m k op = (Status_OK, m') \<and> mdb_valid cfg api hist m' \<and>
    mdb_view cfg hist m' = (mdb_view cfg hist m)(k \<mapsto> stored cfg (apply_operand op md))"
proof -
  have ok: "rocksdb_ok cfg api hist" and wf: "wf_hist cfg (hist (mdb_state m))"
    using v by (simp_all add: mdb_valid_def)
  obtain r md0 ops where r: "hist (mdb_state m) k = Some r" and e: "entry_of cfg r md0 ops"
    and md: "md = stored cfg (apply_operands ops md0)"
    by (rule view_entryE [OF v k])
  have "storable cfg (apply_operand op (apply_operands ops md0))"
    using storable_apply_stored [OF entry_storable(1) [OF e]] fit md by simp
  note e' = entry_extend [OF e this]
  obtain m' where m': "db_Merge cfg api m k op = (Status_OK, m')"
    "hist (mdb_state m') = (hist (mdb_state m))(k \<mapsto> add_operand (serialize_operand op) (Some r))"
    using db_Merge_ok [OF ok, of m k op] r by metis
  have "mdb_valid cfg api hist m'" using ok wf_hist_upd [OF wf e'] m'(2) by (simp add: mdb_valid_def)
  moreover have "mdb_view cfg hist m' = (mdb_view cfg hist m)(k \<mapsto> stored cfg (apply_operand op md))"
    using view_upd [OF e', of "hist (mdb_state m)" k] m'(2) stored_apply_operand [of cfg op "apply_operands ops md0"]
    by (simp add: mdb_view_def apply_operands_append md)
  ultimately show ?thesis using m'(1) by blast
qed

text \<open>The metadata after a size update: the time stamp is a second operand where builds keep it.\<close>

definition touched :: "md_config \<Rightarrow> u64 \<Rightarrow> Metadata \<Rightarrow> Metadata" where
  "touched cfg now md = (if use_mtime cfg then md\<lparr>md_mtime := now\<rparr> else md)"

lemma merge_mtime_law:
  assumes v: "mdb_valid cfg api hist m" and k: "mdb_view cfg hist m k = Some md" and fit: "storable cfg md"
  shows "\<exists>m'. merge_mtime cfg api m k now = (None, m') \<and> mdb_valid cfg api hist m' \<and>
    mdb_view cfg hist m' = (mdb_view cfg hist m)(k \<mapsto> stored cfg (touched cfg now md))"
proof (cases "use_mtime cfg")
  case True
  then show ?thesis
    using db_Merge_law [OF v k, of "UpdateTimeOperand now"] fit
    by (auto simp: merge_mtime_def apply_operand_def storable_def touched_def)
next
  case False
  obtain r md0 ops where "md = stored cfg (apply_operands ops md0)" by (rule view_entryE [OF v k])
  then have "(mdb_view cfg hist m)(k \<mapsto> stored cfg md) = mdb_view cfg hist m" using k by auto
  then show ?thesis using False v by (simp add: merge_mtime_def touched_def)
qed

lemma md_update_size_law:
  assumes v: "mdb_valid cfg api hist m" and k: "mdb_view cfg hist m k = Some md"
    and fit: "storable cfg (md\<lparr>md_size := max (offset + io_size) (md_size md)\<rparr>)"
  shows "\<exists>m'. md_update_size cfg api m merge_id now k io_size offset False = (Inr (- 1), m') \<and>
    mdb_valid cfg api hist m' \<and> mdb_view cfg hist m' = (mdb_view cfg hist m)(k \<mapsto>
      stored cfg (touched cfg now (md\<lparr>md_size := max (offset + io_size) (md_size md)\<rparr>)))"
proof -
  let ?op = "IncreaseSizeOperand (offset + io_size) 0 False"
  let ?md = "md\<lparr>md_size := max (offset + io_size) (md_size md)\<rparr>"
  have md: "apply_operand ?op md = ?md" by (simp add: apply_operand_def)
  obtain m1 where m1: "db_Merge cfg api m k ?op = (Status_OK, m1)" "mdb_valid cfg api hist m1"
    "mdb_view cfg hist m1 = (mdb_view cfg hist m)(k \<mapsto> stored cfg ?md)"
    using db_Merge_law [OF v k, of ?op] fit unfolding md by blast
  obtain m2 where m2: "merge_mtime cfg api m1 k now = (None, m2)" "mdb_valid cfg api hist m2"
    "mdb_view cfg hist m2 = (mdb_view cfg hist m1)(k \<mapsto> stored cfg (touched cfg now (stored cfg ?md)))"
    using merge_mtime_law [OF m1(2), of k "stored cfg ?md" now] m1(3) fit by auto
  have "stored cfg (touched cfg now (stored cfg ?md)) = stored cfg (touched cfg now ?md)"
    by (simp add: touched_def stored_def)
  then show ?thesis using m1 m2 by (simp add: md_update_size_def increase_size_impl_def)
qed

lemma decrease_size_law:
  assumes v: "mdb_valid cfg api hist m" and k: "mdb_view cfg hist m k = Some md"
    and fit: "storable cfg (md\<lparr>md_size := sz\<rparr>)"
  shows "\<exists>m'. decrease_size_impl cfg api m now k sz = (None, m') \<and> mdb_valid cfg api hist m' \<and>
    mdb_view cfg hist m' = (mdb_view cfg hist m)(k \<mapsto> stored cfg (touched cfg now (md\<lparr>md_size := sz\<rparr>)))"
proof -
  let ?op = "DecreaseSizeOperand sz" and ?md = "md\<lparr>md_size := sz\<rparr>"
  have md: "apply_operand ?op md = ?md" by (simp add: apply_operand_def)
  obtain m1 where m1: "db_Merge cfg api m k ?op = (Status_OK, m1)" "mdb_valid cfg api hist m1"
    "mdb_view cfg hist m1 = (mdb_view cfg hist m)(k \<mapsto> stored cfg ?md)"
    using db_Merge_law [OF v k, of ?op] fit unfolding md by blast
  obtain m2 where m2: "merge_mtime cfg api m1 k now = (None, m2)" "mdb_valid cfg api hist m2"
    "mdb_view cfg hist m2 = (mdb_view cfg hist m1)(k \<mapsto> stored cfg (touched cfg now (stored cfg ?md)))"
    using merge_mtime_law [OF m1(2), of k "stored cfg ?md" now] m1(3) fit by auto
  have "stored cfg (touched cfg now (stored cfg ?md)) = stored cfg (touched cfg now ?md)"
    by (simp add: touched_def stored_def)
  then show ?thesis using m1 m2 by (simp add: decrease_size_impl_def)
qed

text \<open>The identifier of an append is fresh when no operand RocksDB still keeps for the key carries it.\<close>

definition fresh_id :: "('s \<Rightarrow> string \<rightharpoonup> raw_entry) \<Rightarrow> 's mdb \<Rightarrow> string \<Rightarrow> u16 \<Rightarrow> bool" where
  "fresh_id hist m k merge_id \<longleftrightarrow> (\<forall>r sz. hist (mdb_state m) k = Some r \<longrightarrow>
     serialize_operand (IncreaseSizeOperand sz merge_id True) \<notin> set (snd r))"

lemma md_append_law:
  assumes v: "mdb_valid cfg api hist m" and k: "mdb_view cfg hist m k = Some md"
    and fit: "storable cfg (md\<lparr>md_size := md_size md + io_size\<rparr>)" and id: "fresh_id hist m k merge_id"
  shows "\<exists>m'. md_update_size cfg api m merge_id now k io_size offset True = (Inr (md_size md), m') \<and>
    mdb_valid cfg api hist m' \<and> mdb_view cfg hist m' = (mdb_view cfg hist m)(k \<mapsto>
      stored cfg (md\<lparr>md_size := md_size md + io_size\<rparr>))"
proof -
  let ?op = "IncreaseSizeOperand io_size merge_id True"
  have ok: "rocksdb_ok cfg api hist" and wf: "wf_hist cfg (hist (mdb_state m))"
    using v by (simp_all add: mdb_valid_def)
  obtain r md0 ops where r: "hist (mdb_state m) k = Some r" and e: "entry_of cfg r md0 ops"
    and md: "md = stored cfg (apply_operands ops md0)"
    by (rule view_entryE [OF v k])
  have fit': "storable cfg (apply_operand ?op (apply_operands ops md0))"
    using storable_apply_stored [OF entry_storable(1) [OF e], of ?op] fit md by (simp add: apply_operand_def)
  have "set (map serialize_operand ops) \<subseteq> set (snd r)" using e by (auto simp: entry_of_def)
  then have "merge_id \<notin> append_ids ops" using id r by (force simp: fresh_id_def append_ids_def)
  then obtain m' where m': "increase_size_impl cfg api m merge_id now k io_size offset True =
      (Inr (md_size (apply_operands ops md0)), m')"
    "hist (mdb_state m') = (hist (mdb_state m))(k \<mapsto> add_operand (serialize_operand ?op) (Some r))"
    using increase_size_append [OF ok, of m k r md0 ops merge_id io_size now offset] r e fit' by metis
  note e' = entry_extend [OF e fit']
  have "mdb_valid cfg api hist m'" using ok wf_hist_upd [OF wf e'] m'(2) by (simp add: mdb_valid_def)
  moreover have "mdb_view cfg hist m' = (mdb_view cfg hist m)(k \<mapsto> stored cfg (apply_operand ?op md))"
    using view_upd [OF e', of "hist (mdb_state m)" k] m'(2) stored_apply_operand [of cfg ?op "apply_operands ops md0"]
    by (simp add: mdb_view_def apply_operands_append md)
  ultimately show ?thesis using m'(1) md by (simp add: md_update_size_def apply_operand_def)
qed

end
