(* ===== verification/Metadata_Dirents.thy ===== *)
theory Metadata_Dirents
  imports Metadata_Backend
begin

text \<open>
  Directory listings. Paths are flat keys of the store, so a listing is a scan of the keys that start
  with the directory's path: it returns the first-level entries, each once, and stops where the prefix
  ends because the keys with a common prefix are contiguous in key order.
\<close>

section \<open>Keys in order\<close>

lemma prefix_key_le:
  assumes "key_le p a" and "key_le a b" and "prefix p b"
  shows "prefix p a"
  using assms
proof (induction p arbitrary: a b)
  case (Cons x p)
  then obtain b' where b: "b = x # b'" "prefix p b'" by (cases b) auto
  obtain y a' where a: "a = y # a'" using Cons.prems(1) by (cases a) auto
  have "x = y" "key_le p a'" "key_le a' b'" using Cons.prems(1,2) a b by auto
  then show ?case using Cons.IH [of a' b'] a b by simp
qed simp

lemma key_le_prefix: "prefix p k \<Longrightarrow> key_le p k"
proof (induction p arbitrary: k)
  case (Cons x p)
  then show ?case by (cases k) auto
qed simp

lemma takeWhile_scan:
  assumes "sorted_wrt (\<lambda>a b. key_le (fst a) (fst b) \<and> fst a \<noteq> fst b) kvs" and "\<forall>kv \<in> set kvs. key_le p (fst kv)"
  shows "takeWhile (\<lambda>kv. prefix p (fst kv)) kvs = filter (\<lambda>kv. prefix p (fst kv)) kvs"
  using assms
proof (induction kvs)
  case (Cons kv kvs)
  have "\<not> prefix p (fst kv')" if "\<not> prefix p (fst kv)" "kv' \<in> set kvs" for kv'
    using Cons.prems that prefix_key_le [of p "fst kv" "fst kv'"] by auto
  then show ?case using Cons by (auto simp: filter_empty_conv)
qed simp

section \<open>The scan\<close>

definition listed :: "md_config \<Rightarrow> string \<Rightarrow> string \<Rightarrow> Metadata \<Rightarrow> bool" where
  "listed cfg root k md \<longleftrightarrow> length k \<noteq> length root \<and> CHR ''/'' \<notin> set (drop (length root) k) \<and>
     \<not> (has_rename cfg \<and> md_blocks md = - 1)"

definition scan_entry :: "md_config \<Rightarrow> string \<Rightarrow> string \<times> string \<Rightarrow> (string \<times> Metadata) list" where
  "scan_entry cfg root kv = (case Metadata_parse cfg (snd kv) of
       Inl _ \<Rightarrow> []
     | Inr md \<Rightarrow> if listed cfg root (fst kv) md then [(drop (length root) (fst kv), md)] else [])"

lemma dirents_loop_scan:
  assumes "\<forall>kv \<in> set kvs. \<exists>md. Metadata_parse cfg (snd kv) = Inr md"
  shows "dirents_loop cfg root kvs es =
    Inr (es @ concat (map (scan_entry cfg root) (takeWhile (\<lambda>kv. prefix root (fst kv)) kvs)))"
  using assms
proof (induction kvs arbitrary: es)
  case (Cons kv kvs)
  then obtain md where "Metadata_parse cfg (snd kv) = Inr md" by auto
  then show ?case using Cons by (simp add: scan_entry_def listed_def)
qed simp

lemma scan_entryD:
  assumes "e \<in> set (scan_entry cfg root kv)" and "prefix root (fst kv)"
  shows "fst kv = root @ fst e" and "Metadata_parse cfg (snd kv) = Inr (snd e)"
    and "fst e \<noteq> []" and "CHR ''/'' \<notin> set (fst e)" and "\<not> (has_rename cfg \<and> md_blocks (snd e) = - 1)"
  using assms by (auto simp: scan_entry_def listed_def prefix_def split: sum.splits if_splits)

lemma distinct_scan:
  assumes "sorted_wrt (\<lambda>a b. key_le (fst a) (fst b) \<and> fst a \<noteq> fst b) kvs" and "\<forall>kv \<in> set kvs. prefix root (fst kv)"
  shows "distinct (map fst (concat (map (scan_entry cfg root) kvs)))"
  using assms
proof (induction kvs)
  case (Cons kv kvs)
  have "fst e \<noteq> fst e'" if e: "e \<in> set (scan_entry cfg root kv)" and kv': "kv' \<in> set kvs"
    and e': "e' \<in> set (scan_entry cfg root kv')" for e kv' e'
    using scan_entryD(1) [OF e] scan_entryD(1) [OF e'] Cons.prems kv' by auto
  moreover have "distinct (map fst (scan_entry cfg root kv))" by (simp add: scan_entry_def split: sum.splits)
  ultimately show ?case using Cons by fastforce
qed simp

text \<open>What a listing contains, in terms of the view of the store.\<close>

definition children :: "md_config \<Rightarrow> (string \<rightharpoonup> Metadata) \<Rightarrow> string \<Rightarrow> (string \<times> Metadata) set" where
  "children cfg files root = {(name, md). files (root @ name) = Some md \<and> name \<noteq> [] \<and>
     CHR ''/'' \<notin> set name \<and> \<not> (has_rename cfg \<and> md_blocks md = - 1)}"

lemma view_merged:
  "view cfg h k = Some md \<longleftrightarrow>
    (\<exists>r v. h k = Some r \<and> merged cfg r = Some v \<and> Metadata_parse cfg v = Inr md)"
  by (auto simp: view_def split: option.splits sum.splits)

lemma dirents_loop_children:
  assumes v: "mdb_valid cfg api hist m"
  obtains es where "dirents_loop cfg root (rdb_Scan api (mdb_state m) root) [] = Inr es"
    and "distinct (map fst es)" and "set es = children cfg (mdb_view cfg hist m) root"
proof -
  let ?kvs = "rdb_Scan api (mdb_state m) root" and ?h = "hist (mdb_state m)"
  let ?in = "filter (\<lambda>kv. prefix root (fst kv)) ?kvs"
  have wf: "wf_hist cfg ?h" and scan: "scan_ok cfg api hist"
    using v rocksdb_okD(3) by (auto simp: mdb_valid_def)
  have s: "sorted_wrt (\<lambda>a b. key_le (fst a) (fst b) \<and> fst a \<noteq> fst b) ?kvs"
    and st: "set ?kvs = {(k, v). key_le root k \<and> (\<exists>r. ?h k = Some r \<and> merged cfg r = Some v)}"
    using scan unfolding scan_ok_def by blast+
  have at: "\<exists>r. ?h (fst kv) = Some r \<and> merged cfg r = Some (snd kv)" if "kv \<in> set ?kvs" for kv
    using that unfolding st by auto
  have p: "\<exists>md. Metadata_parse cfg (snd kv) = Inr md" if kv: "kv \<in> set ?kvs" for kv
  proof -
    obtain r where r: "?h (fst kv) = Some r" "merged cfg r = Some (snd kv)" using at [OF kv] by blast
    obtain md ops where e: "entry_of cfg r md ops" by (rule wf_hist_entry [OF wf r(1)])
    show ?thesis using Metadata_parse_serialize [OF entry_storable(1) [OF e]] merged_entry [OF e] r(2) by auto
  qed
  have tw: "takeWhile (\<lambda>kv. prefix root (fst kv)) ?kvs = ?in" using st by (intro takeWhile_scan [OF s]) auto
  show thesis
  proof (rule that)
    show "dirents_loop cfg root ?kvs [] = Inr (concat (map (scan_entry cfg root) ?in))"
      using p by (simp add: dirents_loop_scan tw)
    show "distinct (map fst (concat (map (scan_entry cfg root) ?in)))"
      by (rule distinct_scan) (simp_all add: sorted_wrt_filter s)
    show "set (concat (map (scan_entry cfg root) ?in)) = children cfg (mdb_view cfg hist m) root" (is "?L = ?R")
    proof
      show "?L \<subseteq> ?R"
      proof
        fix e assume "e \<in> ?L"
        then obtain kv where kv: "kv \<in> set ?kvs" "prefix root (fst kv)" and e: "e \<in> set (scan_entry cfg root kv)"
          by auto
        note d = scan_entryD [OF e kv(2)]
        have "view cfg ?h (root @ fst e) = Some (snd e)"
          using at [OF kv(1)] d(1,2) unfolding view_merged by auto
        then show "e \<in> ?R" using d by (cases e) (simp add: children_def mdb_view_def)
      qed
      show "?R \<subseteq> ?L"
      proof
        fix e assume "e \<in> ?R"
        then obtain name md where e: "e = (name, md)" and vw: "view cfg ?h (root @ name) = Some md"
          and n: "name \<noteq> []" "CHR ''/'' \<notin> set name" "\<not> (has_rename cfg \<and> md_blocks md = - 1)"
          by (auto simp: children_def mdb_view_def)
        obtain r v where r: "?h (root @ name) = Some r" "merged cfg r = Some v" "Metadata_parse cfg v = Inr md"
          using vw unfolding view_merged by blast
        have "(root @ name, v) \<in> set ?in" using r key_le_prefix [of root "root @ name"] unfolding set_filter st by (cases r) auto
        moreover have "e \<in> set (scan_entry cfg root (root @ name, v))"
          using r n by (simp add: e scan_entry_def listed_def)
        ultimately show "e \<in> ?L" by (simp only: set_concat set_map) blast
      qed
    qed
  qed
qed

lemma mdb_get_dirents_children:
  assumes "mdb_valid cfg api hist m"
  obtains es where "mdb_get_dirents cfg api m dir = Inr es" and "distinct (map fst es)"
    and "set es = (\<lambda>(name, md). (name, S_ISDIR (md_mode md))) ` children cfg (mdb_view cfg hist m) (dirents_root dir)"
proof -
  obtain es where es: "dirents_loop cfg (dirents_root dir) (rdb_Scan api (mdb_state m) (dirents_root dir)) [] = Inr es"
    "distinct (map fst es)" "set es = children cfg (mdb_view cfg hist m) (dirents_root dir)"
    by (rule dirents_loop_children [OF assms])
  show thesis
  proof (rule that)
    show "mdb_get_dirents cfg api m dir = Inr (map (\<lambda>(name, md). (name, S_ISDIR (md_mode md))) es)"
      using es(1) by (simp add: mdb_get_dirents_def get_dirents_impl_def)
    show "distinct (map fst (map (\<lambda>(name, md). (name, S_ISDIR (md_mode md))) es))"
      using es(2) by (simp add: comp_def case_prod_beta)
  qed (simp add: es(3))
qed

end
