(* ===== verification/Sample_Store.thy ===== *)
theory Sample_Store
  imports Metadata_Dirents
begin

text \<open>
  A store that meets \<open>rocksdb_ok\<close>: it keeps every operand and runs the merge operator on lookups
  only. The hypotheses on RocksDB can therefore hold together.
\<close>

type_synonym sample_db = "(string \<times> raw_entry) list"

fun key_insert :: "string \<Rightarrow> string list \<Rightarrow> string list" where
  "key_insert k [] = [k]"
| "key_insert k (x # xs) = (if k = x then x # xs else if key_le k x then k # x # xs else x # key_insert k xs)"

definition sample_keys :: "sample_db \<Rightarrow> string list" where
  "sample_keys db = fold (\<lambda>e. key_insert (fst e)) db []"

definition sample_get :: "md_config \<Rightarrow> sample_db \<Rightarrow> string \<Rightarrow> rdb_status \<times> string \<times> sample_db \<times> merge_call list" where
  "sample_get cfg db k = (case map_of db k of
       None \<Rightarrow> (Status_NotFound, [], db, [])
     | Some r \<Rightarrow> (case merged cfg r of
         None \<Rightarrow> (Status_Other, [], db, [])
       | Some v \<Rightarrow> (Status_OK, v, db, if snd r = [] then [] else [call_at cfg r 0 (length (snd r))])))"

definition sample_batch :: "batch_op \<Rightarrow> sample_db \<Rightarrow> sample_db" where
  "sample_batch b db = (case b of
       Batch_Delete k \<Rightarrow> filter (\<lambda>e. fst e \<noteq> k) db
     | Batch_Put k v \<Rightarrow> (k, Some v, []) # db)"

definition sample_scan :: "md_config \<Rightarrow> sample_db \<Rightarrow> string \<Rightarrow> (string \<times> string) list" where
  "sample_scan cfg db start =
     map (\<lambda>k. (k, the (merged cfg (the (map_of db k)))))
       (filter (\<lambda>k. key_le start k \<and> merged cfg (the (map_of db k)) \<noteq> None) (sample_keys db))"

definition sample_rocksdb :: "md_config \<Rightarrow> sample_db rocksdb" where
  "sample_rocksdb cfg =
     \<lparr>rdb_Get = sample_get cfg,
      rdb_Merge = (\<lambda>db k op. (Status_OK, (k, add_operand op (map_of db k)) # db, [])),
      rdb_Delete = (\<lambda>db k. (Status_OK, filter (\<lambda>e. fst e \<noteq> k) db)),
      rdb_Write = (\<lambda>db b. (Status_OK, fold sample_batch b db)),
      rdb_Scan = sample_scan cfg\<rparr>"

section \<open>It meets the hypotheses\<close>

lemma key_le_refl [simp]: "key_le k k"
  by (induction k) simp_all

lemma key_le_linear: "\<not> key_le a b \<Longrightarrow> key_le b a"
proof (induction a b rule: key_le.induct)
  case (3 x xs y ys)
  then show ?case by (metis key_le.simps(3) linorder_neqE_nat of_char_eq_iff)
qed simp_all

lemma key_le_antisym: "key_le a b \<Longrightarrow> key_le b a \<Longrightarrow> a = b"
proof (induction a b rule: key_le.induct)
  case (1 ys)
  then show ?case by (cases ys) simp_all
qed auto

lemma key_le_trans: "key_le a b \<Longrightarrow> key_le b c \<Longrightarrow> key_le a c"
proof (induction a b arbitrary: c rule: key_le.induct)
  case (3 x xs y ys)
  then show ?case by (cases c) auto
qed auto

lemma set_key_insert [simp]: "set (key_insert k ks) = insert k (set ks)"
  by (induction ks) auto

lemma sorted_key_insert:
  assumes "sorted_wrt (\<lambda>a b. key_le a b \<and> a \<noteq> b) ks"
  shows "sorted_wrt (\<lambda>a b. key_le a b \<and> a \<noteq> b) (key_insert k ks)"
  using assms
proof (induction ks)
  case (Cons x xs)
  then show ?case using key_le_linear [of k x] key_le_trans [of k x] key_le_antisym [of k] key_le_antisym [of x] by auto
qed simp

lemma sample_keys_props:
  "set (sample_keys db) = fst ` set db" "sorted_wrt (\<lambda>a b. key_le a b \<and> a \<noteq> b) (sample_keys db)"
proof -
  have "set (fold (\<lambda>e. key_insert (fst e)) db ks) = fst ` set db \<union> set ks" for ks
    by (induction db arbitrary: ks) auto
  then show "set (sample_keys db) = fst ` set db" by (simp add: sample_keys_def)
  have "sorted_wrt (\<lambda>a b. key_le a b \<and> a \<noteq> b) ks \<Longrightarrow>
      sorted_wrt (\<lambda>a b. key_le a b \<and> a \<noteq> b) (fold (\<lambda>e. key_insert (fst e)) db ks)" for ks
    by (induction db arbitrary: ks) (simp_all add: sorted_key_insert)
  then show "sorted_wrt (\<lambda>a b. key_le a b \<and> a \<noteq> b) (sample_keys db)" by (simp add: sample_keys_def)
qed

lemma map_of_batch: "map_of (fold sample_batch b db) = fold batch_step b (map_of db)"
  by (induction b arbitrary: db) (simp_all add: sample_batch_def batch_step_def map_of_delete split: batch_op.splits)

lemma call_at_call_of: "snd r \<noteq> [] \<Longrightarrow> call_of cfg r (call_at cfg r 0 (length (snd r)))"
  "ops \<noteq> [] \<Longrightarrow> call_of cfg (v, ops) (call_at cfg (v, ops) 0 (length ops))"
  unfolding call_of_def by (metis length_greater_0_conv order_refl, metis length_greater_0_conv order_refl snd_conv)

lemma sample_rocksdb_ok: "rocksdb_ok cfg (sample_rocksdb cfg) map_of"
proof -
  have g: "get_ok cfg (sample_rocksdb cfg) map_of"
    by (auto simp: get_ok_def sample_rocksdb_def sample_get_def call_at_call_of)
  have ne: "snd (add_operand op e) \<noteq> []" for op e by (simp add: add_operand_def split: option.splits prod.splits)
  then have "last_call_of cfg (add_operand op e) (call_at cfg (add_operand op e) 0 (length (snd (add_operand op e))))" for op e
    unfolding last_call_of_def by blast
  then have m: "merge_ok cfg (sample_rocksdb cfg) map_of"
    using ne by (auto simp: merge_ok_def sample_rocksdb_def sample_get_def Let_def)
  have s: "scan_ok cfg (sample_rocksdb cfg) map_of"
    unfolding scan_ok_def
  proof (intro allI conjI)
    fix db start
    have "sorted_wrt (\<lambda>a b. key_le a b \<and> a \<noteq> b) (filter P (sample_keys db))" for P
      by (rule sorted_wrt_filter) (rule sample_keys_props)
    then show "sorted_wrt (\<lambda>a b. key_le (fst a) (fst b) \<and> fst a \<noteq> fst b) (rdb_Scan (sample_rocksdb cfg) db start)"
      by (simp add: sample_rocksdb_def sample_scan_def sorted_wrt_map)
    have "k \<in> fst ` set db \<longleftrightarrow> (\<exists>r. map_of db k = Some r)" for k
      using map_of_eq_None_iff [of db k] by auto
    then show "set (rdb_Scan (sample_rocksdb cfg) db start) =
        {(k, v). key_le start k \<and> (\<exists>r. map_of db k = Some r \<and> merged cfg r = Some v)}"
      by (auto simp: sample_rocksdb_def sample_scan_def sample_keys_props(1) image_iff)
  qed
  show ?thesis unfolding rocksdb_ok_def
    using g m s by (auto simp: sample_rocksdb_def map_of_delete map_of_batch)
qed

definition sample_config :: md_config where
  "sample_config = \<lparr>use_atime = False, use_mtime = True, use_ctime = False, use_link_cnt = False,
     use_blocks = True, has_symlinks = True, has_rename = True\<rparr>"

definition sample_mdb :: "sample_db mdb" where
  "sample_mdb = \<lparr>mdb_state = [], append_offset_reserve = Map.empty\<rparr>"

lemma sample_mdb_valid: "mdb_valid cfg (sample_rocksdb cfg) map_of sample_mdb"
  by (simp add: mdb_valid_def sample_rocksdb_ok sample_mdb_def wf_hist_def)

text \<open>A store that holds one regular file.\<close>

definition sample_md :: Metadata where
  "sample_md = Metadata_default\<lparr>md_mode := 33188, md_size := 100\<rparr>"

definition sample_mdb1 :: "sample_db mdb" where
  "sample_mdb1 = \<lparr>mdb_state =
       [(''/d/f'', add_operand (serialize_operand (CreateOperand (serialize sample_config sample_md))) None)],
     append_offset_reserve = Map.empty\<rparr>"

lemma sample_md_storable [simp]: "storable sample_config sample_md"
  by (simp add: storable_def sample_md_def Metadata_default_def)

lemma sample_md_stored [simp]: "stored sample_config sample_md = sample_md"
  by (simp add: stored_def sample_md_def Metadata_default_def sample_config_def)

lemma sample_mdb1_valid:
  "mdb_valid sample_config (sample_rocksdb sample_config) map_of sample_mdb1"
  "mdb_view sample_config map_of sample_mdb1 = [''/d/f'' \<mapsto> sample_md]"
proof -
  note e = entry_new(1) [OF sample_md_storable]
  have empty: "wf_hist sample_config Map.empty" "view sample_config Map.empty = Map.empty"
    by (simp_all add: wf_hist_def view_def fun_eq_iff)
  show "mdb_valid sample_config (sample_rocksdb sample_config) map_of sample_mdb1"
    using wf_hist_upd [OF empty(1) e] by (simp add: mdb_valid_def sample_rocksdb_ok sample_mdb1_def)
  show "mdb_view sample_config map_of sample_mdb1 = [''/d/f'' \<mapsto> sample_md]"
    using view_upd [OF e, of Map.empty] empty(2) by (simp add: mdb_view_def sample_mdb1_def)
qed

lemma sample_fresh_id: "fresh_id map_of sample_mdb1 ''/d/f'' merge_id"
  by (simp add: fresh_id_def sample_mdb1_def add_operand_def serialize_operand_def serialize_id_def operand_id_def)

end
