(* ===== verification/Metadata_Properties.thy ===== *)
theory Metadata_Properties
  imports Sample_Store
begin

text \<open>
  Properties of the metadata path: the textual form of the metadata, the merge operator, the backend's
  contract, size updates and appends, and directory listings.
\<close>

section \<open>The store as a map\<close>

text \<open>
  C16. Creating a path that does not exist succeeds, a lookup then returns the metadata with the times
  the daemon sets, and a second create of the path fails with \<open>ExistsException\<close> and changes nothing:
  for every RocksDB that behaves as documented, whenever it runs the merge operator.
\<close>

theorem create_get_create:
  assumes "mdb_valid cfg api hist m" and "storable cfg md" and "storable cfg md'"
    and "mdb_view cfg hist m k = None"
  shows "fst (md_create cfg api time_state now m k md) = None \<and>
    fst (md_get cfg api (snd (md_create cfg api time_state now m k md)) k) =
      Inr (stored cfg (with_times time_state now md)) \<and>
    fst (md_create cfg api time_state now (snd (md_create cfg api time_state now m k md)) k md') =
      Some (ExistsException k) \<and>
    mdb_view cfg hist (snd (md_create cfg api time_state now (snd (md_create cfg api time_state now m k md)) k md')) =
      mdb_view cfg hist (snd (md_create cfg api time_state now m k md))"
  using rocks.create_get [OF assms(1,2,4), of time_state now] rocks.create_twice [OF assms(1-3), of time_state now k]
  by (intro conjI) assumption+

theorem create_get_create_witness:
  "fst (md_get sample_config (sample_rocksdb sample_config)
      (snd (md_create sample_config (sample_rocksdb sample_config) (True, True, True) 9 sample_mdb1 ''/d/g'' sample_md))
      ''/d/g'') = Inr (stored sample_config (with_times (True, True, True) 9 sample_md))"
  using create_get_create [OF sample_mdb1_valid(1) sample_md_storable sample_md_storable, of "''/d/g''" "(True, True, True)" 9]
  by (simp add: sample_mdb1_valid(2))

text \<open>
  After a remove a lookup of the path fails with \<open>NotFoundException\<close>, lookups of all other paths
  give what they gave before, and the path can be created again.
\<close>

theorem remove_then_get:
  assumes "mdb_valid cfg api hist m" and "storable cfg md"
  shows "fst (md_remove api m k) = None \<and>
    fst (md_get cfg api (snd (md_remove api m k)) k) = Inl NotFoundException \<and>
    (k' \<noteq> k \<longrightarrow> fst (md_get cfg api (snd (md_remove api m k)) k') = fst (md_get cfg api m k')) \<and>
    fst (md_create cfg api time_state now (snd (md_remove api m k)) k md) = None"
  using rocks.remove_get [OF assms(1)] rocks.remove_create [OF assms, of time_state now k]
    md_remove_law [OF assms(1), of k] by auto

theorem remove_then_get_witness:
  "fst (md_get sample_config (sample_rocksdb sample_config)
     (snd (md_remove (sample_rocksdb sample_config) sample_mdb1 ''/d/f'')) ''/d/f'') = Inl NotFoundException"
  using remove_then_get [OF sample_mdb1_valid(1) sample_md_storable, of "''/d/f''" "''/x''" "(False, False, False)" 0]
  by blast

section \<open>File sizes\<close>

text \<open>
  C17. An append gets the size of the file before it as its offset and grows the file by the size
  written, whether RocksDB ran the merge operator during the merge or during the lookup that follows it,
  provided that the 16-bit identifier drawn for it is not carried by another pending append of the file.
\<close>

theorem append_returns_old_size:
  assumes "mdb_valid cfg api hist m" and "mdb_view cfg hist m k = Some md"
    and "storable cfg (md\<lparr>md_size := md_size md + io_size\<rparr>)" and "fresh_id hist m k merge_id"
  shows "\<exists>m'. md_update_size cfg api m merge_id now k io_size offset True = (Inr (md_size md), m') \<and>
    mdb_valid cfg api hist m' \<and> mdb_view cfg hist m' = (mdb_view cfg hist m)(k \<mapsto>
      stored cfg (md\<lparr>md_size := md_size md + io_size\<rparr>))"
  using assms by (rule md_append_law)

theorem append_returns_old_size_witness:
  "\<exists>m'. md_update_size sample_config (sample_rocksdb sample_config) sample_mdb1 7 9 ''/d/f'' 20 0 True = (Inr 100, m') \<and>
     map_option md_size (mdb_view sample_config map_of m' ''/d/f'') = Some 120"
proof -
  have "storable sample_config (sample_md\<lparr>md_size := md_size sample_md + 20\<rparr>)"
    by (simp add: storable_def sample_md_def Metadata_default_def)
  from append_returns_old_size [OF sample_mdb1_valid(1) _ this sample_fresh_id, of 7 9 0]
  obtain m' where "md_update_size sample_config (sample_rocksdb sample_config) sample_mdb1 7 9 ''/d/f'' 20 0 True =
      (Inr (md_size sample_md), m')"
    and "mdb_view sample_config map_of m' = (mdb_view sample_config map_of sample_mdb1)(''/d/f'' \<mapsto>
      stored sample_config (sample_md\<lparr>md_size := md_size sample_md + 20\<rparr>))"
    by (auto simp: sample_mdb1_valid(2))
  then show ?thesis by (simp add: sample_md_def)
qed



section \<open>Directory listings\<close>

text \<open>
  C18. The listing of a directory has exactly the existing first-level entries below it, each once, with
  the mark of a directory taken from its mode; entries marked as renamed are left out.
\<close>

theorem get_dirents_lists_children:
  assumes "mdb_valid cfg api hist m"
  shows "\<exists>es. mdb_get_dirents cfg api m dir = Inr es \<and> distinct (map fst es) \<and>
    set es = {(name, S_ISDIR (md_mode md)) | name md.
      mdb_view cfg hist m (dirents_root dir @ name) = Some md \<and> name \<noteq> [] \<and> CHR ''/'' \<notin> set name \<and>
      \<not> (has_rename cfg \<and> md_blocks md = - 1)}"
  by (rule mdb_get_dirents_children [OF assms, of dir]) (auto simp: children_def image_def)

theorem get_dirents_lists_children_witness:
  "\<exists>es. mdb_get_dirents sample_config (sample_rocksdb sample_config) sample_mdb1 ''/d'' = Inr es \<and>
     (''f'', False) \<in> set es"
proof -
  from get_dirents_lists_children [OF sample_mdb1_valid(1), of "''/d''"]
  obtain es where e: "mdb_get_dirents sample_config (sample_rocksdb sample_config) sample_mdb1 ''/d'' = Inr es"
    and s: "set es = {(name, S_ISDIR (md_mode md)) | name md.
      mdb_view sample_config map_of sample_mdb1 (dirents_root ''/d'' @ name) = Some md \<and> name \<noteq> [] \<and>
      CHR ''/'' \<notin> set name \<and> \<not> (has_rename sample_config \<and> md_blocks md = - 1)}" by blast
  have "(''f'', S_ISDIR (md_mode sample_md)) \<in> set es" unfolding s
    by (rule CollectI, intro exI [of _ "''f''"] exI [of _ sample_md])
      (simp add: sample_mdb1_valid(2) dirents_root_def has_trailing_slash_def sample_md_def Metadata_default_def)
  then show ?thesis using e by (auto simp: sample_md_def S_ISDIR_def)
qed

section \<open>The merge operator\<close>

text \<open>
  C23. Folding the operands of a key at once, or collapsing any prefix of them to a value first and the
  rest later, gives the same value, and the appends among them reserve the same offsets.
\<close>

theorem merge_in_steps:
  assumes "storable cfg md" and "storable cfg (apply_operands xs md)"
  shows "\<exists>v rs w rs'. FullMergeV2 cfg (Some (serialize cfg md)) (map serialize_operand xs) = Inr (v, rs) \<and>
    FullMergeV2 cfg (Some v) (map serialize_operand ys) = Inr (w, rs') \<and>
    FullMergeV2 cfg (Some (serialize cfg md)) (map serialize_operand (xs @ ys)) = Inr (w, rs @ rs')"
  using FullMergeV2_value [OF assms(1), of xs] FullMergeV2_value [OF assms(2), of ys]
    FullMergeV2_value [OF assms(1), of "xs @ ys"]
  by (simp add: apply_operands_append all_reserves_append)

theorem merge_in_steps_witness:
  "\<exists>v rs w rs'. FullMergeV2 sample_config (Some (serialize sample_config sample_md))
      (map serialize_operand [IncreaseSizeOperand 20 3 True]) = Inr (v, rs) \<and>
    FullMergeV2 sample_config (Some v) (map serialize_operand [IncreaseSizeOperand 5 4 True]) = Inr (w, rs') \<and>
    FullMergeV2 sample_config (Some (serialize sample_config sample_md))
      (map serialize_operand ([IncreaseSizeOperand 20 3 True] @ [IncreaseSizeOperand 5 4 True])) = Inr (w, rs @ rs')"
proof (rule merge_in_steps)
  show "storable sample_config (apply_operands [IncreaseSizeOperand 20 3 True] sample_md)"
    by (simp add: storable_def sample_md_def Metadata_default_def apply_operand_def)
qed simp

text \<open>
  C24. Plain size updates commute: concurrent writers leave the same metadata in whatever order RocksDB
  received their operands, namely the largest end of a write.
\<close>

theorem plain_updates_commute:
  assumes "storable cfg md" and "list_all plain_increase ops" and "mset ops' = mset ops"
  shows "FullMergeV2 cfg (Some (serialize cfg md)) (map serialize_operand ops') =
      FullMergeV2 cfg (Some (serialize cfg md)) (map serialize_operand ops) \<and>
    FullMergeV2 cfg (Some (serialize cfg md)) (map serialize_operand ops) =
      Inr (serialize cfg (md\<lparr>md_size := fold max (map operand_size ops) (md_size md)\<rparr>), [])"
proof -
  have none: "all_reserves xs md = []" if "list_all plain_increase xs" for xs and md :: Metadata
    using that
    by (induction xs arbitrary: md) (auto simp: reserves_def plain_increase_def split: merge_operand.splits bool.splits)
  have "list_all plain_increase ops'" using assms(2) mset_eq_setD [OF assms(3)] by (simp add: list_all_iff)
  then show ?thesis
    using FullMergeV2_value [OF assms(1)] apply_plain_order [OF assms(2,3)] apply_plain [OF assms(2)] none assms(2)
    by simp
qed

theorem plain_updates_commute_witness:
  "FullMergeV2 sample_config (Some (serialize sample_config sample_md))
      (map serialize_operand [IncreaseSizeOperand 20 0 False, IncreaseSizeOperand 300 0 False]) =
    FullMergeV2 sample_config (Some (serialize sample_config sample_md))
      (map serialize_operand [IncreaseSizeOperand 300 0 False, IncreaseSizeOperand 20 0 False])"
  using plain_updates_commute [OF sample_md_storable, of "[IncreaseSizeOperand 300 0 False, IncreaseSizeOperand 20 0 False]"
      "[IncreaseSizeOperand 20 0 False, IncreaseSizeOperand 300 0 False]"]
  by (simp add: plain_increase_def)

text \<open>
  C25. A run of the merge operator over appends gives each of them, under its own identifier, the range
  that starts where the ones before it end, the first one at the old end of the file; so the ranges lie
  behind the old end and do not overlap, and the new size is the end of the last one. The size has to stay
  below \<open>2 ^ 64\<close>.
\<close>

theorem appended_ranges_disjoint:
  assumes "storable cfg md" and "unat (md_size md) + (\<Sum>a\<leftarrow>as. unat (fst a)) < 2 ^ 64"
  shows "\<exists>rs. FullMergeV2 cfg (Some (serialize cfg md)) (map serialize_operand (map append_op as)) =
      Inr (serialize cfg (md\<lparr>md_size := md_size md + sum_list (map fst as)\<rparr>), rs) \<and>
    map fst rs = map snd as \<and>
    (\<forall>i < length as. unat (snd (rs ! i)) = unat (md_size md) + (\<Sum>a\<leftarrow>take i as. unat (fst a))) \<and>
    (\<forall>i j. i < j \<and> j < length as \<longrightarrow> unat (snd (rs ! i)) + unat (fst (as ! i)) \<le> unat (snd (rs ! j)))"
proof (intro exI conjI allI impI)
  show "FullMergeV2 cfg (Some (serialize cfg md)) (map serialize_operand (map append_op as)) =
      Inr (serialize cfg (md\<lparr>md_size := md_size md + sum_list (map fst as)\<rparr>), all_reserves (map append_op as) md)"
    using FullMergeV2_value [OF assms(1)] by (simp only: apply_appends)
  show "map fst (all_reserves (map append_op as) md) = map snd as"
    by (rule nth_equalityI) (simp_all add: length_reserve_appends reserve_appends)
qed (use append_offset [OF assms(2)] appends_disjoint [OF assms(2)] in blast)+

theorem appended_ranges_disjoint_witness:
  "\<exists>rs. FullMergeV2 sample_config (Some (serialize sample_config sample_md))
      (map serialize_operand (map append_op [(20, 3), (5, 4)])) =
        Inr (serialize sample_config (sample_md\<lparr>md_size := 125\<rparr>), rs) \<and>
    map fst rs = [3, 4] \<and> unat (snd (rs ! 0)) = 100 \<and> unat (snd (rs ! 1)) = 120"
proof -
  have "md_size sample_md = 100" by (simp add: sample_md_def)
  then show ?thesis using appended_ranges_disjoint [OF sample_md_storable, of "[(20, 3), (5, 4)]"] by fastforce
qed

section \<open>The textual form\<close>



text \<open>
  C33. The size is printed as an unsigned number and parsed as a \<open>long\<close>: metadata with a size of
  \<open>2 ^ 63\<close> or more is written and can never be read again.
\<close>

theorem huge_size_unreadable:
  assumes "2 ^ 63 \<le> unat (md_size md)" and "CHR 0x00 \<notin> set (md_target_path md)"
    and "CHR 0x00 \<notin> set (md_rename_path md)"
  shows "Metadata_parse cfg (serialize cfg md) = Inl (Conversion Out_of_range)"
  using assms by (rule Metadata_parse_huge)

theorem huge_size_unreadable_witness:
  "Metadata_parse sample_config (serialize sample_config (sample_md\<lparr>md_size := 2 ^ 63\<rparr>)) = Inl (Conversion Out_of_range)"
  by (rule huge_size_unreadable) (simp_all add: sample_md_def Metadata_default_def)

end
