(* ===== verification/Client_Path.thy ===== *)
theory Client_Path
  imports Path_Util
begin

text \<open>
  Path resolution of the client (\<open>src/client/path.cpp\<close>): a path of the application is made absolute,
  freed of \<open>.\<close>, \<open>..\<close> and repeated separators, and classified as internal (below the mount point) or
  external. Both resolvers of the build option \<open>GKFS_USE_LEGACY_PATH_RESOLVE\<close> are modelled.

  Indices into the path become suffixes of it. \<open>lstat\<close> and \<open>realpath\<close> are functions of the host: the
  mode of a path and the target of a link, None on failure. An exception of a string or vector
  operation out of range is the result None.
\<close>

section \<open>Context\<close>

record path_ctx =
  mountdir :: string
  mountdir_components :: "string list"
  cwd :: string

record host_fs =
  lstat :: "string \<Rightarrow> u32 option"
  realpath :: "string \<Rightarrow> string option"

definition S_IFMT :: u32 where "S_IFMT = 0xF000"

definition is_lnk :: "u32 \<Rightarrow> bool" where "is_lnk mode \<longleftrightarrow> mode AND S_IFMT = 0xA000"

definition is_dir :: "u32 \<Rightarrow> bool" where "is_dir mode \<longleftrightarrow> mode AND S_IFMT = 0x4000"

definition excluded_paths :: "string list" where
  "excluded_paths = [''sys/'', ''proc/'']"

section \<open>Matching components\<close>

text \<open>None: \<open>components.at(matched)\<close> is out of range.\<close>

function match_loop :: "string list \<Rightarrow> string \<Rightarrow> nat \<Rightarrow> nat \<Rightarrow> (nat \<times> nat) option" where
  "match_loop components s matched processed =
     (if s = [] then Some (matched, processed)
      else if matched = processed \<and> length components \<le> matched then None
      else match_loop components (drop 1 (after_component s))
             (if matched = processed \<and> component s = components ! matched then matched + 1 else matched)
             (processed + 1))"
  by pat_completeness auto
termination
proof (relation "measure (\<lambda>(_, s, _). length s)")
  fix components :: "string list" and s :: string and matched processed :: nat
  assume "s \<noteq> []"
  then show "((components, drop 1 (after_component s),
      if matched = processed \<and> component s = components ! matched then matched + 1 else matched,
      processed + 1), components, s, matched, processed) \<in> measure (\<lambda>(_, s, _). length s)"
    using length_after_component [of s] by (cases s) auto
qed simp

declare match_loop.simps [simp del]

definition match_components :: "string \<Rightarrow> string list \<Rightarrow> (nat \<times> nat) option" where
  "match_components path components = match_loop components (drop 1 path) 0 0"

section \<open>The resolver\<close>

definition follow_symlinks :: "host_fs \<Rightarrow> string \<Rightarrow> string" where
  "follow_symlinks host path = (case lstat host path of
       None \<Rightarrow> path
     | Some mode \<Rightarrow>
         if is_lnk mode then (case realpath host path of None \<Rightarrow> path | Some link_resolved \<Rightarrow> link_resolved)
         else path)"

text \<open>
  The loop of \<open>resolve_new\<close> on the part of the absolute path from \<open>start\<close> on, with the stack of the
  positions where components start. \<open>follow\<close> is \<open>follow_symlinks\<close> in builds with
  \<open>GKFS_FOLLOW_EXTERNAL_SYMLINKS\<close> and the identity in others.
\<close>

function resolve_loop :: "(string \<Rightarrow> string) \<Rightarrow> string \<Rightarrow> string \<Rightarrow> nat list \<Rightarrow> string option" where
  "resolve_loop follow s resolved last_component_pos =
     (if s = [] then Some resolved
      else if component s = [] then resolve_loop follow (drop 1 s) resolved last_component_pos
      else if component s = ''.'' then resolve_loop follow (drop 1 s) resolved last_component_pos
      else if component s = ''..'' then
        (case last_component_pos of
           [] \<Rightarrow> resolve_loop follow (drop 1 s) [] []
         | pos # ps \<Rightarrow>
             if length resolved < pos then None
             else resolve_loop follow (drop 1 s) (take pos resolved) ps)
      else resolve_loop follow (drop 1 (after_component s)) (follow (resolved @ separator # component s))
             (length resolved # last_component_pos))"
  by pat_completeness auto
termination
proof (relation "measure (\<lambda>(_, s, _). length s)")
  fix follow :: "string \<Rightarrow> string" and s resolved :: string and last_component_pos :: "nat list"
  assume "s \<noteq> []"
  then show "((follow, drop 1 (after_component s), follow (resolved @ separator # component s),
      length resolved # last_component_pos), follow, s, resolved, last_component_pos)
      \<in> measure (\<lambda>(_, s, _). length s)"
    using length_after_component [of s] by (cases s) auto
qed auto

declare resolve_loop.simps [simp del]

text \<open>\<open>resolved.erase(1, n)\<close>\<close>

definition erase_mountdir :: "nat \<Rightarrow> string \<Rightarrow> string option" where
  "erase_mountdir n resolved = (if resolved = [] then None else Some (hd resolved # drop (1 + n) resolved))"

definition absolute_path :: "path_ctx \<Rightarrow> string \<Rightarrow> string" where
  "absolute_path ctx path = (if hd path = separator then path else cwd ctx @ separator # path)"

definition resolve_new :: "path_ctx \<Rightarrow> (string \<Rightarrow> string) \<Rightarrow> string \<Rightarrow> (bool \<times> string) option" where
  "resolve_new ctx follow path =
     (if path = [] then Some (False, [separator])
      else case resolve_loop follow (absolute_path ctx path) [] [] of
             None \<Rightarrow> None
           | Some resolved \<Rightarrow>
               if take (length (mountdir ctx)) resolved = mountdir ctx
               then map_option (Pair True) (erase_mountdir (length (mountdir ctx)) resolved)
               else Some (False, if resolved = [] then [separator] else resolved))"

section \<open>The legacy resolver\<close>

record legacy_state =
  lg_matched :: nat
  lg_resolved_components :: nat
  lg_last_slash_pos :: "nat option"
  lg_resolved :: string

text \<open>A component \<open>..\<close>: the last component is removed and the counters follow. None: \<open>erase\<close> out of range.\<close>

definition legacy_dotdot :: "legacy_state \<Rightarrow> legacy_state option" where
  "legacy_dotdot st =
     (let counters = (\<lambda>st. if 0 < lg_resolved_components st
              then st\<lparr>lg_matched := (if lg_matched st = lg_resolved_components st then lg_matched st - 1 else lg_matched st),
                      lg_resolved_components := lg_resolved_components st - 1\<rparr>
              else st)
      in if lg_resolved st = [] then Some (counters st)
         else (case lg_last_slash_pos st of
                 None \<Rightarrow> None
               | Some pos \<Rightarrow>
                   if length (lg_resolved st) < pos then None
                   else (let resolved = take pos (lg_resolved st)
                         in Some (counters (st\<lparr>lg_resolved := resolved, lg_last_slash_pos := find_last_of resolved\<rparr>)))))"

text \<open>
  What adding a component does: continue with a state, return a path as external, or throw
  (\<open>Legacy_Throw\<close>).
\<close>

datatype legacy_step = Legacy_Next legacy_state | Legacy_External string | Legacy_Throw

definition legacy_component ::
    "path_ctx \<Rightarrow> host_fs \<Rightarrow> bool \<Rightarrow> string \<Rightarrow> string \<Rightarrow> legacy_state \<Rightarrow> legacy_step" where
  "legacy_component ctx host resolve_last_link part rest st =
     (let mnt = mountdir_components ctx;
          resolved = lg_resolved st @ separator # part;
          st1 = st\<lparr>lg_resolved := resolved, lg_last_slash_pos := Some (length (lg_resolved st))\<rparr>
      in if lg_matched st < length mnt
         then (let matched = (if lg_matched st = lg_resolved_components st \<and> part = mnt ! lg_matched st
                              then lg_matched st + 1 else lg_matched st);
                   st2 = st1\<lparr>lg_matched := matched\<rparr>
               in case lstat host resolved of
                    None \<Rightarrow> Legacy_External (resolved @ rest)
                  | Some mode \<Rightarrow>
                      if is_lnk mode
                      then (if \<not> resolve_last_link \<and> rest = [] then Legacy_Next st2
                            else case realpath host resolved of
                                   None \<Rightarrow> Legacy_External (resolved @ rest)
                                 | Some link_resolved \<Rightarrow>
                                     (case match_components link_resolved mnt of
                                        None \<Rightarrow> Legacy_Throw
                                      | Some (m, n) \<Rightarrow>
                                          Legacy_Next \<lparr>lg_matched = m, lg_resolved_components = n,
                                            lg_last_slash_pos = find_last_of link_resolved,
                                            lg_resolved = link_resolved\<rparr>))
                      else if \<not> is_dir mode \<and> rest \<noteq> [] then Legacy_External (resolved @ rest)
                      else Legacy_Next (st2\<lparr>lg_resolved_components := lg_resolved_components st + 1\<rparr>))
         else Legacy_Next (st1\<lparr>lg_matched := lg_matched st + 1,
                               lg_resolved_components := lg_resolved_components st + 1\<rparr>))"

definition legacy_finish :: "path_ctx \<Rightarrow> legacy_state \<Rightarrow> (bool \<times> string) option" where
  "legacy_finish ctx st =
     (if length (mountdir_components ctx) \<le> lg_matched st
      then map_option (Pair True) (erase_mountdir (length (mountdir ctx)) (lg_resolved st))
      else Some (False, if lg_resolved st = [] then [separator] else lg_resolved st))"

lemma legacy_shorter:
  "s \<noteq> [] \<Longrightarrow> length (after_component (dropWhile (\<lambda>c. c = separator) s)) - Suc 0 < length s"
  using length_after_component [of "dropWhile (\<lambda>c. c = separator) s"] length_dropWhile_le [of "\<lambda>c. c = separator" s]
  by (cases s) (auto simp: less_Suc_eq_le simp del: dropWhile.simps)

function legacy_loop ::
    "path_ctx \<Rightarrow> host_fs \<Rightarrow> bool \<Rightarrow> string \<Rightarrow> legacy_state \<Rightarrow> (bool \<times> string) option" where
  "legacy_loop ctx host resolve_last_link s st =
     (let t = dropWhile (\<lambda>c. c = separator) s; rest = after_component t
      in if s = [] \<or> t = [] then legacy_finish ctx st
         else if component t = ''.'' then legacy_loop ctx host resolve_last_link (drop 1 rest) st
         else if component t = ''..''
         then (case legacy_dotdot st of
                 None \<Rightarrow> None
               | Some st' \<Rightarrow> legacy_loop ctx host resolve_last_link (drop 1 rest) st')
         else (case legacy_component ctx host resolve_last_link (component t) rest st of
                 Legacy_Next st' \<Rightarrow> legacy_loop ctx host resolve_last_link (drop 1 rest) st'
               | Legacy_External p \<Rightarrow> Some (False, p)
               | Legacy_Throw \<Rightarrow> None))"
  by pat_completeness auto
termination
  by (relation "measure (\<lambda>(_, _, _, s, _). length s)") (auto simp: legacy_shorter)

declare legacy_loop.simps [simp del]

definition resolve_legacy :: "path_ctx \<Rightarrow> host_fs \<Rightarrow> string \<Rightarrow> bool \<Rightarrow> (bool \<times> string) option" where
  "resolve_legacy ctx host path resolve_last_link =
     (if list_ex (\<lambda>excl. take (length excl) (drop 1 path) = excl) excluded_paths then Some (False, path)
      else legacy_loop ctx host resolve_last_link (drop 1 path)
             \<lparr>lg_matched = 0, lg_resolved_components = 0, lg_last_slash_pos = Some 0, lg_resolved = []\<rparr>)"

text \<open>\<open>resolve\<close> chooses the resolver by build option.\<close>

definition resolve :: "bool \<Rightarrow> bool \<Rightarrow> path_ctx \<Rightarrow> host_fs \<Rightarrow> string \<Rightarrow> bool \<Rightarrow> (bool \<times> string) option" where
  "resolve use_legacy follow_external ctx host path resolve_last_link =
     (if use_legacy then resolve_legacy ctx host path resolve_last_link
      else resolve_new ctx (if follow_external then follow_symlinks host else id) path)"

section \<open>Working directory\<close>

text \<open>
  The working directory lives in three places: the context, the process (\<open>getcwd\<close>, \<open>chdir\<close>) and the
  environment variable that hands an internal directory to child processes. \<open>sys\<close> says how the system
  answers: the result of \<open>getcwd\<close>, and the error of \<open>chdir\<close>, \<open>setenv\<close> and \<open>unsetenv\<close> if they fail.
\<close>

record process =
  sys_cwd :: string
  env_cwd :: "string option"

record cwd_sys =
  getcwd_ret :: int
  chdir_ret :: int
  setenv_err :: "errno option"
  unsetenv_err :: "errno option"

datatype cwd_exn = System_error errno | Unreachable

definition syscall_error_code :: "int \<Rightarrow> errno" where
  "syscall_error_code result = (if result < 0 \<and> - 4096 \<le> result then - result else 0)"

text \<open>\<open>ret\<close> is declared inside the condition and holds the truth value of the comparison.\<close>

definition get_sys_cwd :: "cwd_sys \<Rightarrow> process \<Rightarrow> cwd_exn + string" where
  "get_sys_cwd sys p =
     (let ret = (if getcwd_ret sys < 0 then 1 else 0)
      in if ret \<noteq> 0 then Inl (System_error (syscall_error_code ret))
         else if sys_cwd p = [] \<or> hd (sys_cwd p) \<noteq> separator then Inl Unreachable
         else Inr (sys_cwd p))"

definition set_sys_cwd :: "cwd_sys \<Rightarrow> string \<Rightarrow> process \<Rightarrow> cwd_exn + process" where
  "set_sys_cwd sys path p =
     (if chdir_ret sys \<noteq> 0 then Inl (System_error (syscall_error_code (chdir_ret sys)))
      else Inr (p\<lparr>sys_cwd := path\<rparr>))"

definition set_env_cwd :: "cwd_sys \<Rightarrow> string \<Rightarrow> process \<Rightarrow> cwd_exn + process" where
  "set_env_cwd sys path p = (case setenv_err sys of
       Some e \<Rightarrow> Inl (System_error e)
     | None \<Rightarrow> Inr (p\<lparr>env_cwd := Some path\<rparr>))"

definition unset_env_cwd :: "cwd_sys \<Rightarrow> process \<Rightarrow> cwd_exn + process" where
  "unset_env_cwd sys p = (case unsetenv_err sys of
       Some e \<Rightarrow> Inl (System_error e)
     | None \<Rightarrow> Inr (p\<lparr>env_cwd := None\<rparr>))"

definition init_cwd :: "cwd_sys \<Rightarrow> process \<Rightarrow> path_ctx \<Rightarrow> cwd_exn + path_ctx" where
  "init_cwd sys p ctx = (case env_cwd p of
       Some path \<Rightarrow> Inr (ctx\<lparr>cwd := path\<rparr>)
     | None \<Rightarrow> (case get_sys_cwd sys p of Inl e \<Rightarrow> Inl e | Inr path \<Rightarrow> Inr (ctx\<lparr>cwd := path\<rparr>)))"

text \<open>The process and the context afterwards; on an exception, with what was done before it.\<close>

definition set_cwd ::
    "cwd_sys \<Rightarrow> string \<Rightarrow> bool \<Rightarrow> process \<Rightarrow> path_ctx \<Rightarrow> cwd_exn option \<times> process \<times> path_ctx" where
  "set_cwd sys path internal p ctx =
     (case set_sys_cwd sys (if internal then mountdir ctx else path) p of
        Inl e \<Rightarrow> (Some e, p, ctx)
      | Inr p1 \<Rightarrow>
          (case (if internal then set_env_cwd sys path p1 else unset_env_cwd sys p1) of
             Inl e \<Rightarrow> (Some e, p1, ctx)
           | Inr p2 \<Rightarrow> (None, p2, ctx\<lparr>cwd := path\<rparr>)))"

end
