(* ===== verification/Path_Proofs.thy ===== *)
theory Path_Proofs
  imports Client_Path
begin

text \<open>
  Both resolvers compute the normal form of a path: its components with \<open>.\<close> dropped and \<open>..\<close> removing
  the component before it.
\<close>

section \<open>Normal form\<close>

definition add_part :: "string \<Rightarrow> string list \<Rightarrow> string list" where
  "add_part c cs = (if c = [] \<or> c = ''.'' then cs else if c = ''..'' then butlast cs else cs @ [c])"

definition normal_from :: "string list \<Rightarrow> string \<Rightarrow> string list" where
  "normal_from cs s = fold add_part (split_loop s) cs"

definition proper :: "string \<Rightarrow> bool" where
  "proper c \<longleftrightarrow> is_component c \<and> c \<noteq> ''.'' \<and> c \<noteq> ''..''"

lemma normalize_Nil [simp]: "normal_from cs [] = cs"
  by (simp add: normal_from_def split_loop.simps)

lemma normalize_step: "s \<noteq> [] \<Longrightarrow> normal_from cs s = normal_from (add_part (component s) cs) (drop 1 (after_component s))"
  by (simp add: normal_from_def split_loop.simps [of s])

lemma normalize_slash [simp]: "normal_from cs (separator # s) = normal_from cs s"
  by (simp add: normalize_step add_part_def)

lemma normalize_slashes: "normal_from cs (dropWhile (\<lambda>c. c = separator) s) = normal_from cs s"
  by (induction s) simp_all

lemma after_component_cases: "after_component s = [] \<or> (\<exists>t. after_component s = separator # t)"
  by (induction s) simp_all

lemma normalize_after [simp]: "normal_from cs (drop (Suc 0) (after_component s)) = normal_from cs (after_component s)"
  using after_component_cases [of s]
    by (elim disjE exE) (simp_all del: dropWhile_eq_Nil_conv)

lemma component_split: "s = component s @ after_component s"
  by (rule takeWhile_dropWhile_id [symmetric])

lemma component_no_slash [simp]: "separator \<notin> set (component s)"
  by (metis (mono_tags, lifting) set_takeWhileD)

lemma proper_normalize: "list_all proper cs \<Longrightarrow> list_all proper (normal_from cs s)"
proof (induction s arbitrary: cs rule: split_loop.induct)
  case (1 s)
  show ?case
  proof (cases "s = []")
    case False
    have "list_all proper (add_part (component s) cs)"
      using 1(2) by (auto simp: add_part_def proper_def is_component_def list_all_iff dest: in_set_butlastD)
    then show ?thesis using 1(1) [OF False] normalize_step [OF False] by simp
  qed (use 1 in simp)
qed

lemma normalize_parts: "list_all proper cs \<Longrightarrow> normal_from ds (join cs) = ds @ cs"
proof (induction cs arbitrary: ds)
  case (Cons c cs)
  then have c: "separator \<notin> set c" "c \<noteq> []" "add_part c ds = ds @ [c]"
    by (auto simp: proper_def is_component_def add_part_def)
  then have "normal_from ds (c @ join cs) = normal_from (ds @ [c]) (drop 1 (join cs))"
    by (simp add: normalize_step)
  also have "\<dots> = normal_from (ds @ [c]) (join cs)" by (cases cs) simp_all
  finally show ?case using Cons by simp
qed simp

section \<open>The resolver\<close>

definition positions :: "string list \<Rightarrow> nat list" where
  "positions cs = rev (map (\<lambda>i. length (join (take i cs))) [0..<length cs])"

lemma positions_simps [simp]:
  "positions [] = []" "positions (cs @ [c]) = length (join cs) # positions cs"
  by (simp_all add: positions_def)

lemma normalize_dot: "component s = ''.'' \<Longrightarrow> normal_from cs (drop 1 s) = normal_from cs s"
proof -
  assume dot: "component s = ''.''"
  then have s: "s = CHR ''.'' # after_component s" using component_split [of s] by (metis append_Cons append_Nil)
  then have "normal_from cs s = normal_from cs (after_component s)"
    using normalize_step [of s cs] dot by (cases "s = []") (simp_all add: add_part_def)
  then show ?thesis using s by (metis drop0 drop_Suc_Cons One_nat_def)
qed

lemma normalize_dotdot: "component s = ''..'' \<Longrightarrow> normal_from cs (drop 1 s) = normal_from cs (after_component s)"
proof -
  assume dots: "component s = ''..''"
  let ?t = "CHR ''.'' # after_component s"
  have s: "s = CHR ''.'' # ?t" using component_split [of s] dots by (metis append_Cons append_Nil)
  have "component (after_component s) = []" using after_component_cases [of s]
    by (elim disjE exE) (simp_all del: dropWhile_eq_Nil_conv)
  then have "component ?t = ''.''" by simp
  from normalize_dot [OF this, of cs] show ?thesis using s by (metis drop0 drop_Suc_Cons One_nat_def)
qed

lemma resolve_loop_normalize:
  "resolve_loop id s (join cs) (positions cs) = Some (join (normal_from cs s))"
proof (induction "length s" arbitrary: s cs rule: less_induct)
  case less
  show ?case
  proof (cases "s = []")
    case True
    then show ?thesis by (simp add: resolve_loop.simps)
  next
    case False
    have IH1: "resolve_loop id (drop 1 s) (join ds) (positions ds) = Some (join (normal_from ds (drop 1 s)))" for ds
      using False by (intro less) simp
    have IH2: "resolve_loop id (drop 1 (after_component s)) (join ds) (positions ds) =
        Some (join (normal_from ds (after_component s)))" for ds
      using False length_after_component [of s] less [of "drop 1 (after_component s)" ds] by (cases s) auto
    consider "component s = []" | "component s = ''.''" | "component s = ''..''"
      | "component s \<notin> {[], ''.'', ''..''}" by blast
    then show ?thesis
    proof cases
      case 1
      then have "after_component s = s" using component_split [of s] by simp
      then show ?thesis using 1 False IH1 [of cs] normalize_step [OF False, of cs]
        by (simp add: resolve_loop.simps [of id s] add_part_def)
    next
      case 2
      then show ?thesis using False IH1 [of cs] normalize_dot [OF 2, of cs] by (simp add: resolve_loop.simps [of id s])
    next
      case 3
      have n: "normal_from cs s = normal_from (butlast cs) (drop 1 s)"
        using normalize_step [OF False, of cs] normalize_dotdot [OF 3, of "butlast cs"] 3 by (simp add: add_part_def)
      show ?thesis
      proof (cases cs rule: rev_cases)
        case Nil
        then show ?thesis using 3 False IH1 [of "[]"] n by (simp add: resolve_loop.simps [of id s])
      next
        case (snoc ds d)
        then show ?thesis using 3 False IH1 [of ds] n by (simp add: resolve_loop.simps [of id s])
      qed
    next
      case 4
      have "normal_from cs s = normal_from (cs @ [component s]) (after_component s)"
        using normalize_step [OF False, of cs] 4 by (simp add: add_part_def)
      then show ?thesis using 4 False IH2 [of "cs @ [component s]"] by (simp add: resolve_loop.simps [of id s])
    qed
  qed
qed

text \<open>The normal form of a path in a context, and the result of the resolver in terms of it.\<close>

definition normal :: "path_ctx \<Rightarrow> string \<Rightarrow> string list" where
  "normal ctx path = normal_from [] (absolute_path ctx path)"

definition as_path :: "string list \<Rightarrow> string" where
  "as_path cs = (if cs = [] then [separator] else join cs)"

lemma proper_normal: "list_all proper (normal ctx path)"
  unfolding normal_def by (rule proper_normalize) simp

lemma erase_join: "ms \<noteq> [] \<Longrightarrow> erase_mountdir (length (join ms)) (join ms @ s) = Some (separator # drop 1 s)"
  by (cases ms) (simp_all add: erase_mountdir_def)

lemma as_path_drop: "separator # drop (Suc 0) (join cs) = as_path cs"
  by (cases cs) (simp_all add: as_path_def)

lemma resolve_new_normal:
  assumes "path \<noteq> []"
  shows "resolve_new ctx id path =
    (if prefix (mountdir ctx) (join (normal ctx path))
     then map_option (Pair True) (erase_mountdir (length (mountdir ctx)) (join (normal ctx path)))
     else Some (False, as_path (normal ctx path)))"
  using assms resolve_loop_normalize [of "absolute_path ctx path" "[]"]
  by (auto simp: resolve_new_def normal_def as_path_def prefix_def) (metis append_eq_conv_conj)

lemma resolve_new_below:
  assumes "path \<noteq> []" and "mountdir ctx = join ms" and "ms \<noteq> []" and "normal ctx path = ms @ cs"
  shows "resolve_new ctx id path = Some (True, as_path cs)"
  using assms by (simp add: resolve_new_normal erase_join as_path_drop)

lemma normal_as_path: "list_all proper cs \<Longrightarrow> normal ctx (as_path cs) = cs"
  using normalize_parts [of cs "[]"] by (cases cs) (simp_all add: normal_def absolute_path_def as_path_def)

lemma prefix_join:
  assumes "list_all is_component ms" and "list_all is_component cs" and "prefix (join ms @ [separator]) (join cs @ [separator])"
  shows "prefix ms cs"
  using assms
proof (induction ms arbitrary: cs)
  case (Cons m ms)
  obtain c cs' where cs: "cs = c # cs'" using Cons.prems(3) by (cases cs) (auto simp: is_component_def)
  have pre: "prefix (m @ join ms @ [separator]) (c @ join cs' @ [separator])" using Cons.prems(3) by (simp add: cs)
  have ends: "component (d @ join ds @ [separator]) = d" "after_component (d @ join ds @ [separator]) = join ds @ [separator]"
    if "separator \<notin> set d" for d ds
    using that component_join [of d "ds @ [[]]"] by simp_all
  have sep: "separator \<notin> set m" "separator \<notin> set c" using Cons.prems(1,2) by (simp_all add: cs is_component_def)
  obtain t where t: "c @ join cs' @ [separator] = m @ join ms @ [separator] @ t" using pre by (auto simp: prefix_def)
  have "m = c"
  proof -
    have "component (m @ join ms @ [separator] @ t) = m"
      using sep(1) by (cases ms) (simp_all add: takeWhile_append takeWhile_eq_all_conv)
    then show ?thesis using ends(1) [OF sep(2), of cs'] t by simp
  qed
  then show ?case using Cons.IH [of cs'] Cons.prems pre by (simp add: cs)
qed simp

section \<open>The legacy resolver\<close>

text \<open>A host on which every path that is looked up is a directory.\<close>

definition plain_host :: "host_fs \<Rightarrow> bool" where
  "plain_host host \<longleftrightarrow> (\<forall>p. \<exists>mode. lstat host p = Some mode \<and> is_dir mode)"

lemma is_dir_not_lnk: "is_dir mode \<Longrightarrow> \<not> is_lnk mode"
  by (simp add: is_dir_def is_lnk_def)

text \<open>How many components match: all of them below the mount point, else the common ones.\<close>

fun common :: "string list \<Rightarrow> string list \<Rightarrow> nat" where
  "common (m # ms) (c # cs) = (if m = c then Suc (common ms cs) else 0)"
| "common _ _ = 0"

definition matches :: "string list \<Rightarrow> string list \<Rightarrow> nat" where
  "matches ms cs = (if prefix ms cs then length cs else common ms cs)"

lemma common_le: "common ms cs \<le> length ms" "common ms cs \<le> length cs"
  by (induction ms cs rule: common.induct) auto

lemma common_prefix: "common ms cs = length ms \<longleftrightarrow> prefix ms cs" "common ms cs = length cs \<longleftrightarrow> prefix cs ms"
  by (induction ms cs rule: common.induct) auto

lemma common_snoc:
  "common ms (cs @ [c]) =
     (if common ms cs = length cs \<and> length cs < length ms \<and> c = ms ! length cs then Suc (common ms cs) else common ms cs)"
proof (induction cs arbitrary: ms)
  case Nil
  show ?case by (cases ms) auto
next
  case (Cons d cs)
  then show ?case by (cases ms) auto
qed

lemma matches_snoc:
  "matches ms (cs @ [c]) =
     (if matches ms cs < length ms
      then (if matches ms cs = length cs \<and> c = ms ! matches ms cs then matches ms cs + 1 else matches ms cs)
      else matches ms cs + 1)"
proof (cases "prefix ms cs")
  case True
  then show ?thesis using prefix_length_le [OF True] by (simp add: matches_def)
next
  case False
  then have "common ms cs < length ms" using common_le(1) [of ms cs] common_prefix(1) [of ms cs] by linarith
  moreover have "common ms (cs @ [c]) = length (cs @ [c])" if "prefix ms (cs @ [c])"
    using that False common_prefix(2) [of ms "cs @ [c]"] by (simp add: prefix_order.order_refl)
  ultimately show ?thesis using False common_snoc [of ms cs c] by (auto simp: matches_def split: if_splits)
qed

lemma matches_butlast:
  "cs \<noteq> [] \<Longrightarrow> matches ms (butlast cs) = (if matches ms cs = length cs then matches ms cs - 1 else matches ms cs)"
proof -
  assume "cs \<noteq> []"
  then obtain ds d where cs: "cs = ds @ [d]" by (metis rev_exhaust)
  have le: "matches ms ds \<le> length ds" using common_le(2) by (simp add: matches_def)
  have full: "matches ms ds < length ms \<or> matches ms ds = length ds"
    using common_le(1) [of ms ds] common_prefix(1) [of ms ds] unfolding matches_def by (auto split: if_splits)
  show ?thesis
  proof (cases "matches ms ds < length ms")
    case True
    then show ?thesis using le matches_snoc [of ms ds d] by (simp add: cs)
  next
    case False
    then have "matches ms ds = length ds" using full by blast
    then show ?thesis using False matches_snoc [of ms ds d] by (simp add: cs)
  qed
qed

lemma matches_full: "length ms \<le> matches ms cs \<longleftrightarrow> prefix ms cs"
  using prefix_length_le [of ms cs] common_le(1) [of ms cs] common_prefix(1) [of ms cs]
  by (auto simp: matches_def)

definition legacy_at :: "string list \<Rightarrow> string list \<Rightarrow> legacy_state \<Rightarrow> bool" where
  "legacy_at ms cs st \<longleftrightarrow> lg_resolved st = join cs \<and> lg_resolved_components st = length cs \<and>
     lg_matched st = matches ms cs \<and>
     (cs \<noteq> [] \<longrightarrow> lg_last_slash_pos st = Some (length (join (butlast cs))))"

lemma legacy_dotdot_at:
  assumes "legacy_at ms cs st" and "list_all proper cs"
  shows "\<exists>st'. legacy_dotdot st = Some st' \<and> legacy_at ms (butlast cs) st'"
proof (cases cs rule: rev_cases)
  case Nil
  then show ?thesis using assms by (simp add: legacy_at_def legacy_dotdot_def)
next
  case (snoc ds d)
  have last: "ds \<noteq> [] \<longrightarrow> find_last_of (join ds) = Some (length (join (butlast ds)))"
    using assms(2) find_last_of_join by (cases ds rule: rev_cases) (auto simp: snoc proper_def simp del: join_simps(3))
  have m: "matches ms ds = (if matches ms cs = length cs then matches ms cs - 1 else matches ms cs)"
    using matches_butlast [of cs ms] by (simp add: snoc)
  have st: "lg_resolved st = join ds @ separator # d" "lg_resolved_components st = Suc (length ds)"
    "lg_matched st = matches ms cs" "lg_last_slash_pos st = Some (length (join ds))"
    using assms(1) by (simp_all add: legacy_at_def snoc)
  show ?thesis
  proof (cases "matches ms cs = length cs")
    case True
    then show ?thesis using last m by (simp add: legacy_dotdot_def Let_def st legacy_at_def snoc)
  next
    case False
    then show ?thesis using last m by (simp add: legacy_dotdot_def Let_def st legacy_at_def snoc)
  qed
qed

lemma legacy_component_at:
  assumes "legacy_at ms cs st" and "plain_host host" and "mountdir_components ctx = ms"
  shows "\<exists>st'. legacy_component ctx host rl c rest st = Legacy_Next st' \<and> legacy_at ms (cs @ [c]) st'"
proof -
  obtain mode where "lstat host (join cs @ separator # c) = Some mode" "is_dir mode"
    using assms(2) unfolding plain_host_def by blast
  then show ?thesis
    using assms(1,3) is_dir_not_lnk [of mode] matches_snoc [of ms cs c]
    by (auto simp: legacy_at_def legacy_component_def Let_def)
qed

lemma legacy_loop_normal:
  assumes "legacy_at ms cs st" and "list_all proper cs" and "plain_host host" and "mountdir_components ctx = ms"
  shows "\<exists>st'. legacy_loop ctx host rl s st = legacy_finish ctx st' \<and> legacy_at ms (normal_from cs s) st'"
  using assms
proof (induction "length s" arbitrary: s cs st rule: less_induct)
  case less
  let ?t = "dropWhile (\<lambda>c. c = separator) s"
  note n = normalize_slashes [of cs s]
  show ?case
  proof (cases "?t = []")
    case True
    then have "normal_from cs s = cs" using n unfolding True by simp
    moreover have "legacy_loop ctx host rl s st = legacy_finish ctx st"
      by (subst legacy_loop.simps) (simp only: Let_def True simp_thms if_True)
    ultimately show ?thesis using less.prems(1) by auto
  next
    case False
    then have s: "s \<noteq> []" by auto
    have step: "normal_from cs s = normal_from (add_part (component ?t) cs) (drop 1 (after_component ?t))"
      using n normalize_step [OF False] by simp
    have "hd ?t \<noteq> separator" using hd_dropWhile [OF False] by simp
    then have ne: "component ?t \<noteq> []" using False by (cases ?t) auto
    have short: "length (drop 1 (after_component ?t)) < length s" using legacy_shorter [OF s] by simp
    note IH = less.hyps [OF short _ _ less.prems(3,4)]
    have parts: "list_all proper (add_part (component ?t) cs)"
      using less.prems(2) by (auto simp: add_part_def proper_def is_component_def list_all_iff dest: in_set_butlastD)
    note unf = legacy_loop.simps [of ctx host rl s st, unfolded Let_def, unfolded if_not_P [OF de_Morgan_disj [THEN iffD2, OF conjI [OF s False]]]]
    consider "component ?t = ''.''" | "component ?t = ''..''" | "component ?t \<notin> {''.'', ''..''}" by blast
    then show ?thesis
    proof cases
      case 1
      then show ?thesis using IH [OF less.prems(1,2)] step by (simp add: unf add_part_def)
    next
      case 2
      obtain st' where "legacy_dotdot st = Some st'" "legacy_at ms (butlast cs) st'"
        using legacy_dotdot_at [OF less.prems(1,2)] by blast
      then show ?thesis using IH [of "butlast cs" st'] step parts 2 by (simp add: unf add_part_def)
    next
      case 3
      obtain st' where "legacy_component ctx host rl (component ?t) (after_component ?t) st = Legacy_Next st'"
        "legacy_at ms (cs @ [component ?t]) st'"
        using legacy_component_at [OF less.prems(1,3,4)] by blast
      then show ?thesis using IH [of "cs @ [component ?t]" st'] step parts 3 ne by (simp add: unf add_part_def)
    qed
  qed
qed

lemma resolve_legacy_normal:
  assumes "plain_host host" and "mountdir_components ctx = ms" and "mountdir ctx = join ms" and "ms \<noteq> []"
    and "is_absolute path" and "\<not> list_ex (\<lambda>excl. prefix excl (drop 1 path)) excluded_paths"
  shows "resolve_legacy ctx host path rl =
    Some (if prefix ms (normal ctx path) then (True, as_path (drop (length ms) (normal ctx path)))
          else (False, as_path (normal ctx path)))"
proof -
  let ?st = "\<lparr>lg_matched = 0, lg_resolved_components = 0, lg_last_slash_pos = Some 0, lg_resolved = []\<rparr>"
  have "legacy_at ms [] ?st" using assms(4) by (cases ms) (simp_all add: legacy_at_def matches_def)
  from legacy_loop_normal [OF this _ assms(1,2), of rl "drop 1 path"]
  obtain st' where l: "legacy_loop ctx host rl (drop 1 path) ?st = legacy_finish ctx st'"
    and at: "legacy_at ms (normal_from [] (drop 1 path)) st'" by auto
  have n: "normal_from [] (drop 1 path) = normal ctx path"
    using assms(5) by (cases path) (simp_all add: is_absolute_def normal_def absolute_path_def)
  have excl: "\<not> list_ex (\<lambda>excl. take (length excl) (drop 1 path) = excl) excluded_paths"
    using assms(6) by (auto simp: list_ex_iff take_is_prefix prefix_def) (metis append_take_drop_id)
  have "legacy_finish ctx st' = Some (if prefix ms (normal ctx path) then (True, as_path (drop (length ms) (normal ctx path)))
      else (False, as_path (normal ctx path)))"
  proof (cases "prefix ms (normal ctx path)")
    case True
    then obtain cs where "normal ctx path = ms @ cs" by (auto simp: prefix_def)
    then show ?thesis
      using at n matches_full [of ms "normal ctx path"] assms(2,3,4) True
      by (simp add: legacy_finish_def legacy_at_def erase_join as_path_drop)
  next
    case False
    then show ?thesis
      using at n matches_full [of ms "normal ctx path"] assms(2)
      by (simp add: legacy_finish_def legacy_at_def as_path_def)
  qed
  then show ?thesis using l excl by (simp add: resolve_legacy_def)
qed

end
