(* ===== verification/Path_Properties.thy ===== *)
theory Path_Properties
  imports Path_Proofs
begin

text \<open>
  Properties of path resolution and of the working directory.
\<close>

definition sample_ctx :: path_ctx where
  "sample_ctx = \<lparr>mountdir = ''/m/g'', mountdir_components = [''m'', ''g''], cwd = ''/m/g/d''\<rparr>"

definition sample_host :: host_fs where
  "sample_host = \<lparr>lstat = \<lambda>_. Some 0x41ED, realpath = \<lambda>_. None\<rparr>"

text \<open>
  C35. For every path outside \<open>/sys/\<close> and \<open>/proc/\<close>, the resolver never fails in builds that do not follow
  symbolic links, its result depends on the components of the normal form of the path only, and these
  contain no empty component, \<open>.\<close> or \<open>..\<close>. A path whose components start with those of the mount point is
  internal and becomes the path of its remaining components. A path whose normal form does not start with
  the characters of the mount point is external and normalised. Between the two are the siblings whose
  names extend the one of the mount point.
\<close>

theorem resolve_new_correct:
  assumes "path \<noteq> []" and "mountdir ctx = join ms" and "ms \<noteq> []"
    and "\<not> list_ex (\<lambda>excl. prefix (CHR ''/'' # excl) path) excluded_paths"
  shows "list_all proper (normal ctx path) \<and>
    (\<forall>cs. normal ctx path = ms @ cs \<longrightarrow> resolve_new ctx id path = Some (True, as_path cs)) \<and>
    (\<not> prefix (mountdir ctx) (join (normal ctx path)) \<longrightarrow> resolve_new ctx id path = Some (False, as_path (normal ctx path))) \<and>
    resolve_new ctx id path \<noteq> None"
proof -
  have "resolve_new ctx id path \<noteq> None"
    using assms(1-3) erase_join [of ms] by (auto simp: resolve_new_normal prefix_def)
  then show ?thesis
    using proper_normal resolve_new_below [OF assms(1-3)] resolve_new_normal [OF assms(1), of ctx] by auto
qed

lemma sample_normal: "normal sample_ctx ''../x/./y//z'' = [''m'', ''g'', ''x'', ''y'', ''z'']"
  by code_simp

theorem resolve_new_correct_witness: "resolve_new sample_ctx id ''../x/./y//z'' = Some (True, ''/x/y/z'')"
proof -
  have "mountdir sample_ctx = join [''m'', ''g'']" by (simp add: sample_ctx_def)
  from resolve_new_correct [of "''../x/./y//z''", OF _ this] show ?thesis
    by (simp add: sample_normal as_path_def excluded_paths_def)
qed

text \<open>
  Inside the kernel's pseudo file systems the resolvers differ: the legacy one leaves such a path alone,
  the new one resolves it, into the mount point where the path leads there.
\<close>

lemma excluded_path_resolved:
  "resolve_new sample_ctx id ''/sys/../m/g/x'' = Some (True, ''/x'') \<and>
   resolve_legacy sample_ctx sample_host ''/sys/../m/g/x'' True = Some (False, ''/sys/../m/g/x'')"
proof -
  have "resolve_new sample_ctx id ''/sys/../m/g/x'' = Some (True, ''/x'')" by code_simp
  moreover have "resolve_legacy sample_ctx sample_host ''/sys/../m/g/x'' True = Some (False, ''/sys/../m/g/x'')"
    by (simp add: resolve_legacy_def excluded_paths_def)
  ultimately show ?thesis by simp
qed

text \<open>
  Resolution is idempotent: an external result resolves to itself.
\<close>

theorem resolve_new_idempotent:
  assumes "path \<noteq> []" and "resolve_new ctx id path = Some (False, r)"
  shows "resolve_new ctx id r = Some (False, r)"
proof -
  have np: "\<not> prefix (mountdir ctx) (join (normal ctx path))" and r: "r = as_path (normal ctx path)"
    using assms by (auto simp: resolve_new_normal split: if_splits option.splits)
  have "r \<noteq> []" "normal ctx r = normal ctx path"
    using normal_as_path [OF proper_normal] by (auto simp: r as_path_def)
  then show ?thesis using np r by (simp add: resolve_new_normal)
qed

theorem resolve_new_idempotent_witness:
  "resolve_new sample_ctx id ''/home/u'' = Some (False, ''/home/u'')"
proof -
  have "resolve_new sample_ctx id ''/home/x/../u/'' = Some (False, ''/home/u'')" by code_simp
  from resolve_new_idempotent [OF _ this] show ?thesis by simp
qed

text \<open>
  C36. The optimised resolver and the legacy one agree on every absolute path that is not excluded, on a
  host whose directories exist and are no links, unless the path starts with the characters of the mount
  point without being below it.
\<close>

theorem resolvers_agree:
  assumes "plain_host host" and "mountdir_components ctx = ms" and "mountdir ctx = join ms" and "ms \<noteq> []"
    and "is_absolute path" and "\<not> list_ex (\<lambda>excl. prefix excl (drop 1 path)) excluded_paths"
    and "prefix (mountdir ctx) (join (normal ctx path)) \<Longrightarrow> prefix ms (normal ctx path)"
  shows "resolve_legacy ctx host path rl = resolve_new ctx id path"
proof (cases "prefix ms (normal ctx path)")
  case True
  then obtain cs where "normal ctx path = ms @ cs" by (auto simp: prefix_def)
  then show ?thesis
    using resolve_legacy_normal [OF assms(1-6), of rl] resolve_new_below [OF _ assms(3,4), of path cs] assms(5)
    by (simp add: is_absolute_def)
next
  case False
  then show ?thesis
    using resolve_legacy_normal [OF assms(1-6), of rl] resolve_new_normal [of path ctx] assms(5,7)
    by (auto simp: is_absolute_def)
qed

theorem resolvers_agree_witness:
  "resolve_legacy sample_ctx sample_host ''/m/./g/x'' True = resolve_new sample_ctx id ''/m/./g/x''"
proof (rule resolvers_agree [of _ _ "[''m'', ''g'']"])
  show "plain_host sample_host" by (simp add: plain_host_def sample_host_def is_dir_def S_IFMT_def)
  have "normal sample_ctx ''/m/./g/x'' = [''m'', ''g'', ''x'']" by code_simp
  then show "prefix [''m'', ''g''] (normal sample_ctx ''/m/./g/x'')" by simp
qed (simp_all add: sample_ctx_def is_absolute_def excluded_paths_def)

text \<open>
  C37. The resolver compares characters, not components: the sibling of the mount point whose name is
  that of the mount point with one more character resolves to the root of the file system.
\<close>

theorem sibling_resolves_to_root:
  assumes "mountdir ctx = join (ms @ [m])" and "list_all proper ms" and "proper (m @ [x])"
  shows "resolve_new ctx id (join (ms @ [m @ [x]])) = Some (True, ''/'')"
proof -
  let ?p = "join (ms @ [m @ [x]])"
  have "normal ctx ?p = ms @ [m @ [x]]"
    using normal_as_path [of "ms @ [m @ [x]]" ctx] assms(2,3) by (simp add: as_path_def del: join_simps(3))
  then show ?thesis
    using assms(1) erase_join [of "ms @ [m]" "[x]"] by (simp add: resolve_new_normal)
qed

theorem sibling_resolves_to_root_witness: "resolve_new sample_ctx id ''/m/g2'' = Some (True, ''/'')"
  using sibling_resolves_to_root [of sample_ctx "[''m'']" "''g''" "CHR ''2''"]
  by (simp add: sample_ctx_def proper_def is_component_def)

text \<open>
  A link that leads below the mount point makes the legacy resolver read past the end of the mount
  point's components.
\<close>

lemma match_below_throws: "match_components ''/m/g/x'' [''m'', ''g''] = None"
  by code_simp

section \<open>Working directory\<close>

text \<open>An internal working directory survives in a process that starts with the environment of this one.\<close>

lemma set_then_init_cwd:
  assumes "set_cwd sys path True p ctx = (None, p', ctx')"
  shows "init_cwd sys' p' ctx0 = Inr (ctx0\<lparr>cwd := path\<rparr>)" and "sys_cwd p' = mountdir ctx" and "cwd ctx' = path"
  using assms
  by (auto simp: set_cwd_def set_sys_cwd_def set_env_cwd_def init_cwd_def split: if_splits option.splits sum.splits)

text \<open>A failure of \<open>getcwd\<close> is reported with error code 0, whatever the system returned.\<close>

lemma getcwd_error_lost: "getcwd_ret sys < 0 \<Longrightarrow> get_sys_cwd sys p = Inl (System_error 0)"
  by (simp add: get_sys_cwd_def syscall_error_code_def)

end
