(* ===== verification/Srv_Metadata.thy ===== *)
theory Srv_Metadata
  imports Metadata_DB Chunk_Storage
begin

text \<open>
  The metadata handlers of a daemon (\<open>src/daemon/handler/srv_metadata.cpp\<close>). A handler takes the
  request, the daemon's metadata store and, where it touches chunks, its chunk files; it returns the
  response and the new state. Exceptions of the operations become the error codes of the response.
  That Margo delivers the input is taken as given: most handlers only assert it. The directory handlers
  check it and every step of their bulk transfer, and so does the model.
\<close>

text \<open>
  What a daemon runs with: build options, RocksDB, which times it keeps, the clock, the identifier
  \<open>gen_unique_id\<close> draws, its chunk storage, and how removing a chunk directory fails if it does.
\<close>

record 's md_srv =
  ms_cfg :: md_config
  ms_api :: "'s rocksdb"
  ms_times :: "bool \<times> bool \<times> bool"
  ms_now :: u64
  ms_merge_id :: u16
  ms_storage :: chunk_storage
  ms_rm_err :: "(nat \<times> errno) option"

section \<open>Create, stat and sizes\<close>

definition rpc_srv_create :: "'s md_srv \<Rightarrow> 's mdb \<Rightarrow> string \<Rightarrow> u32 \<Rightarrow> errno \<times> 's mdb" where
  "rpc_srv_create srv m path mode =
     (case md_create (ms_cfg srv) (ms_api srv) (ms_times srv) (ms_now srv) m path
             (Metadata_new (ms_cfg srv) (ms_now srv) mode) of
        (None, m') \<Rightarrow> (0, m')
      | (Some (ExistsException _), m') \<Rightarrow> (EEXIST, m')
      | (Some _, m') \<Rightarrow> (- 1, m'))"

definition rpc_srv_stat :: "'s md_srv \<Rightarrow> 's mdb \<Rightarrow> string \<Rightarrow> (errno \<times> string) \<times> 's mdb" where
  "rpc_srv_stat srv m path =
     (case md_get_str (ms_cfg srv) (ms_api srv) m path of
        (Inr val, m') \<Rightarrow> ((0, c_str val), m')
      | (Inl NotFoundException, m') \<Rightarrow> ((ENOENT, []), m')
      | (Inl _, m') \<Rightarrow> ((EBUSY, []), m'))"

definition rpc_srv_decr_size :: "'s md_srv \<Rightarrow> 's mdb \<Rightarrow> string \<Rightarrow> u64 \<Rightarrow> errno \<times> 's mdb" where
  "rpc_srv_decr_size srv m path len =
     (case decrease_size_impl (ms_cfg srv) (ms_api srv) m (ms_now srv) path len of
        (None, m') \<Rightarrow> (0, m')
      | (Some _, m') \<Rightarrow> (EIO, m'))"

definition rpc_srv_update_metadentry_size ::
    "'s md_srv \<Rightarrow> 's mdb \<Rightarrow> string \<Rightarrow> u64 \<Rightarrow> u64 \<Rightarrow> bool \<Rightarrow> (errno \<times> u64) \<times> 's mdb" where
  "rpc_srv_update_metadentry_size srv m path sz offset appd =
     (case md_update_size (ms_cfg srv) (ms_api srv) m (ms_merge_id srv) (ms_now srv) path sz offset appd of
        (Inr ret_offset, m') \<Rightarrow> ((0, ret_offset), m')
      | (Inl NotFoundException, m') \<Rightarrow> ((ENOENT, 0), m')
      | (Inl _, m') \<Rightarrow> ((EBUSY, 0), m'))"

definition rpc_srv_get_metadentry_size :: "'s md_srv \<Rightarrow> 's mdb \<Rightarrow> string \<Rightarrow> (errno \<times> u64) \<times> 's mdb" where
  "rpc_srv_get_metadentry_size srv m path =
     (case md_get_size (ms_cfg srv) (ms_api srv) m path of
        (Inr ret_size, m') \<Rightarrow> ((0, ret_size), m')
      | (Inl NotFoundException, m') \<Rightarrow> ((ENOENT, 0), m')
      | (Inl _, m') \<Rightarrow> ((EBUSY, 0), m'))"

section \<open>Remove\<close>

record rm_metadata_out =
  rm_err :: errno
  rm_size :: u64
  rm_mode :: u32

definition rm_exn_code :: "db_exn \<Rightarrow> errno" where
  "rm_exn_code e = (case e of
       NotFoundException \<Rightarrow> ENOENT
     | DBException \<Rightarrow> EIO
     | ExistsException _ \<Rightarrow> EIO
     | Parse_error _ \<Rightarrow> EBUSY)"

definition storage_exn_code :: "storage_exn \<Rightarrow> errno" where
  "storage_exn_code e = (case e of ChunkStorageException c \<Rightarrow> c | StdException \<Rightarrow> EBUSY)"

text \<open>\<open>implicit_data_removal\<close> is on, as in \<open>config.hpp\<close>.\<close>

definition rpc_srv_remove_metadata ::
    "'s md_srv \<Rightarrow> 's mdb \<Rightarrow> local_fs \<Rightarrow> string \<Rightarrow> bool \<Rightarrow> rm_metadata_out \<times> 's mdb \<times> local_fs" where
  "rpc_srv_remove_metadata srv m fs path rm_dir =
     (let fail = (\<lambda>e. \<lparr>rm_err = e, rm_size = 0, rm_mode = 0\<rparr>)
      in case md_get (ms_cfg srv) (ms_api srv) m path of
           (Inl e, m1) \<Rightarrow> (fail (rm_exn_code e), m1, fs)
         | (Inr md, m1) \<Rightarrow>
             if S_ISDIR (md_mode md) \<and> \<not> rm_dir then (fail EISDIR, m1, fs)
             else if \<not> S_ISDIR (md_mode md) \<and> rm_dir then (fail ENOTDIR, m1, fs)
             else (case md_remove (ms_api srv) m1 path of
                     (Some e, m2) \<Rightarrow> (fail (rm_exn_code e), m2, fs)
                   | (None, m2) \<Rightarrow>
                       (let out = \<lparr>rm_err = 0, rm_size = (if S_ISDIR (md_mode md) then 0 else md_size md),
                                   rm_mode = md_mode md\<rparr>
                        in if S_ISREG (md_mode md) \<and> md_size md \<noteq> 0
                           then (case destroy_chunk_space (ms_storage srv) (ms_rm_err srv) fs path of
                                   (None, fs') \<Rightarrow> (out, m2, fs')
                                 | (Some e, fs') \<Rightarrow> (out\<lparr>rm_err := storage_exn_code e\<rparr>, m2, fs'))
                           else (out, m2, fs))))"

definition rpc_srv_remove_data :: "'s md_srv \<Rightarrow> local_fs \<Rightarrow> string \<Rightarrow> errno \<times> local_fs" where
  "rpc_srv_remove_data srv fs path =
     (if limbo_mode then (0, fs)
      else case destroy_chunk_space (ms_storage srv) (ms_rm_err srv) fs path of
             (None, fs') \<Rightarrow> (0, fs')
           | (Some e, fs') \<Rightarrow> (storage_exn_code e, fs'))"

section \<open>Updates\<close>

record update_metadentry_in =
  um_nlink :: u64
  um_size :: u64
  um_blocks :: u64
  um_atime :: u64
  um_mtime :: u64
  um_ctime :: u64
  um_nlink_flag :: bool
  um_size_flag :: bool
  um_block_flag :: bool
  um_atime_flag :: bool
  um_mtime_flag :: bool
  um_ctime_flag :: bool

definition rpc_srv_update_metadentry ::
    "'s md_srv \<Rightarrow> 's mdb \<Rightarrow> string \<Rightarrow> update_metadentry_in \<Rightarrow> errno \<times> 's mdb" where
  "rpc_srv_update_metadentry srv m path inp =
     (case md_get (ms_cfg srv) (ms_api srv) m path of
        (Inl _, m1) \<Rightarrow> (1, m1)
      | (Inr md, m1) \<Rightarrow>
          (let md' = md\<lparr>md_blocks := (if um_block_flag inp then um_blocks inp else md_blocks md),
                        md_link_count := (if um_nlink_flag inp then um_nlink inp else md_link_count md),
                        md_size := (if um_size_flag inp then um_size inp else md_size md),
                        md_atime := (if um_atime_flag inp then um_atime inp else md_atime md),
                        md_mtime := (if um_mtime_flag inp then um_mtime inp else md_mtime md),
                        md_ctime := (if um_ctime_flag inp then um_ctime inp else md_ctime md)\<rparr>
           in case md_update (ms_cfg srv) (ms_api srv) m1 path md' of
                (None, m2) \<Rightarrow> (0, m2)
              | (Some _, m2) \<Rightarrow> (1, m2)))"

definition rpc_srv_mk_symlink :: "'s md_srv \<Rightarrow> 's mdb \<Rightarrow> string \<Rightarrow> string \<Rightarrow> errno \<times> 's mdb" where
  "rpc_srv_mk_symlink srv m path target_path =
     (case md_get (ms_cfg srv) (ms_api srv) m path of
        (Inl _, m1) \<Rightarrow> (1, m1)
      | (Inr md, m1) \<Rightarrow>
          (let md' = (if has_rename (ms_cfg srv) \<and> md_blocks md = - 1
                      then md\<lparr>md_rename_path := target_path\<rparr> else md\<lparr>md_target_path := target_path\<rparr>)
           in case md_update (ms_cfg srv) (ms_api srv) m1 path md' of
                (None, m2) \<Rightarrow> (0, m2)
              | (Some _, m2) \<Rightarrow> (1, m2)))"

section \<open>Directory entries\<close>

text \<open>Which steps of Margo succeed while a directory is served.\<close>

record dirents_env =
  de_get_input_ok :: bool
  de_bulk_create_ok :: bool
  de_bulk_access_ok :: bool
  de_bulk_push_ok :: bool

text \<open>
  The reply: error, number of entries, and what was pushed to the start of the client's buffer. Names are
  C strings and hold no NUL; a \<open>bool\<close> is one byte. Numbers are little-endian.
\<close>

record dirents_out =
  do_err :: errno
  do_size :: nat
  do_pushed :: string

definition bool_char :: "bool \<Rightarrow> char" where
  "bool_char b = (if b then CHR 0x01 else CHR 0x00)"

definition name_field :: "string \<Rightarrow> string" where
  "name_field name = name @ [NUL]"

primrec le_bytes :: "nat \<Rightarrow> nat \<Rightarrow> string" where
  "le_bytes 0 n = []"
| "le_bytes (Suc k) n = char_of (n mod 256) # le_bytes k (n div 256)"

definition dirents_buffer :: "(string \<times> bool) list \<Rightarrow> string" where
  "dirents_buffer entries =
     map (bool_char \<circ> snd) entries @ concat (map (name_field \<circ> fst) entries)"

definition dirents_extended_buffer :: "(string \<times> bool \<times> u64 \<times> u64) list \<Rightarrow> string" where
  "dirents_extended_buffer entries =
     map (\<lambda>(_, is_dir, _, _). bool_char is_dir) entries @
     concat (map (\<lambda>(_, _, sz, _). le_bytes 8 (unat sz)) entries) @
     concat (map (\<lambda>(_, _, _, ctime). le_bytes 8 (unat ctime)) entries) @
     concat (map (\<lambda>(name, _, _, _). name_field name) entries)"

text \<open>The common end of both handlers: size check, bulk handle, push.\<close>

definition push_dirents :: "dirents_env \<Rightarrow> nat \<Rightarrow> nat \<Rightarrow> nat \<Rightarrow> string \<Rightarrow> dirents_out" where
  "push_dirents env bulk_size out_size n buffer =
     (if bulk_size < out_size then \<lparr>do_err = ENOBUFS, do_size = 0, do_pushed = []\<rparr>
      else if \<not> de_bulk_create_ok env \<or> \<not> de_bulk_access_ok env then \<lparr>do_err = EIO, do_size = 0, do_pushed = []\<rparr>
      else if \<not> de_bulk_push_ok env then \<lparr>do_err = EBUSY, do_size = 0, do_pushed = []\<rparr>
      else \<lparr>do_err = 0, do_size = n, do_pushed = take out_size buffer\<rparr>)"

definition rpc_srv_get_dirents :: "'s md_srv \<Rightarrow> dirents_env \<Rightarrow> 's mdb \<Rightarrow> string \<Rightarrow> nat \<Rightarrow> dirents_out" where
  "rpc_srv_get_dirents srv env m path bulk_size =
     (if \<not> de_get_input_ok env then \<lparr>do_err = EBUSY, do_size = 0, do_pushed = []\<rparr>
      else case mdb_get_dirents (ms_cfg srv) (ms_api srv) m path of
             Inl _ \<Rightarrow> \<lparr>do_err = EIO, do_size = 0, do_pushed = []\<rparr>
           | Inr entries \<Rightarrow>
               if entries = [] then \<lparr>do_err = 0, do_size = 0, do_pushed = []\<rparr>
               else (let out_size = (\<Sum>e\<leftarrow>entries. length (fst e)) + length entries * 2
                     in push_dirents env bulk_size out_size (length entries) (dirents_buffer entries)))"

definition rpc_srv_get_dirents_extended :: "'s md_srv \<Rightarrow> dirents_env \<Rightarrow> 's mdb \<Rightarrow> string \<Rightarrow> nat \<Rightarrow> dirents_out" where
  "rpc_srv_get_dirents_extended srv env m path bulk_size =
     (if \<not> de_get_input_ok env then \<lparr>do_err = EBUSY, do_size = 0, do_pushed = []\<rparr>
      else case mdb_get_dirents_extended (ms_cfg srv) (ms_api srv) m path of
             Inl _ \<Rightarrow> \<lparr>do_err = EIO, do_size = 0, do_pushed = []\<rparr>
           | Inr entries \<Rightarrow>
               if entries = [] then \<lparr>do_err = 0, do_size = 0, do_pushed = []\<rparr>
               else (let out_size = (\<Sum>e\<leftarrow>entries. length (fst e)) + length entries * (1 + 1 + 8 + 8)
                     in push_dirents env bulk_size out_size (length entries) (dirents_extended_buffer entries)))"

section \<open>Sizes of the buffers\<close>

lemma length_dirents_buffer:
  "length (dirents_buffer es) = (\<Sum>e\<leftarrow>es. length (fst e)) + length es * 2"
proof -
  have "length (concat (map (name_field \<circ> fst) es)) = (\<Sum>e\<leftarrow>es. length (fst e)) + length es"
    by (induction es) (simp_all add: name_field_def)
  then show ?thesis by (simp add: dirents_buffer_def)
qed

lemma length_le_bytes [simp]: "length (le_bytes k n) = k"
  by (induction k arbitrary: n) simp_all

lemma length_dirents_extended_buffer:
  "length (dirents_extended_buffer es) = (\<Sum>e\<leftarrow>es. length (fst e)) + length es * (1 + 1 + 8 + 8)"
  by (induction es) (auto simp: dirents_extended_buffer_def name_field_def)

end
