(* ===== verification/Open_File_Map.thy ===== *)
theory Open_File_Map
  imports Gkfs_Prelude
begin

text \<open>
  Open files and directories of a client process (\<open>src/client/open_file_map.cpp\<close>,
  \<open>src/client/open_dir.cpp\<close>). A descriptor maps to a shared pointer: the address of a file in a heap, so
  that descriptors made by \<open>dup\<close> share flags and position. An \<open>OpenDir\<close> is an \<open>OpenFile\<close> whose entries
  are used. Descriptors are \<open>int\<close>s, kept as integers with the maximum written out.
\<close>

section \<open>Files\<close>

datatype OpenFile_flags = Append | Creat | Trunc | Rdonly | Wronly | Rdwr | Cloexec

datatype FileType = Regular | Directory

record DirEntry =
  entry_name :: string
  entry_type :: FileType

record OpenFile =
  of_type :: FileType
  of_path :: string
  of_flags :: "OpenFile_flags \<Rightarrow> bool"
  of_pos :: u64
  of_entries :: "DirEntry list"

definition O_RDONLY :: u32 where "O_RDONLY = 0"
definition O_WRONLY :: u32 where "O_WRONLY = 1"
definition O_RDWR :: u32 where "O_RDWR = 2"
definition O_CREAT :: u32 where "O_CREAT = 0x40"
definition O_TRUNC :: u32 where "O_TRUNC = 0x200"
definition O_APPEND :: u32 where "O_APPEND = 0x400"

definition OpenFile_new :: "string \<Rightarrow> u32 \<Rightarrow> FileType \<Rightarrow> OpenFile" where
  "OpenFile_new path flags type =
     \<lparr>of_type = type, of_path = path,
      of_flags = (\<lambda>f. case f of
          Creat \<Rightarrow> flags AND O_CREAT \<noteq> 0
        | Append \<Rightarrow> flags AND O_APPEND \<noteq> 0
        | Trunc \<Rightarrow> flags AND O_TRUNC \<noteq> 0
        | Rdonly \<Rightarrow> flags AND O_RDONLY \<noteq> 0
        | Wronly \<Rightarrow> flags AND O_WRONLY \<noteq> 0
        | Rdwr \<Rightarrow> flags AND O_RDWR \<noteq> 0
        | Cloexec \<Rightarrow> False),
      of_pos = 0, of_entries = []\<rparr>"

definition get_flag :: "OpenFile \<Rightarrow> OpenFile_flags \<Rightarrow> bool" where
  "get_flag f flag = of_flags f flag"

definition set_flag :: "OpenFile_flags \<Rightarrow> bool \<Rightarrow> OpenFile \<Rightarrow> OpenFile" where
  "set_flag flag val f = f\<lparr>of_flags := (of_flags f)(flag := val)\<rparr>"

definition set_pos :: "u64 \<Rightarrow> OpenFile \<Rightarrow> OpenFile" where
  "set_pos pos f = f\<lparr>of_pos := pos\<rparr>"

definition OpenDir_new :: "string \<Rightarrow> OpenFile" where
  "OpenDir_new path = OpenFile_new path 0 Directory"

definition OpenDir_add :: "string \<Rightarrow> FileType \<Rightarrow> OpenFile \<Rightarrow> OpenFile" where
  "OpenDir_add name type d = d\<lparr>of_entries := of_entries d @ [\<lparr>entry_name = name, entry_type = type\<rparr>]\<rparr>"

text \<open>None: \<open>entries.at\<close> is out of range.\<close>

definition getdent :: "OpenFile \<Rightarrow> u32 \<Rightarrow> DirEntry option" where
  "getdent d pos = (if unat pos < length (of_entries d) then Some (of_entries d ! unat pos) else None)"

definition OpenDir_size :: "OpenFile \<Rightarrow> nat" where
  "OpenDir_size d = length (of_entries d)"

section \<open>The map\<close>

record OpenFileMap =
  files :: "(int \<times> nat) list"
  fd_idx :: int
  fd_validation_needed :: bool

definition INT_MAX :: int where "INT_MAX = 2147483647"

definition OpenFileMap_new :: OpenFileMap where
  "OpenFileMap_new = \<lparr>files = [], fd_idx = 10000, fd_validation_needed = False\<rparr>"

definition fm_get :: "OpenFileMap \<Rightarrow> int \<Rightarrow> nat option" where
  "fm_get m fd = map_of (files m) fd"

definition fm_get_dir :: "OpenFile list \<Rightarrow> OpenFileMap \<Rightarrow> int \<Rightarrow> nat option" where
  "fm_get_dir heap m dirfd = (case fm_get m dirfd of
       None \<Rightarrow> None
     | Some f \<Rightarrow> if of_type (heap ! f) \<noteq> Directory then None else Some f)"

definition fm_exist :: "OpenFileMap \<Rightarrow> int \<Rightarrow> bool" where
  "fm_exist m fd \<longleftrightarrow> map_of (files m) fd \<noteq> None"

definition generate_fd_idx :: "OpenFileMap \<Rightarrow> int \<times> OpenFileMap" where
  "generate_fd_idx m =
     (let m1 = (if fd_idx m = INT_MAX then m\<lparr>fd_idx := 100000, fd_validation_needed := True\<rparr> else m)
      in (fd_idx m1, m1\<lparr>fd_idx := fd_idx m1 + 1\<rparr>))"

definition get_fd_idx :: "OpenFileMap \<Rightarrow> int" where
  "get_fd_idx m = fd_idx m"

text \<open>The loop \<open>while(exist(fd)) fd = generate_fd_idx()\<close>; None when it does not end.\<close>

partial_function (option) next_free :: "OpenFileMap \<Rightarrow> int \<Rightarrow> (int \<times> OpenFileMap) option" where
  "next_free m fd =
     (if fm_exist m fd then (case generate_fd_idx m of (fd', m') \<Rightarrow> next_free m' fd') else Some (fd, m))"

definition safe_generate_fd_idx :: "OpenFileMap \<Rightarrow> (int \<times> OpenFileMap) option" where
  "safe_generate_fd_idx m = (case generate_fd_idx m of (fd, m') \<Rightarrow>
     if fd_validation_needed m' then next_free m' fd else Some (fd, m'))"

text \<open>\<open>std::map::insert\<close> keeps an entry that exists.\<close>

definition map_insert :: "int \<Rightarrow> nat \<Rightarrow> (int \<times> nat) list \<Rightarrow> (int \<times> nat) list" where
  "map_insert k v fs = (if map_of fs k = None then (k, v) # fs else fs)"

definition fm_add :: "nat \<Rightarrow> OpenFileMap \<Rightarrow> (int \<times> OpenFileMap) option" where
  "fm_add f m = (case safe_generate_fd_idx m of
       None \<Rightarrow> None
     | Some (fd, m') \<Rightarrow> Some (fd, m'\<lparr>files := map_insert fd f (files m')\<rparr>))"

definition fm_remove :: "int \<Rightarrow> OpenFileMap \<Rightarrow> bool \<times> OpenFileMap" where
  "fm_remove fd m =
     (if map_of (files m) fd = None then (False, m)
      else (let m1 = m\<lparr>files := filter (\<lambda>e. fst e \<noteq> fd) (files m)\<rparr>
            in (True, if fd_validation_needed m1 \<and> files m1 = []
                      then m1\<lparr>fd_validation_needed := False\<rparr> else m1)))"

text \<open>\<open>Inl\<close> is the value of \<open>errno\<close> with result -1.\<close>

definition fm_dup :: "int \<Rightarrow> OpenFileMap \<Rightarrow> ((errno + int) \<times> OpenFileMap) option" where
  "fm_dup oldfd m = (case fm_get m oldfd of
       None \<Rightarrow> Some (Inl EBADF, m)
     | Some f \<Rightarrow> map_option (\<lambda>(fd, m'). (Inr fd, m')) (fm_add f m))"

definition fm_dup2 :: "int \<Rightarrow> int \<Rightarrow> OpenFileMap \<Rightarrow> (errno + int) \<times> OpenFileMap" where
  "fm_dup2 oldfd newfd m = (case fm_get m oldfd of
       None \<Rightarrow> (Inl EBADF, m)
     | Some f \<Rightarrow>
         if oldfd = newfd then (Inr newfd, m)
         else (let m1 = (if fm_exist m newfd then snd (fm_remove newfd m) else m);
                   m2 = (if get_fd_idx m1 < newfd \<and> newfd \<noteq> 0 \<and> newfd \<noteq> 1 \<and> newfd \<noteq> 2
                         then m1\<lparr>fd_validation_needed := True\<rparr> else m1)
               in (Inr newfd, m2\<lparr>files := map_insert newfd f (files m2)\<rparr>)))"

section \<open>Fresh descriptors\<close>

text \<open>
  Without validation every descriptor in use is below the next one to be handed out.
\<close>

definition wf_map :: "OpenFileMap \<Rightarrow> bool" where
  "wf_map m \<longleftrightarrow> 10000 \<le> fd_idx m \<and> fd_idx m \<le> INT_MAX \<and>
     (\<not> fd_validation_needed m \<longrightarrow> (\<forall>fd \<in> fst ` set (files m). fd < fd_idx m))"

lemma generate_fd_idx_props:
  assumes "wf_map m" and "generate_fd_idx m = (fd, m')"
  shows "files m' = files m" and "10000 \<le> fd" and "fd < INT_MAX" and "wf_map m'"
    and "\<not> fd_validation_needed m' \<longrightarrow> map_of (files m) fd = None"
  using assms by (force simp: generate_fd_idx_def Let_def wf_map_def INT_MAX_def map_of_eq_None_iff split: if_splits)+

lemma generate_keeps_validation:
  "generate_fd_idx m = (fd, m') \<Longrightarrow> fd_validation_needed m \<Longrightarrow> fd_validation_needed m'"
  by (auto simp: generate_fd_idx_def Let_def split: if_splits)

text \<open>Steps of the index until it reaches a given descriptor, through the wrap-around.\<close>

definition steps_to :: "int \<Rightarrow> int \<Rightarrow> nat" where
  "steps_to f fd = nat (if fd \<le> f then f - fd else INT_MAX - fd + f)"

lemma next_free_ends:
  assumes "wf_map m" and "fd_validation_needed m" and "fd_idx m = fd + 1" and "10000 \<le> fd" and "fd < INT_MAX"
    and f: "100000 \<le> f" "f < INT_MAX" "map_of (files m) f = None"
  shows "\<exists>fd' m'. next_free m fd = Some (fd', m') \<and> files m' = files m \<and> map_of (files m) fd' = None \<and>
    wf_map m' \<and> fd_validation_needed m'"
  using assms
proof (induction "steps_to f fd" arbitrary: m fd rule: less_induct)
  case less
  show ?case
  proof (cases "fm_exist m fd")
    case False
    then show ?thesis using less.prems by (subst next_free.simps) (simp add: fm_exist_def)
  next
    case True
    obtain fd1 m1 where g: "generate_fd_idx m = (fd1, m1)" by fastforce
    have ne: "fd \<noteq> f" using True less.prems(8) by (auto simp: fm_exist_def)
    have fd1: "fd1 = (if fd + 1 = INT_MAX then 100000 else fd + 1)" "fd_idx m1 = fd1 + 1"
      using g less.prems(3) by (auto simp: generate_fd_idx_def Let_def split: if_splits)
    have "steps_to f fd1 < steps_to f fd"
      using ne less.prems(4-7) by (auto simp: fd1(1) steps_to_def INT_MAX_def)
    then obtain fd' m' where "next_free m1 fd1 = Some (fd', m')" "files m' = files m1" "map_of (files m1) fd' = None"
      "wf_map m'" "fd_validation_needed m'"
      using less.hyps [of fd1 m1] generate_fd_idx_props [OF less.prems(1) g]
        generate_keeps_validation [OF g less.prems(2)] fd1(2) f(1,2) less.prems(8) by auto
    then show ?thesis using True g generate_fd_idx_props(1) [OF less.prems(1) g]
      by (subst next_free.simps) simp
  qed
qed

lemma safe_generate_fresh:
  assumes "wf_map m" and "100000 \<le> f" "f < INT_MAX" "map_of (files m) f = None"
  shows "\<exists>fd m'. safe_generate_fd_idx m = Some (fd, m') \<and> files m' = files m \<and> map_of (files m) fd = None \<and>
    wf_map (m'\<lparr>files := (fd, v) # files m\<rparr>)"
proof -
  obtain fd m1 where g: "generate_fd_idx m = (fd, m1)" by fastforce
  note p = generate_fd_idx_props [OF assms(1) g]
  have idx: "fd_idx m1 = fd + 1" using g by (auto simp: generate_fd_idx_def Let_def)
  show ?thesis
  proof (cases "fd_validation_needed m1")
    case False
    then show ?thesis using g p idx by (auto simp: safe_generate_fd_idx_def wf_map_def)
  next
    case True
    from next_free_ends [OF p(4) True idx p(2,3) assms(2,3)] assms(4) p(1) g True
    show ?thesis by (auto simp: safe_generate_fd_idx_def wf_map_def)
  qed
qed

lemma fm_add_fresh:
  assumes "wf_map m" and "100000 \<le> f" "f < INT_MAX" "map_of (files m) f = None"
  shows "\<exists>fd m'. fm_add v m = Some (fd, m') \<and> map_of (files m) fd = None \<and> map_of (files m') = (map_of (files m))(fd \<mapsto> v) \<and> wf_map m'"
  using safe_generate_fresh [OF assms, of v] by (auto simp: fm_add_def map_insert_def)

lemma wf_fm_remove: "wf_map m \<Longrightarrow> wf_map (snd (fm_remove fd m))"
  by (auto simp: fm_remove_def Let_def wf_map_def split: if_splits)

lemma wf_fm_dup2:
  assumes "wf_map m" and "newfd \<noteq> fd_idx m"
  shows "wf_map (snd (fm_dup2 oldfd newfd m))"
proof -
  have "fd_idx (snd (fm_remove newfd m)) = fd_idx m" by (simp add: fm_remove_def Let_def)
  then show ?thesis
    using assms wf_fm_remove [OF assms(1), of newfd]
    by (auto simp: fm_dup2_def Let_def wf_map_def map_insert_def get_fd_idx_def split: option.splits if_splits)
qed

section \<open>Reachable maps\<close>

text \<open>All operations, except a \<open>dup2\<close> onto the next descriptor, which breaks the invariant (see below).\<close>

inductive fm_reach :: "OpenFileMap \<Rightarrow> bool" where
  new: "fm_reach OpenFileMap_new"
| add: "fm_reach m \<Longrightarrow> fm_add f m = Some (fd, m') \<Longrightarrow> fm_reach m'"
| remove: "fm_reach m \<Longrightarrow> fm_remove fd m = (b, m') \<Longrightarrow> fm_reach m'"
| dup: "fm_reach m \<Longrightarrow> fm_dup oldfd m = Some (r, m') \<Longrightarrow> fm_reach m'"
| dup2: "fm_reach m \<Longrightarrow> newfd \<noteq> get_fd_idx m \<Longrightarrow> fm_dup2 oldfd newfd m = (r, m') \<Longrightarrow> fm_reach m'"

text \<open>
  A new descriptor is free, whichever way the loop that looks for it ends: when it does not end, nothing
  is returned.
\<close>

lemma next_free_result:
  assumes "next_free m fd = Some r" and "wf_map m"
  shows "files (snd r) = files m \<and> map_of (files m) (fst r) = None \<and> wf_map (snd r) \<and>
    (fd_validation_needed m \<longrightarrow> fd_validation_needed (snd r))"
proof -
  have "wf_map m \<longrightarrow> files (snd r) = files m \<and> map_of (files m) (fst r) = None \<and> wf_map (snd r) \<and>
      (fd_validation_needed m \<longrightarrow> fd_validation_needed (snd r))"
  proof (rule next_free.raw_induct [OF _ assms(1)])
    fix next_free m fd r
    assume IH: "\<And>m fd r. next_free m fd = Some r \<Longrightarrow> wf_map m \<longrightarrow> files (snd r) = files m \<and>
        map_of (files m) (fst r) = None \<and> wf_map (snd r) \<and> (fd_validation_needed m \<longrightarrow> fd_validation_needed (snd r))"
      and run: "(if fm_exist m fd then case generate_fd_idx m of (fd', m') \<Rightarrow> next_free m' fd' else Some (fd, m)) = Some r"
    obtain fd1 m1 where g: "generate_fd_idx m = (fd1, m1)" by fastforce
    show "wf_map m \<longrightarrow> files (snd r) = files m \<and> map_of (files m) (fst r) = None \<and> wf_map (snd r) \<and>
        (fd_validation_needed m \<longrightarrow> fd_validation_needed (snd r))"
    proof (cases "fm_exist m fd")
      case False
      then show ?thesis using run by (auto simp: fm_exist_def)
    next
      case True
      then have "next_free m1 fd1 = Some r" using run g by simp
      from IH [OF this] show ?thesis
        using generate_fd_idx_props(1,4) [OF _ g] generate_keeps_validation [OF g] by auto
    qed
  qed
  then show ?thesis using assms(2) by blast
qed

lemma wf_fm_add:
  assumes "wf_map m" and "fm_add v m = Some (fd, m')"
  shows "wf_map m'" and "map_of (files m) fd = None" and "map_of (files m') = (map_of (files m))(fd \<mapsto> v)"
proof -
  obtain fd1 m1 where g: "generate_fd_idx m = (fd1, m1)" by fastforce
  note p = generate_fd_idx_props [OF assms(1) g]
  have idx: "fd_idx m1 = fd1 + 1" using g by (auto simp: generate_fd_idx_def Let_def)
  obtain m2 where s: "safe_generate_fd_idx m = Some (fd, m2)" and m': "m' = m2\<lparr>files := map_insert fd v (files m2)\<rparr>"
    using assms(2) by (auto simp: fm_add_def split: option.splits)
  have "wf_map m' \<and> map_of (files m) fd = None \<and> map_of (files m') = (map_of (files m))(fd \<mapsto> v)"
  proof (cases "fd_validation_needed m1")
    case False
    then show ?thesis using s m' g p idx by (auto simp: safe_generate_fd_idx_def wf_map_def map_insert_def)
  next
    case True
    then have "next_free m1 fd1 = Some (fd, m2)" using s g by (simp add: safe_generate_fd_idx_def)
    from next_free_result [OF this p(4)] show ?thesis using True m' p(1) by (auto simp: wf_map_def map_insert_def)
  qed
  then show "wf_map m'" "map_of (files m) fd = None" "map_of (files m') = (map_of (files m))(fd \<mapsto> v)" by blast+
qed

lemma fm_reach_wf: "fm_reach m \<Longrightarrow> wf_map m"
proof (induction rule: fm_reach.induct)
  case new
  show ?case by (simp add: wf_map_def OpenFileMap_new_def INT_MAX_def)
next
  case (add m f fd m')
  then show ?case using wf_fm_add(1) by blast
next
  case (remove m fd b m')
  then show ?case using wf_fm_remove [of m fd] by simp
next
  case (dup m oldfd r m')
  then show ?case using wf_fm_add(1) by (auto simp: fm_dup_def split: option.splits)
next
  case (dup2 m newfd oldfd r m')
  then show ?case using wf_fm_dup2 [of m newfd oldfd] by (simp add: get_fd_idx_def)
qed

section \<open>Properties\<close>

text \<open>
  C34. Opening a file never hands out a descriptor that is in use: the new descriptor refers to the new
  file and all others stay as they are, after any sequence of opens, closes, \<open>dup\<close>s and \<open>dup2\<close>s except a
  \<open>dup2\<close> onto exactly the descriptor that would be handed out next, also when the 31-bit descriptor index has wrapped around. The search for a descriptor ends as long as one
  is free.
\<close>

theorem open_gives_fresh_descriptor:
  assumes "fm_reach m" and "100000 \<le> free" and "free < INT_MAX" and "fm_get m free = None"
  shows "\<exists>fd m'. fm_add f m = Some (fd, m') \<and> fm_get m fd = None \<and> fm_get m' fd = Some f \<and>
    (\<forall>fd'. fd' \<noteq> fd \<longrightarrow> fm_get m' fd' = fm_get m fd') \<and> fm_reach m'"
proof -
  obtain fd m' where a: "fm_add f m = Some (fd, m')"
    using fm_add_fresh [OF fm_reach_wf [OF assms(1)] assms(2,3), of f] assms(4) by (auto simp: fm_get_def)
  then show ?thesis
    using wf_fm_add(2,3) [OF fm_reach_wf [OF assms(1)] a] fm_reach.add [OF assms(1) a] by (auto simp: fm_get_def)
qed

theorem open_gives_fresh_descriptor_witness:
  "\<exists>fd m'. fm_add 7 OpenFileMap_new = Some (fd, m') \<and> fm_get m' fd = Some 7"
  using open_gives_fresh_descriptor [OF fm_reach.new, of 100000 7]
  by (auto simp: OpenFileMap_new_def fm_get_def INT_MAX_def)

text \<open>
  C40. \<open>dup2\<close> onto the descriptor that would be handed out next does not request validation: the next
  open returns that same descriptor although it is in use, and the opened file is not registered. The code
  means to prevent duplicate descriptors here, but compares the next index to the new descriptor with \<open><\<close>.
\<close>

theorem dup2_onto_next_descriptor:
  assumes "fm_get m oldfd = Some f" and "oldfd \<noteq> fd_idx m" and "fm_get m (fd_idx m) = None"
    and "\<not> fd_validation_needed m" and "fd_idx m < INT_MAX"
  shows "\<exists>m1 m2. fm_dup2 oldfd (fd_idx m) m = (Inr (fd_idx m), m1) \<and>
    fm_add g m1 = Some (fd_idx m, m2) \<and> fm_get m2 (fd_idx m) = Some f"
  using assms
  by (simp add: fm_dup2_def fm_add_def safe_generate_fd_idx_def generate_fd_idx_def fm_exist_def fm_get_def
      get_fd_idx_def map_insert_def Let_def)

theorem dup2_onto_next_descriptor_witness:
  "\<exists>m1 m2. fm_dup2 10000 10001 \<lparr>files = [(10000, 3)], fd_idx = 10001, fd_validation_needed = False\<rparr> = (Inr 10001, m1) \<and>
     fm_add 4 m1 = Some (10001, m2) \<and> fm_get m2 10001 = Some 3"
  using dup2_onto_next_descriptor [of "\<lparr>files = [(10000, 3)], fd_idx = 10001, fd_validation_needed = False\<rparr>" 10000 3 4]
  by (simp add: fm_get_def INT_MAX_def)

text \<open>Opening read-only never sets the read-only flag, whose bit pattern is zero.\<close>

lemma rdonly_never_set: "\<not> get_flag (OpenFile_new path flags type) Rdonly"
  by (simp add: get_flag_def OpenFile_new_def O_RDONLY_def)

end
