(* ===== verification/Forward_Metadata.thy ===== *)
theory Forward_Metadata
  imports Forward_Data Srv_Metadata Open_File_Map
begin

text \<open>
  The client's metadata requests (\<open>src/client/rpc/forward_metadata.cpp\<close>). The state of the system is what
  the daemons hold: the chunk files and the metadata stores of the hosts. A request is served where
  the distributor places the path; the network of \<open>rpc_env\<close> decides whether it is posted, executed and
  answered, and stays the same during one operation. The distributor names hosts the client knows.
\<close>

record 's gekko =
  g_data :: cluster
  g_meta :: "u64 \<Rightarrow> 's mdb"

text \<open>The client's side: the network, what each daemon runs with, and the distributor.\<close>

record 's md_net =
  mn_rpc :: rpc_env
  mn_srv :: "u64 \<Rightarrow> 's md_srv"
  mn_dirents :: "u64 \<Rightarrow> dirents_env"
  mn_locate_md :: "string \<Rightarrow> int \<Rightarrow> host_t"
  mn_locate_data :: locator
  mn_dir_targets :: "host_t list"
  mn_hosts_size :: u64

text \<open>\<open>CTX->hosts().at(distributor->locate_file_metadata(path, copy))\<close>\<close>

definition md_host :: "'s md_net \<Rightarrow> string \<Rightarrow> int \<Rightarrow> u64" where
  "md_host net path copy = ucast (mn_locate_md net path copy)"

text \<open>A handler applied to the metadata store, the chunk files, or both, of one host.\<close>

definition on_meta :: "u64 \<Rightarrow> ('s mdb \<Rightarrow> 'o \<times> 's mdb) \<Rightarrow> 's gekko \<Rightarrow> 'o \<times> 's gekko" where
  "on_meta h f g = (let (out, m') = f (g_meta g h) in (out, g\<lparr>g_meta := (g_meta g)(h := m')\<rparr>))"

definition on_data :: "u64 \<Rightarrow> (local_fs \<Rightarrow> 'o \<times> local_fs) \<Rightarrow> 's gekko \<Rightarrow> 'o \<times> 's gekko" where
  "on_data h f g = (let (out, fs') = f (g_data g h) in (out, g\<lparr>g_data := (g_data g)(h := fs')\<rparr>))"

definition on_both :: "u64 \<Rightarrow> ('s mdb \<Rightarrow> local_fs \<Rightarrow> 'o \<times> 's mdb \<times> local_fs) \<Rightarrow> 's gekko \<Rightarrow> 'o \<times> 's gekko" where
  "on_both h f g = (let (out, m', fs') = f (g_meta g h) (g_data g h)
     in (out, \<lparr>g_data = (g_data g)(h := fs'), g_meta = (g_meta g)(h := m')\<rparr>))"

text \<open>\<open>post<...>(endp, ...).get().at(0)\<close>; None when Hermes throws.\<close>

definition call :: "rpc_env \<Rightarrow> u64 \<Rightarrow> ('s gekko \<Rightarrow> 'o \<times> 's gekko) \<Rightarrow> 's gekko \<Rightarrow> 'o option \<times> 's gekko" where
  "call env h f g =
     (if \<not> post_ok env h then (None, g)
      else (let (out, g') = f g
            in (if reply_ok env h then Some out else None,
                if reply_ok env h \<or> executed env h then g' else g)))"

section \<open>Single requests\<close>

definition forward_create :: "'s md_net \<Rightarrow> 's gekko \<Rightarrow> string \<Rightarrow> u32 \<Rightarrow> int \<Rightarrow> errno \<times> 's gekko" where
  "forward_create net g path mode copy =
     (let h = md_host net path copy
      in case call (mn_rpc net) h (on_meta h (\<lambda>m. rpc_srv_create (mn_srv net h) m path mode)) g of
           (None, g') \<Rightarrow> (EBUSY, g')
         | (Some err, g') \<Rightarrow> (err, g'))"

definition forward_stat :: "'s md_net \<Rightarrow> 's gekko \<Rightarrow> string \<Rightarrow> int \<Rightarrow> (errno + string) \<times> 's gekko" where
  "forward_stat net g path copy =
     (let h = md_host net path copy
      in case call (mn_rpc net) h (on_meta h (\<lambda>m. rpc_srv_stat (mn_srv net h) m path)) g of
           (None, g') \<Rightarrow> (Inl EBUSY, g')
         | (Some (err, db_val), g') \<Rightarrow> (if err \<noteq> 0 then Inl err else Inr db_val, g'))"

definition forward_decr_size :: "'s md_net \<Rightarrow> 's gekko \<Rightarrow> string \<Rightarrow> u64 \<Rightarrow> int \<Rightarrow> errno \<times> 's gekko" where
  "forward_decr_size net g path len copy =
     (let h = md_host net path copy
      in case call (mn_rpc net) h (on_meta h (\<lambda>m. rpc_srv_decr_size (mn_srv net h) m path len)) g of
           (None, g') \<Rightarrow> (EBUSY, g')
         | (Some err, g') \<Rightarrow> (err, g'))"

definition forward_get_metadentry_size :: "'s md_net \<Rightarrow> 's gekko \<Rightarrow> string \<Rightarrow> int \<Rightarrow> (errno \<times> u64) \<times> 's gekko" where
  "forward_get_metadentry_size net g path copy =
     (let h = md_host net path copy
      in case call (mn_rpc net) h (on_meta h (\<lambda>m. rpc_srv_get_metadentry_size (mn_srv net h) m path)) g of
           (None, g') \<Rightarrow> ((EBUSY, 0), g')
         | (Some (err, ret_size), g') \<Rightarrow> (if err \<noteq> 0 then (err, 0) else (0, ret_size), g'))"

definition forward_mk_symlink :: "'s md_net \<Rightarrow> 's gekko \<Rightarrow> string \<Rightarrow> string \<Rightarrow> errno \<times> 's gekko" where
  "forward_mk_symlink net g path target_path =
     (let h = md_host net path 0
      in case call (mn_rpc net) h (on_meta h (\<lambda>m. rpc_srv_mk_symlink (mn_srv net h) m path target_path)) g of
           (None, g') \<Rightarrow> (EBUSY, g')
         | (Some err, g') \<Rightarrow> (err, g'))"

record MetadentryUpdateFlags =
  f_atime :: bool
  f_mtime :: bool
  f_ctime :: bool
  f_link_count :: bool
  f_size :: bool
  f_blocks :: bool

definition update_request :: "Metadata \<Rightarrow> MetadentryUpdateFlags \<Rightarrow> update_metadentry_in" where
  "update_request md fl =
     \<lparr>um_nlink = (if f_link_count fl then md_link_count md else 0),
      um_size = (if f_size fl then md_size md else 0),
      um_blocks = (if f_blocks fl then md_blocks md else 0),
      um_atime = (if f_atime fl then md_atime md else 0),
      um_mtime = (if f_mtime fl then md_mtime md else 0),
      um_ctime = (if f_ctime fl then md_ctime md else 0),
      um_nlink_flag = f_link_count fl, um_size_flag = f_size fl, um_block_flag = f_blocks fl,
      um_atime_flag = f_atime fl, um_mtime_flag = f_mtime fl, um_ctime_flag = f_ctime fl\<rparr>"

definition forward_update_metadentry ::
    "'s md_net \<Rightarrow> 's gekko \<Rightarrow> string \<Rightarrow> Metadata \<Rightarrow> MetadentryUpdateFlags \<Rightarrow> int \<Rightarrow> errno \<times> 's gekko" where
  "forward_update_metadentry net g path md md_flags copy =
     (let h = md_host net path copy
      in case call (mn_rpc net) h
               (on_meta h (\<lambda>m. rpc_srv_update_metadentry (mn_srv net h) m path (update_request md md_flags))) g of
           (None, g') \<Rightarrow> (EBUSY, g')
         | (Some err, g') \<Rightarrow> (err, g'))"

section \<open>Remove\<close>

text \<open>\<open>for(copy = 0; copy < num_copies + 1; copy++)\<close>: the result is an error or the last size and mode.\<close>

primrec remove_metadata_loop ::
    "'s md_net \<Rightarrow> string \<Rightarrow> bool \<Rightarrow> int list \<Rightarrow> u64 \<times> u32 \<Rightarrow> 's gekko \<Rightarrow> (errno + u64 \<times> u32) \<times> 's gekko" where
  "remove_metadata_loop net path rm_dir [] sm g = (Inr sm, g)"
| "remove_metadata_loop net path rm_dir (copy # cs) sm g =
     (let h = md_host net path copy
      in case call (mn_rpc net) h
               (on_both h (\<lambda>m fs. rpc_srv_remove_metadata (mn_srv net h) m fs path rm_dir)) g of
           (None, g') \<Rightarrow> (Inl EBUSY, g')
         | (Some out, g') \<Rightarrow>
             if rm_err out \<noteq> 0 then (Inl (rm_err out), g')
             else remove_metadata_loop net path rm_dir cs (rm_size out, rm_mode out) g')"

text \<open>\<open>size / gkfs::config::rpc::chunksize\<close> on \<open>int64_t\<close>: C++ rounds towards zero.\<close>

definition signed_quotient :: "u64 \<Rightarrow> u64 \<Rightarrow> u64" where
  "signed_quotient sz csz = (if sint sz < 0 then - ((- sz) div csz) else sz div csz)"

definition copy_range :: "nat \<Rightarrow> int list" where
  "copy_range num_copies = map int [0..<num_copies + 1]"

text \<open>The hosts \<open>remove_data\<close> is posted to, in the order of the loops.\<close>

definition small_remove_hosts :: "'s md_net \<Rightarrow> string \<Rightarrow> u64 \<Rightarrow> nat \<Rightarrow> u64 list" where
  "small_remove_hosts net path chnk_end num_copies =
     concat (map (\<lambda>copymd.
       md_host net path copymd #
       filter (\<lambda>h. h \<noteq> md_host net path copymd)
         (concat (map (\<lambda>chnk_id. map (\<lambda>copy. ucast (mn_locate_data net path (ucast chnk_id) copy)) (copy_range num_copies))
           (chunk_range 0 chnk_end))))
       (copy_range num_copies))"

definition remove_hosts :: "u64 \<Rightarrow> 's md_net \<Rightarrow> string \<Rightarrow> u64 \<Rightarrow> nat \<Rightarrow> u64 list" where
  "remove_hosts csz net path sz num_copies =
     (if signed_quotient sz csz < mn_hosts_size net
      then small_remove_hosts net path (signed_quotient sz csz) num_copies
      else map of_nat [0..<unat (mn_hosts_size net)])"

text \<open>Posting stops at the first failure; the last error among the replies is the result.\<close>

primrec remove_data_loop ::
    "'s md_net \<Rightarrow> string \<Rightarrow> u64 list \<Rightarrow> errno \<Rightarrow> 's gekko \<Rightarrow> errno \<times> 's gekko" where
  "remove_data_loop net path [] err g = (err, g)"
| "remove_data_loop net path (h # hs) err g =
     (if \<not> post_ok (mn_rpc net) h then (EBUSY, g)
      else case call (mn_rpc net) h (on_data h (\<lambda>fs. rpc_srv_remove_data (mn_srv net h) fs path)) g of
             (None, g') \<Rightarrow> remove_data_loop net path hs EBUSY g'
           | (Some e, g') \<Rightarrow> remove_data_loop net path hs (if e \<noteq> 0 then e else err) g')"

definition forward_remove ::
    "u64 \<Rightarrow> 's md_net \<Rightarrow> 's gekko \<Rightarrow> string \<Rightarrow> bool \<Rightarrow> nat \<Rightarrow> errno \<times> 's gekko" where
  "forward_remove csz net g path rm_dir num_copies =
     (case remove_metadata_loop net path rm_dir (copy_range num_copies) (0, 0) g of
        (Inl err, g') \<Rightarrow> (err, g')
      | (Inr (sz, mode), g') \<Rightarrow>
          if \<not> S_ISREG mode \<or> sz = 0 then (0, g')
          else remove_data_loop net path (remove_hosts csz net path sz num_copies) 0 g')"

section \<open>Rename\<close>

text \<open>The error codes in the four replies are not looked at.\<close>

definition rename_request :: "Metadata \<Rightarrow> update_metadentry_in" where
  "rename_request md =
     \<lparr>um_nlink = md_link_count md, um_size = md_size md, um_blocks = - 1,
      um_atime = md_atime md, um_mtime = md_mtime md, um_ctime = md_ctime md,
      um_nlink_flag = (md_link_count md \<noteq> 0), um_size_flag = (md_size md \<noteq> 0), um_block_flag = True,
      um_atime_flag = (md_atime md \<noteq> 0), um_mtime_flag = (md_mtime md \<noteq> 0), um_ctime_flag = (md_ctime md \<noteq> 0)\<rparr>"

definition forward_rename :: "'s md_net \<Rightarrow> 's gekko \<Rightarrow> string \<Rightarrow> string \<Rightarrow> Metadata \<Rightarrow> errno \<times> 's gekko" where
  "forward_rename net g oldpath newpath md =
     (let h = md_host net oldpath 0; h2 = md_host net newpath 0
      in case call (mn_rpc net) h
               (on_meta h (\<lambda>m. rpc_srv_update_metadentry (mn_srv net h) m oldpath (rename_request md))) g of
           (None, g1) \<Rightarrow> (EBUSY, g1)
         | (Some _, g1) \<Rightarrow>
     (case call (mn_rpc net) h2 (on_meta h2 (\<lambda>m. rpc_srv_create (mn_srv net h2) m newpath (md_mode md))) g1 of
           (None, g2) \<Rightarrow> (EBUSY, g2)
         | (Some _, g2) \<Rightarrow>
     (case call (mn_rpc net) h2 (on_meta h2 (\<lambda>m. rpc_srv_mk_symlink (mn_srv net h2) m newpath oldpath)) g2 of
           (None, g3) \<Rightarrow> (EBUSY, g3)
         | (Some _, g3) \<Rightarrow>
     (case call (mn_rpc net) h (on_meta h (\<lambda>m. rpc_srv_mk_symlink (mn_srv net h) m oldpath newpath)) g3 of
           (None, g4) \<Rightarrow> (EBUSY, g4)
         | (Some _, g4) \<Rightarrow> (0, g4)))))"

section \<open>Updating the size on all copies\<close>

text \<open>None: a request cannot be posted. A handle holds None when its reply does not arrive.\<close>

primrec post_size_updates ::
    "'s md_net \<Rightarrow> string \<Rightarrow> u64 \<Rightarrow> u64 \<Rightarrow> bool \<Rightarrow> int list \<Rightarrow> 's gekko
       \<Rightarrow> (errno \<times> u64) option list option \<times> 's gekko" where
  "post_size_updates net path sz offset append_flag [] g = (Some [], g)"
| "post_size_updates net path sz offset append_flag (copy # cs) g =
     (let h = md_host net path copy
      in if \<not> post_ok (mn_rpc net) h then (None, g)
         else
           (let (out, g1) = call (mn_rpc net) h (on_meta h (\<lambda>m.
                  rpc_srv_update_metadentry_size (mn_srv net h) m path sz offset append_flag)) g;
                (handles, g2) = post_size_updates net path sz offset append_flag cs g1
            in (map_option (Cons out) handles, g2)))"

primrec gather_size_updates ::
    "(errno \<times> u64) option list \<Rightarrow> errno \<Rightarrow> bool \<Rightarrow> u64 \<Rightarrow> errno \<times> u64" where
  "gather_size_updates [] err valid out_size = (if valid then (0, out_size) else (err, 0))"
| "gather_size_updates (h # hs) err valid out_size =
     (case h of
        None \<Rightarrow> gather_size_updates hs (if \<not> valid then EIO else err) valid out_size
      | Some (e, ret_size) \<Rightarrow>
          if e \<noteq> 0 then gather_size_updates hs err valid out_size
          else gather_size_updates hs err True ret_size)"

definition forward_update_metadentry_size ::
    "'s md_net \<Rightarrow> 's gekko \<Rightarrow> string \<Rightarrow> u64 \<Rightarrow> u64 \<Rightarrow> bool \<Rightarrow> nat \<Rightarrow> (errno \<times> u64) \<times> 's gekko" where
  "forward_update_metadentry_size net g path sz offset append_flag num_copies =
     (case post_size_updates net path sz offset append_flag (copy_range num_copies) g of
        (None, g') \<Rightarrow> ((EBUSY, 0), g')
      | (Some handles, g') \<Rightarrow> (gather_size_updates handles 0 False 0, g'))"

section \<open>Directory entries\<close>

definition dirents_buff_size :: nat where
  "dirents_buff_size = 8 * 1024 * 1024"

text \<open>
  Reading a region of the receive buffer. \<open>std::string(names_ptr)\<close> ends at a NUL; a name that does not
  end in the region, which the code asserts away, ends with the region here.
\<close>

primrec read_names :: "nat \<Rightarrow> string \<Rightarrow> string list" where
  "read_names 0 s = []"
| "read_names (Suc n) s = c_str s # read_names n (drop (Suc (length (c_str s))) s)"

definition read_dirents :: "nat \<Rightarrow> string \<Rightarrow> (string \<times> FileType) list" where
  "read_dirents n region =
     zip (read_names n (drop n region)) (map (\<lambda>b. if b \<noteq> NUL then Directory else Regular) (take n region))"

primrec le_value :: "nat \<Rightarrow> string \<Rightarrow> nat" where
  "le_value 0 s = 0"
| "le_value (Suc k) s = of_char (hd s) + 256 * le_value k (tl s)"

definition read_u64s :: "nat \<Rightarrow> string \<Rightarrow> u64 list" where
  "read_u64s n s = map (\<lambda>i. of_nat (le_value 8 (drop (8 * i) s))) [0..<n]"

definition read_dirents_extended :: "nat \<Rightarrow> string \<Rightarrow> (string \<times> bool \<times> u64 \<times> u64) list" where
  "read_dirents_extended n region =
     zip (read_names n (drop (n * 17) region))
       (zip (map (\<lambda>b. b \<noteq> NUL) (take n region))
         (zip (read_u64s n (drop n region)) (read_u64s n (drop (n * 9) region))))"

text \<open>The replies with what the daemons pushed; a region keeps its old contents behind that.\<close>

definition serve_dirents ::
    "'s md_net \<Rightarrow> 's gekko \<Rightarrow> string \<Rightarrow> nat \<Rightarrow> u64 \<Rightarrow> string \<Rightarrow> (errno \<times> nat) option \<times> string" where
  "serve_dirents net g path bulk_size h region =
     (let out = rpc_srv_get_dirents (mn_srv net h) (mn_dirents net h) (g_meta g h) path bulk_size
      in (if reply_ok (mn_rpc net) h then Some (do_err out, do_size out) else None,
          if reply_ok (mn_rpc net) h \<or> executed (mn_rpc net) h
          then do_pushed out @ drop (length (do_pushed out)) region else region))"

primrec gather_dirents ::
    "bool \<Rightarrow> ((errno \<times> nat) option \<times> string) list \<Rightarrow> errno \<Rightarrow> OpenFile \<Rightarrow> errno \<times> OpenFile" where
  "gather_dirents send_error [] err open_dir = (err, open_dir)"
| "gather_dirents send_error (r # rs) err open_dir =
     (case fst r of
        None \<Rightarrow> gather_dirents send_error rs EBUSY open_dir
      | Some (e, n) \<Rightarrow>
          if send_error then gather_dirents send_error rs err open_dir
          else if e \<noteq> 0 then gather_dirents send_error rs e open_dir
          else gather_dirents send_error rs err
                 (fold (\<lambda>(name, ftype). OpenDir_add name ftype) (read_dirents n (snd r)) open_dir))"

text \<open>
  \<open>large_buffer i\<close> is what the region of the \<open>i\<close>-th target holds before; it is not initialised.
  The directory is None when a buffer cannot be exposed.
\<close>

definition forward_get_dirents ::
    "'s md_net \<Rightarrow> 's gekko \<Rightarrow> (nat \<Rightarrow> string) \<Rightarrow> string \<Rightarrow> errno \<times> OpenFile option" where
  "forward_get_dirents net g large_buffer path =
     (let tgts = map ucast (mn_dir_targets net) :: u64 list;
          per_host_buff_size = dirents_buff_size div length tgts
      in if \<not> expose_ok (mn_rpc net) then (EBUSY, None)
         else
           (let posted = takeWhile (post_ok (mn_rpc net)) tgts;
                err = (if posted = tgts then 0 else EBUSY);
                rs = map (\<lambda>(i, h). serve_dirents net g path per_host_buff_size h
                       (take per_host_buff_size (large_buffer i))) (enumerate 0 posted);
                (err', open_dir) = gather_dirents (err \<noteq> 0) rs err (OpenDir_new path)
            in (err', Some open_dir)))"

text \<open>None: the server number is out of range, or no request was posted and \<open>handles[0]\<close> does not exist.\<close>

definition forward_get_dirents_single ::
    "'s md_net \<Rightarrow> 's gekko \<Rightarrow> string \<Rightarrow> string \<Rightarrow> nat \<Rightarrow> (errno \<times> (string \<times> bool \<times> u64 \<times> u64) list) option" where
  "forward_get_dirents_single net g large_buffer path server =
     (if \<not> expose_ok (mn_rpc net) then Some (EBUSY, [])
      else if length (mn_dir_targets net) \<le> server then None
      else
        (let h = ucast (mn_dir_targets net ! server) :: u64
         in if \<not> post_ok (mn_rpc net) h then None
            else
              (let out = rpc_srv_get_dirents_extended (mn_srv net h) (mn_dirents net h) (g_meta g h) path dirents_buff_size;
                   region = do_pushed out @ drop (length (do_pushed out)) large_buffer
               in if \<not> reply_ok (mn_rpc net) h then Some (EBUSY, [])
                  else Some (do_err out, read_dirents_extended (do_size out) region))))"

end
