(* ===== verification/Client_Cache.thy ===== *)
theory Client_Cache
  imports Open_File_Map
begin

text \<open>
  Caches of the client (\<open>src/client/cache.cpp\<close>): directory entries by directory identifier, and the
  sizes of files that were written but not reported to the daemons yet. \<open>std::hash\<close> is a parameter; its
  value is narrowed to 32 bits. Sending a size to the daemons, \<open>update_file_size\<close>, is a parameter of
  \<open>flush\<close>.
\<close>

section \<open>Directory entries\<close>

record cache_entry =
  ce_file_type :: FileType
  ce_size :: u64
  ce_ctime :: u64

record DentryCache =
  dc_entries :: "(u32 \<times> (string \<times> cache_entry) list) list"
  dc_entry_dir_id :: "(string \<times> u32) list"

definition DentryCache_new :: DentryCache where
  "DentryCache_new = \<lparr>dc_entries = [], dc_entry_dir_id = []\<rparr>"

definition gen_dir_id :: "(string \<Rightarrow> u64) \<Rightarrow> string \<Rightarrow> u32" where
  "gen_dir_id str_hash dir_path = ucast (str_hash dir_path)"

definition get_dir_id :: "(string \<Rightarrow> u64) \<Rightarrow> string \<Rightarrow> DentryCache \<Rightarrow> u32 \<times> DentryCache" where
  "get_dir_id str_hash dir_path c = (case map_of (dc_entry_dir_id c) dir_path of
       Some dir_id \<Rightarrow> (dir_id, c)
     | None \<Rightarrow> (let dir_id = gen_dir_id str_hash dir_path
               in (dir_id, c\<lparr>dc_entry_dir_id := (dir_path, dir_id) # dc_entry_dir_id c\<rparr>)))"

text \<open>\<open>entries_[dir_id]\<close> creates an empty directory; \<open>emplace\<close> keeps an entry that exists.\<close>

definition dir_at :: "u32 \<Rightarrow> DentryCache \<Rightarrow> (string \<times> cache_entry) list" where
  "dir_at dir_id c = (case map_of (dc_entries c) dir_id of None \<Rightarrow> [] | Some es \<Rightarrow> es)"

definition touch_dir :: "u32 \<Rightarrow> DentryCache \<Rightarrow> DentryCache" where
  "touch_dir dir_id c =
     (if map_of (dc_entries c) dir_id = None then c\<lparr>dc_entries := (dir_id, []) # dc_entries c\<rparr> else c)"

definition dc_insert :: "(string \<Rightarrow> u64) \<Rightarrow> string \<Rightarrow> string \<Rightarrow> cache_entry \<Rightarrow> DentryCache \<Rightarrow> DentryCache" where
  "dc_insert str_hash parent_dir name val c = (case get_dir_id str_hash parent_dir c of (dir_id, c1) \<Rightarrow>
     (let es = dir_at dir_id c1
      in if map_of es name = None
         then c1\<lparr>dc_entries := AList.update dir_id ((name, val) # es) (dc_entries c1)\<rparr>
         else touch_dir dir_id c1))"

definition dc_get :: "(string \<Rightarrow> u64) \<Rightarrow> string \<Rightarrow> string \<Rightarrow> DentryCache \<Rightarrow> cache_entry option \<times> DentryCache" where
  "dc_get str_hash parent_dir name c = (case get_dir_id str_hash parent_dir c of (dir_id, c1) \<Rightarrow>
     (map_of (dir_at dir_id c1) name, touch_dir dir_id c1))"

definition dc_clear_dir :: "string \<Rightarrow> DentryCache \<Rightarrow> DentryCache" where
  "dc_clear_dir dir_path c = (case map_of (dc_entry_dir_id c) dir_path of
       None \<Rightarrow> c
     | Some dir_id \<Rightarrow> c\<lparr>dc_entries := AList.delete dir_id (dc_entries c),
                       dc_entry_dir_id := AList.delete dir_path (dc_entry_dir_id c)\<rparr>)"

definition dc_clear :: "DentryCache \<Rightarrow> DentryCache" where
  "dc_clear c = \<lparr>dc_entries = [], dc_entry_dir_id = []\<rparr>"

section \<open>Written sizes\<close>

record WriteSizeCache =
  size_cache :: "(string \<times> (u64 \<times> u64)) list"
  flush_threshold :: u64

definition ws_record :: "string \<Rightarrow> u64 \<Rightarrow> WriteSizeCache \<Rightarrow> (u64 \<times> u64) \<times> WriteSizeCache" where
  "ws_record path sz c =
     (let (cnt, old) = (case map_of (size_cache c) path of None \<Rightarrow> (0, 0) | Some e \<Rightarrow> e);
          e = (cnt + 1, if old < sz then sz else old)
      in (e, c\<lparr>size_cache := AList.update path e (size_cache c)\<rparr>))"

definition ws_reset :: "string \<Rightarrow> bool \<Rightarrow> WriteSizeCache \<Rightarrow> (u64 \<times> u64) \<times> WriteSizeCache" where
  "ws_reset path evict c = (case map_of (size_cache c) path of
       None \<Rightarrow> ((0, 0), c)
     | Some (cnt, sz) \<Rightarrow>
         ((cnt, sz), c\<lparr>size_cache :=
            (if evict then AList.delete path (size_cache c) else AList.update path (0, sz) (size_cache c))\<rparr>))"

text \<open>
  \<open>update_file_size path count offset append st\<close> is the call to the daemons, on their state. The flag
  \<open>evict\<close> of \<open>flush\<close> is not passed on.
\<close>

definition ws_flush ::
    "(string \<Rightarrow> u64 \<Rightarrow> u64 \<Rightarrow> bool \<Rightarrow> 'st \<Rightarrow> (errno \<times> u64) \<times> 'st) \<Rightarrow> string \<Rightarrow> bool \<Rightarrow> WriteSizeCache \<Rightarrow> 'st
       \<Rightarrow> (errno \<times> u64) \<times> WriteSizeCache \<times> 'st" where
  "ws_flush update_file_size path evict c st = (case ws_reset path False c of ((cnt, sz), c1) \<Rightarrow>
     if cnt = 0 then ((0, 0), c1, st)
     else (case update_file_size path sz 0 False st of (r, st') \<Rightarrow> (r, c1, st')))"

section \<open>Directory cache: lemmas\<close>

text \<open>The identifiers a cache has handed out are those of the hash.\<close>

definition wf_dentry :: "(string \<Rightarrow> u64) \<Rightarrow> DentryCache \<Rightarrow> bool" where
  "wf_dentry str_hash c \<longleftrightarrow>
     (\<forall>dir did. map_of (dc_entry_dir_id c) dir = Some did \<longrightarrow> did = gen_dir_id str_hash dir)"

definition cached :: "(string \<Rightarrow> u64) \<Rightarrow> DentryCache \<Rightarrow> string \<Rightarrow> string \<rightharpoonup> cache_entry" where
  "cached str_hash c dir = map_of (dir_at (gen_dir_id str_hash dir) c)"

lemma get_dir_id_props:
  assumes "wf_dentry str_hash c" and "get_dir_id str_hash dir c = (did, c')"
  shows "did = gen_dir_id str_hash dir" and "wf_dentry str_hash c'" and "dc_entries c' = dc_entries c"
  using assms by (auto simp: get_dir_id_def wf_dentry_def Let_def split: option.splits if_splits)

lemma dir_at_touch [simp]: "dir_at i (touch_dir d c) = dir_at i c"
  by (auto simp: dir_at_def touch_dir_def)

lemma dir_at_update:
  "dir_at i (c\<lparr>dc_entries := AList.update d es (dc_entries c)\<rparr>) = (if i = d then es else dir_at i c)"
  by (simp add: dir_at_def update_conv')

lemma wf_touch [simp]: "wf_dentry str_hash (touch_dir d c) = wf_dentry str_hash c"
  by (simp add: wf_dentry_def touch_dir_def)

lemma dc_get_cached:
  assumes "wf_dentry str_hash c"
  shows "fst (dc_get str_hash dir name c) = cached str_hash c dir name"
    and "wf_dentry str_hash (snd (dc_get str_hash dir name c))"
    and "cached str_hash (snd (dc_get str_hash dir name c)) = cached str_hash c"
proof -
  obtain did c1 where g: "get_dir_id str_hash dir c = (did, c1)" by fastforce
  note p = get_dir_id_props [OF assms g]
  show "fst (dc_get str_hash dir name c) = cached str_hash c dir name"
    "wf_dentry str_hash (snd (dc_get str_hash dir name c))"
    "cached str_hash (snd (dc_get str_hash dir name c)) = cached str_hash c"
    using p by (simp_all add: dc_get_def g cached_def dir_at_def [of _ c] dir_at_def [of _ c1] fun_eq_iff)
qed

lemma dc_insert_cached:
  assumes "wf_dentry str_hash c"
  shows "wf_dentry str_hash (dc_insert str_hash dir name val c)"
    and "cached str_hash (dc_insert str_hash dir name val c) dir' n =
      (if gen_dir_id str_hash dir' = gen_dir_id str_hash dir \<and> n = name \<and> cached str_hash c dir name = None
       then Some val else cached str_hash c dir' n)"
proof -
  obtain did c1 where g: "get_dir_id str_hash dir c = (did, c1)" by fastforce
  note p = get_dir_id_props [OF assms g]
  show "wf_dentry str_hash (dc_insert str_hash dir name val c)"
    using p(2) by (simp add: dc_insert_def g Let_def) (simp add: wf_dentry_def)
  have d: "dir_at i c1 = dir_at i c" for i by (simp add: dir_at_def p(3))
  show "cached str_hash (dc_insert str_hash dir name val c) dir' n =
      (if gen_dir_id str_hash dir' = gen_dir_id str_hash dir \<and> n = name \<and> cached str_hash c dir name = None
       then Some val else cached str_hash c dir' n)"
    using p(1) by (auto simp: dc_insert_def g Let_def cached_def dir_at_update d)
qed

lemma dc_clear_dir_cached:
  assumes "wf_dentry str_hash c" and "map_of (dc_entry_dir_id c) dir \<noteq> None"
  shows "wf_dentry str_hash (dc_clear_dir dir c)"
    and "cached str_hash (dc_clear_dir dir c) dir' =
      (if gen_dir_id str_hash dir' = gen_dir_id str_hash dir then Map.empty else cached str_hash c dir')"
  using assms
  by (auto simp: dc_clear_dir_def wf_dentry_def cached_def dir_at_def delete_conv' split: option.splits)

section \<open>Written sizes: lemmas\<close>

definition ws_records :: "string \<Rightarrow> u64 list \<Rightarrow> WriteSizeCache \<Rightarrow> WriteSizeCache" where
  "ws_records path szs c = fold (\<lambda>sz c. snd (ws_record path sz c)) szs c"

lemma ws_record_entry:
  "map_of (size_cache (snd (ws_record path sz c))) =
     (map_of (size_cache c))(path \<mapsto>
        (case map_of (size_cache c) path of None \<Rightarrow> (1, sz) | Some (cnt, old) \<Rightarrow> (cnt + 1, max old sz)))"
  by (auto simp: ws_record_def Let_def update_conv' fun_eq_iff max_def word_greater_zero_iff split: option.splits prod.splits)

lemma ws_records_entry:
  assumes "map_of (size_cache c) path = Some (cnt, old)"
  shows "map_of (size_cache (ws_records path szs c)) path = Some (cnt + of_nat (length szs), fold max szs old)"
  using assms
proof (induction szs arbitrary: c cnt old)
  case (Cons sz szs)
  have "map_of (size_cache (snd (ws_record path sz c))) path = Some (cnt + 1, max sz old)"
    using Cons.prems by (simp add: ws_record_entry max.commute)
  from Cons.IH [OF this] show ?case by (simp add: ws_records_def algebra_simps)
qed (simp add: ws_records_def)

lemma ws_flush_entry:
  assumes "map_of (size_cache c) path = Some (cnt, sz)" and "cnt \<noteq> 0"
  shows "ws_flush upd path evict c st =
    (fst (upd path sz 0 False st), c\<lparr>size_cache := AList.update path (0, sz) (size_cache c)\<rparr>, snd (upd path sz 0 False st))"
  using assms by (simp add: ws_flush_def ws_reset_def split: prod.splits)

text \<open>
  C38. Writes recorded in the size cache are reported to the daemons with the largest end among them, in
  one update, and other files' recorded sizes stay.
\<close>

theorem flush_reports_largest_write:
  assumes "map_of (size_cache c) path = None" and "length szs < 2 ^ 64 - 1"
  shows "\<exists>c'. ws_flush upd path evict (ws_records path (sz # szs) c) st =
      (fst (upd path (fold max szs sz) 0 False st), c', snd (upd path (fold max szs sz) 0 False st)) \<and>
    (\<forall>p. p \<noteq> path \<longrightarrow> map_of (size_cache c') p = map_of (size_cache c) p)"
proof -
  have "map_of (size_cache (snd (ws_record path sz c))) path = Some (1, sz)" using assms(1) by (simp add: ws_record_entry)
  from ws_records_entry [OF this, of szs]
  have e: "map_of (size_cache (ws_records path (sz # szs) c)) path = Some (1 + of_nat (length szs), fold max szs sz)"
    by (simp add: ws_records_def)
  have n: "1 + of_nat (length szs) \<noteq> (0 :: u64)"
    using assms(2) of_nat_u64_inject [of "Suc (length szs)" 0] by (simp del: of_nat_Suc flip: of_nat_Suc)
  have "map_of (size_cache (ws_records path szs c)) p = map_of (size_cache c) p" if "p \<noteq> path" for p szs c
    using that by (induction szs arbitrary: c) (simp_all add: ws_records_def ws_record_entry)
  then show ?thesis using ws_flush_entry [OF e n, of upd evict st] by (simp add: update_conv')
qed

theorem flush_reports_largest_write_witness:
  "fst (ws_flush (\<lambda>p sz off app st. ((0, sz), st)) ''/f'' True
     (ws_records ''/f'' [10, 30, 20] \<lparr>size_cache = [], flush_threshold = 5\<rparr>) ()) = (0, 30)"
  using flush_reports_largest_write [of "\<lparr>size_cache = [], flush_threshold = 5\<rparr>" "''/f''" "[30, 20]"
      "\<lambda>p sz off app st. ((0, sz), st)" True 10 "()"]
  by (auto simp: max_def)

text \<open>
  C39. A flush never evicts, although closing and synchronising a file ask for it: after a flush the old
  size stays, and the next flush after a smaller write reports the old size again. A file that was cut
  in between grows back. The documentation of \<open>flush\<close> in \<open>cache.hpp\<close> promises that an entry is removed when
  \<open>evict\<close> is set; the code passes \<open>false\<close> to \<open>reset\<close> instead of it.
\<close>

theorem flush_resends_old_size:
  assumes "map_of (size_cache c) path = Some (cnt, old)" and "cnt \<noteq> 0" and "sz \<le> old"
  shows "fst (ws_flush upd path True
      (snd (ws_record path sz (fst (snd (ws_flush upd path True c st))))) st') = fst (upd path old 0 False st')"
proof -
  let ?c1 = "c\<lparr>size_cache := AList.update path (0, old) (size_cache c)\<rparr>"
  have f: "fst (snd (ws_flush upd path True c st)) = ?c1" using ws_flush_entry [OF assms(1,2), of upd True st] by simp
  have "map_of (size_cache (snd (ws_record path sz ?c1))) path = Some (1, old)"
    using assms(3) by (simp add: ws_record_entry update_conv' max_def)
  from ws_flush_entry [OF this, of upd True st'] show ?thesis unfolding f by simp
qed

theorem flush_resends_old_size_witness:
  "fst (ws_flush (\<lambda>p sz off app st. ((0, sz), st)) ''/f'' True
      (snd (ws_record ''/f'' 5 (fst (snd (ws_flush (\<lambda>p sz off app st. ((0, sz), st)) ''/f'' True
         \<lparr>size_cache = [(''/f'', (1, 1000))], flush_threshold = 5\<rparr> ()))))) ()) = (0, 1000)"
  using flush_resends_old_size [of "\<lparr>size_cache = [(''/f'', (1, 1000))], flush_threshold = 5\<rparr>" "''/f''" 1 1000 5
      "\<lambda>p sz off app st. ((0, sz), st)" "()" "()"]
  by simp

end
