(* ===== verification/Client_Context.thy ===== *)
theory Client_Context
  imports Forward_Metadata Client_Cache Path_Util "HOL-Library.Monad_Syntax"
begin

text \<open>
  What the file operations of a client work on (\<open>src/client/preload_util.cpp\<close> and the parts of
  \<open>preload_context.cpp\<close> they use): the daemons, the open files, the two caches and \<open>errno\<close>. Requests go
  to the daemons directly; the variant that sends them to a proxy process is not modelled, nor is
  logging.

  An operation that follows links or renames may run forever when they form a cycle, and an
  exception that nobody catches may leave it. Its result is then None.
\<close>

record 's client =
  cl_sys :: "'s gekko"
  cl_map :: OpenFileMap
  cl_heap :: "OpenFile list"
  cl_dentry :: DentryCache
  cl_wsize :: WriteSizeCache
  cl_errno :: errno

text \<open>The file system configuration a client gets from the daemons.\<close>

record FsConfig =
  fs_uid :: u32
  fs_gid :: u32
  atime_state :: bool
  mtime_state :: bool
  ctime_state :: bool
  link_cnt_state :: bool
  blocks_state :: bool

text \<open>
  Build options, settings, network and chance: \<open>env_draws k\<close> are the draws of \<open>rand\<close> of the \<open>k\<close>-th read
  of one operation, \<open>env_buffer\<close> the contents of fresh receive buffers.
\<close>

record 's cl_env =
  env_net :: "'s md_net"
  env_csz :: u64
  env_bulk :: bulk_transfer
  env_cfg :: md_config
  env_check_parents :: bool
  env_replicas :: nat
  env_use_dentry :: bool
  env_use_wsize :: bool
  env_hash :: "string \<Rightarrow> u64"
  env_draws :: "nat \<Rightarrow> u64 \<Rightarrow> nat list"
  env_buffer :: "nat \<Rightarrow> string"
  env_conf :: FsConfig
  env_mountdir :: string
  env_internal_fd :: "int \<Rightarrow> bool"
  env_statfs :: "u64 \<Rightarrow> errno + u64 \<times> u64 \<times> u64"

definition set_errno :: "errno \<Rightarrow> 's client \<Rightarrow> 's client" where
  "set_errno e c = c\<lparr>cl_errno := e\<rparr>"

text \<open>\<open>errno = e; return -1;\<close>\<close>

definition fail :: "errno \<Rightarrow> 's client \<Rightarrow> int \<times> 's client" where
  "fail e c = (- 1, set_errno e c)"

text \<open>\<open>err\<close> of a request turned into the result of an operation.\<close>

definition finish :: "errno \<times> 's gekko \<Rightarrow> 's client \<Rightarrow> int \<times> 's client" where
  "finish r c = (let c' = c\<lparr>cl_sys := snd r\<rparr> in if fst r \<noteq> 0 then fail (fst r) c' else (0, c'))"

section \<open>Metadata\<close>

text \<open>\<open>forward_stat\<close> on the copies in order until one succeeds.\<close>

primrec stat_copies :: "'s md_net \<Rightarrow> string \<Rightarrow> int list \<Rightarrow> errno \<Rightarrow> 's gekko \<Rightarrow> (errno + string) \<times> 's gekko" where
  "stat_copies net path [] err g = (Inl err, g)"
| "stat_copies net path (copy # cs) err g =
     (case forward_stat net g path copy of
        (Inr attr, g') \<Rightarrow> (Inr attr, g')
      | (Inl e, g') \<Rightarrow> stat_copies net path cs e g')"

definition parsed :: "'s cl_env \<Rightarrow> string \<Rightarrow> Metadata option" where
  "parsed env attr = (case Metadata_parse (env_cfg env) attr of Inl _ \<Rightarrow> None | Inr md \<Rightarrow> Some md)"

partial_function (option) follow_md ::
    "'s cl_env \<Rightarrow> Metadata \<Rightarrow> 's client \<Rightarrow> (Metadata option \<times> 's client) option" where
  "follow_md env md c =
     (if is_link md
      then (case forward_stat (env_net env) (cl_sys c) (md_target_path md) 0 of
              (Inl e, g) \<Rightarrow> Some (None, set_errno e (c\<lparr>cl_sys := g\<rparr>))
            | (Inr attr, g) \<Rightarrow>
                do { md' \<leftarrow> parsed env attr; follow_md env md' (c\<lparr>cl_sys := g\<rparr>) })
      else Some (Some md, c))"

definition file_mode_default :: u32 where "file_mode_default = 33188"
definition dir_mode_default :: u32 where "dir_mode_default = 16895"

text \<open>
  The dentry cache is asked with \<open>parent_path\<close> and \<open>filename\<close> of \<open>std::filesystem\<close>; on a resolved path the
  first is \<open>dirname\<close>, and the second what follows the last slash.
\<close>

definition md_from_cache :: "cache_entry \<Rightarrow> Metadata" where
  "md_from_cache e = Metadata_default
     \<lparr>md_mode := (if ce_file_type e = Directory then dir_mode_default else file_mode_default),
      md_ctime := ce_ctime e, md_size := ce_size e\<rparr>"

definition get_metadata ::
    "'s cl_env \<Rightarrow> 's client \<Rightarrow> string \<Rightarrow> bool \<Rightarrow> (Metadata option \<times> 's client) option" where
  "get_metadata env c path follow_links =
     (let (hit, c1) = (if env_use_dentry env
             then (let (e, d) = dc_get (env_hash env) (path_dirname path) (basename path) (cl_dentry c)
                   in (e, c\<lparr>cl_dentry := d\<rparr>))
             else (None, c))
      in case hit of
           Some e \<Rightarrow> Some (Some (md_from_cache e), c1)
         | None \<Rightarrow>
             (case stat_copies (env_net env) path (copy_range (env_replicas env)) 0 (cl_sys c1) of
                (Inl err, g) \<Rightarrow> Some (None, set_errno err (c1\<lparr>cl_sys := g\<rparr>))
              | (Inr attr, g) \<Rightarrow>
                  do { md \<leftarrow> parsed env attr;
                       if has_symlinks (env_cfg env) \<and> follow_links then follow_md env md (c1\<lparr>cl_sys := g\<rparr>)
                       else Some (Some md, c1\<lparr>cl_sys := g\<rparr>) }))"

record stat_buf =
  st_ino :: u64
  st_nlink :: u64
  st_uid :: u32
  st_gid :: u32
  st_blksize :: u64
  st_blocks :: u64
  st_atim :: u64
  st_mtim :: u64
  st_ctim :: u64
  st_mode :: u32
  st_size :: u64

definition metadata_to_stat :: "'s cl_env \<Rightarrow> string \<Rightarrow> Metadata \<Rightarrow> stat_buf" where
  "metadata_to_stat env path md =
     (let conf = env_conf env in
      \<lparr>st_ino = env_hash env path,
       st_nlink = (if link_cnt_state conf then md_link_count md else 1),
       st_uid = fs_uid conf, st_gid = fs_gid conf,
       st_blksize = env_csz env,
       st_blocks = (if blocks_state conf then md_blocks md else md_size md div 512),
       st_atim = (if atime_state conf then md_atime md else 0),
       st_mtim = (if mtime_state conf then md_mtime md else 0),
       st_ctim = (if ctime_state conf then md_ctime md else 0),
       st_mode = md_mode md,
       st_size = (if has_symlinks (env_cfg env) \<and> is_link md
                  then of_nat (length (md_target_path md) + length (env_mountdir env)) else md_size md)\<rparr>)"

definition update_file_size ::
    "'s cl_env \<Rightarrow> string \<Rightarrow> u64 \<Rightarrow> u64 \<Rightarrow> bool \<Rightarrow> 's gekko \<Rightarrow> (errno \<times> u64) \<times> 's gekko" where
  "update_file_size env path cnt offset is_append g =
     forward_update_metadentry_size (env_net env) g path cnt offset is_append (env_replicas env)"

text \<open>\<open>CTX->file_map()->add(std::make_shared<...>(...))\<close>\<close>

definition add_file :: "OpenFile \<Rightarrow> 's client \<Rightarrow> (int \<times> 's client) option" where
  "add_file f c = do { (fd, m) \<leftarrow> fm_add (length (cl_heap c)) (cl_map c);
                       Some (fd, c\<lparr>cl_heap := cl_heap c @ [f], cl_map := m\<rparr>) }"

text \<open>
  The end of a chain of renames: as long as the metadata has a target path, look up the target.
  The result is the last path and its metadata, none if a lookup fails.
\<close>

partial_function (option) chase ::
    "'s cl_env \<Rightarrow> string \<Rightarrow> Metadata \<Rightarrow> 's client \<Rightarrow> ((string \<times> Metadata) option \<times> 's client) option" where
  "chase env path md c =
     (if md_target_path md = [] then Some (Some (path, md), c)
      else do { (r, c1) \<leftarrow> get_metadata env c (md_target_path md) False;
                case r of None \<Rightarrow> Some (None, c1)
                        | Some md' \<Rightarrow> chase env (md_target_path md) md' c1 })"

end
