(* ===== verification/Gkfs_IO.thy ===== *)
theory Gkfs_IO
  imports Client_Context
begin

text \<open>
  Reading, writing and positioning through file descriptors (\<open>src/client/gkfs_functions.cpp\<close>). A system
  call returns its result, -1 with \<open>errno\<close> set on an error; file objects are addresses in the client's
  heap. An \<open>iovec\<close> is the list of its buffers.
\<close>

text \<open>\<open>file.pos(pos)\<close>\<close>

definition move_pos :: "nat \<Rightarrow> u64 \<Rightarrow> 's client \<Rightarrow> 's client" where
  "move_pos f pos c = c\<lparr>cl_heap := (cl_heap c)[f := set_pos pos (cl_heap c ! f)]\<rparr>"

section \<open>Write\<close>

text \<open>
  The size is reported before the data is written, or recorded in the cache. The result is the
  error or the offset to write at: an append writes where the daemon reserved space.
\<close>

definition report_size ::
    "'s cl_env \<Rightarrow> string \<Rightarrow> u64 \<Rightarrow> u64 \<Rightarrow> bool \<Rightarrow> 's client \<Rightarrow> (errno + u64) \<times> 's client" where
  "report_size env path cnt offset is_append c =
     (if env_use_wsize env \<and> \<not> is_append
      then (let ((size_update_cnt, _), w) = ws_record path (offset + cnt) (cl_wsize c)
            in if flush_threshold w < size_update_cnt
               then (let ((err, _), w', g) = ws_flush (update_file_size env) path False w (cl_sys c);
                         c' = c\<lparr>cl_wsize := w', cl_sys := g\<rparr>
                     in (if err \<noteq> 0 then Inl err else Inr offset, c'))
               else (Inr offset, c\<lparr>cl_wsize := w\<rparr>))
      else (let ((err, ret_offset), g) = update_file_size env path cnt offset is_append (cl_sys c);
                c' = c\<lparr>cl_sys := g\<rparr>
            in (if err \<noteq> 0 then Inl err
                else if is_append then (if ret_offset = - 1 then Inl EIO else Inr ret_offset)
                else Inr offset, c')))"

text \<open>\<open>forward_write\<close> on the client's state.\<close>

definition write_data ::
    "'s cl_env \<Rightarrow> string \<Rightarrow> bytes \<Rightarrow> u64 \<Rightarrow> u64 \<Rightarrow> nat \<Rightarrow> 's client \<Rightarrow> (errno \<times> u64) \<times> 's client" where
  "write_data env path buf offset cnt num_copies c =
     (let net = env_net env;
          (r, cl') = forward_write (env_csz env) (mn_hosts_size net) (mn_locate_data net) (mn_rpc net) (env_bulk env)
            (g_data (cl_sys c)) path buf offset cnt num_copies
      in (r, c\<lparr>cl_sys := (cl_sys c)\<lparr>g_data := cl'\<rparr>\<rparr>))"

text \<open>\<open>write_size\<close> is declared with \<open>auto write_size = 0\<close>: an \<open>int\<close> of 32 bits.\<close>

definition gkfs_do_write ::
    "'s cl_env \<Rightarrow> 's client \<Rightarrow> nat \<Rightarrow> bytes \<Rightarrow> u64 \<Rightarrow> u64 \<Rightarrow> bool \<Rightarrow> int \<times> 's client" where
  "gkfs_do_write env c f buf cnt offset update_pos =
     (let file = cl_heap c ! f; path = of_path file
      in if of_type file \<noteq> Regular then fail EISDIR c
         else case report_size env path cnt offset (get_flag file Append) c of
                (Inl err, c1) \<Rightarrow> fail err c1
              | (Inr offset', c1) \<Rightarrow>
                  (let ((err1, size1), c2) = write_data env path buf offset' cnt 0 c1;
                       ((err, sz), c3) =
                         (if 0 < env_replicas env
                          then (let ((err2, size2), c') = write_data env path buf offset' cnt (env_replicas env) c2
                                in (if err1 \<noteq> 0 \<and> err2 = 0 then (err2, size2) else (err1, size1), c'))
                          else ((err1, size1), c2));
                       write_size = ucast sz :: u32
                   in if err \<noteq> 0 then fail err c3
                      else (sint write_size, if update_pos then move_pos f (offset' + scast write_size) c3 else c3)))"

definition gkfs_write_ws ::
    "'s cl_env \<Rightarrow> 's client \<Rightarrow> nat \<Rightarrow> bytes \<Rightarrow> u64 \<Rightarrow> u64 \<Rightarrow> bool \<Rightarrow> int \<times> 's client" where
  "gkfs_write_ws env c f buf cnt offset update_pos = gkfs_do_write env c f buf cnt offset update_pos"

definition gkfs_pwrite :: "'s cl_env \<Rightarrow> 's client \<Rightarrow> int \<Rightarrow> bytes \<Rightarrow> u64 \<Rightarrow> u64 \<Rightarrow> int \<times> 's client" where
  "gkfs_pwrite env c fd buf cnt offset = (case fm_get (cl_map c) fd of
       None \<Rightarrow> (0, c)
     | Some f \<Rightarrow> gkfs_write_ws env c f buf cnt offset False)"

definition gkfs_write :: "'s cl_env \<Rightarrow> 's client \<Rightarrow> int \<Rightarrow> bytes \<Rightarrow> u64 \<Rightarrow> int \<times> 's client" where
  "gkfs_write env c fd buf cnt = (case fm_get (cl_map c) fd of
       None \<Rightarrow> (0, c)
     | Some f \<Rightarrow> gkfs_write_ws env c f buf cnt (of_pos (cl_heap c ! f)) True)"

primrec pwritev_loop ::
    "'s cl_env \<Rightarrow> nat \<Rightarrow> bytes list \<Rightarrow> u64 \<Rightarrow> int \<Rightarrow> 's client \<Rightarrow> int \<times> 's client" where
  "pwritev_loop env f [] pos written c = (written, c)"
| "pwritev_loop env f (buf # iov) pos written c =
     (let cnt = of_nat (length buf) :: u64
      in if cnt = 0 then pwritev_loop env f iov pos written c
         else (let (ret, c') = gkfs_write_ws env c f buf cnt pos False
               in if ret = - 1 then (written, c')
                  else if (word_of_int ret :: u64) < cnt then (written + ret, c')
                  else pwritev_loop env f iov (pos + word_of_int ret) (written + ret) c'))"

definition gkfs_pwritev :: "'s cl_env \<Rightarrow> 's client \<Rightarrow> int \<Rightarrow> bytes list \<Rightarrow> u64 \<Rightarrow> int \<times> 's client" where
  "gkfs_pwritev env c fd iov offset = (case fm_get (cl_map c) fd of
       None \<Rightarrow> (0, c)
     | Some f \<Rightarrow> (case pwritev_loop env f iov offset 0 c of (written, c') \<Rightarrow>
                   (if written = 0 then - 1 else written, c')))"

definition gkfs_writev :: "'s cl_env \<Rightarrow> 's client \<Rightarrow> int \<Rightarrow> bytes list \<Rightarrow> int \<times> 's client" where
  "gkfs_writev env c fd iov = (case fm_get (cl_map c) fd of
       None \<Rightarrow> (0, c)
     | Some f \<Rightarrow>
         (let pos = of_pos (cl_heap c ! f);
              (ret, c') = gkfs_pwritev env c fd iov pos
          in if ret < 0 then (- 1, c') else (ret, move_pos f (pos + word_of_int ret) c')))"

section \<open>Read\<close>

text \<open>
  With replicas a read is repeated as long as it ends in \<open>EIO\<close>; \<open>failed\<close> collects the hosts that did not
  answer. \<open>zero_buffer_before_read\<close> is off, as in \<open>config.hpp\<close>.
\<close>

partial_function (option) read_retry ::
    "'s cl_env \<Rightarrow> cluster \<Rightarrow> string \<Rightarrow> u64 \<Rightarrow> u64 \<Rightarrow> nat \<Rightarrow> 8 word list \<Rightarrow> bytes \<Rightarrow> ((errno \<times> u64) \<times> bytes) option" where
  "read_retry env cl path offset cnt k failed buf =
     (case forward_read (env_csz env) (mn_hosts_size (env_net env)) (mn_locate_data (env_net env)) (mn_rpc (env_net env))
             (env_bulk env) cl path buf offset cnt (env_replicas env) failed (env_draws env k) of
        None \<Rightarrow> None
      | Some (r, buf', failed') \<Rightarrow>
          if env_replicas env \<noteq> 0 \<and> fst r = EIO then read_retry env cl path offset cnt (Suc k) failed' buf'
          else Some (r, buf'))"

definition gkfs_do_read ::
    "'s cl_env \<Rightarrow> 's client \<Rightarrow> nat \<Rightarrow> bytes \<Rightarrow> u64 \<Rightarrow> u64 \<Rightarrow> (int \<times> bytes \<times> 's client) option" where
  "gkfs_do_read env c f buf cnt offset =
     (let file = cl_heap c ! f
      in if of_type file \<noteq> Regular then Some (- 1, buf, set_errno EISDIR c)
         else do { ((err, sz), buf') \<leftarrow> read_retry env (g_data (cl_sys c)) (of_path file) offset cnt 0 [] buf;
                   Some (if err \<noteq> 0 then (- 1, buf', set_errno err c) else (sint sz, buf', c)) })"

definition gkfs_read_ws ::
    "'s cl_env \<Rightarrow> 's client \<Rightarrow> nat \<Rightarrow> bytes \<Rightarrow> u64 \<Rightarrow> u64 \<Rightarrow> (int \<times> bytes \<times> 's client) option" where
  "gkfs_read_ws env c f buf cnt offset = gkfs_do_read env c f buf cnt offset"

definition gkfs_pread ::
    "'s cl_env \<Rightarrow> 's client \<Rightarrow> int \<Rightarrow> bytes \<Rightarrow> u64 \<Rightarrow> u64 \<Rightarrow> (int \<times> bytes \<times> 's client) option" where
  "gkfs_pread env c fd buf cnt offset = (case fm_get (cl_map c) fd of
       None \<Rightarrow> Some (0, buf, c)
     | Some f \<Rightarrow> gkfs_read_ws env c f buf cnt offset)"

definition gkfs_read :: "'s cl_env \<Rightarrow> 's client \<Rightarrow> int \<Rightarrow> bytes \<Rightarrow> u64 \<Rightarrow> (int \<times> bytes \<times> 's client) option" where
  "gkfs_read env c fd buf cnt = (case fm_get (cl_map c) fd of
       None \<Rightarrow> Some (0, buf, c)
     | Some f \<Rightarrow>
         (let pos = of_pos (cl_heap c ! f)
          in do { (ret, buf', c') \<leftarrow> gkfs_read_ws env c f buf cnt pos;
                  Some (ret, buf', if 0 < ret then move_pos f (pos + word_of_int ret) c' else c') }))"

primrec preadv_loop ::
    "'s cl_env \<Rightarrow> nat \<Rightarrow> bytes list \<Rightarrow> u64 \<Rightarrow> int \<Rightarrow> 's client \<Rightarrow> (int \<times> bytes list \<times> 's client) option" where
  "preadv_loop env f [] pos got c = Some (got, [], c)"
| "preadv_loop env f (buf # iov) pos got c =
     (let cnt = of_nat (length buf) :: u64
      in if cnt = 0
         then map_option (\<lambda>(r, bufs, c'). (r, buf # bufs, c')) (preadv_loop env f iov pos got c)
         else do { (ret, buf', c') \<leftarrow> gkfs_read_ws env c f buf cnt pos;
                   if ret = - 1 then Some (got, buf' # iov, c')
                   else if (word_of_int ret :: u64) < cnt then Some (got + ret, buf' # iov, c')
                   else map_option (\<lambda>(r, bufs, c''). (r, buf' # bufs, c''))
                          (preadv_loop env f iov (pos + word_of_int ret) (got + ret) c') })"

definition gkfs_preadv ::
    "'s cl_env \<Rightarrow> 's client \<Rightarrow> int \<Rightarrow> bytes list \<Rightarrow> u64 \<Rightarrow> (int \<times> bytes list \<times> 's client) option" where
  "gkfs_preadv env c fd iov offset = (case fm_get (cl_map c) fd of
       None \<Rightarrow> Some (0, iov, c)
     | Some f \<Rightarrow> do { (got, bufs, c') \<leftarrow> preadv_loop env f iov offset 0 c;
                       Some (if got = 0 then - 1 else got, bufs, c') })"

definition gkfs_readv ::
    "'s cl_env \<Rightarrow> 's client \<Rightarrow> int \<Rightarrow> bytes list \<Rightarrow> (int \<times> bytes list \<times> 's client) option" where
  "gkfs_readv env c fd iov = (case fm_get (cl_map c) fd of
       None \<Rightarrow> Some (0, iov, c)
     | Some f \<Rightarrow>
         (let pos = of_pos (cl_heap c ! f)
          in do { (ret, bufs, c') \<leftarrow> gkfs_preadv env c fd iov pos;
                  Some (if ret < 0 then (- 1, bufs, c') else (ret, bufs, move_pos f (pos + word_of_int ret) c')) }))"

section \<open>Position\<close>

text \<open>Offsets are \<open>off_t\<close>: signed, read with \<open>sint\<close>.\<close>

definition gkfs_lseek_file :: "'s cl_env \<Rightarrow> 's client \<Rightarrow> nat \<Rightarrow> u64 \<Rightarrow> nat \<Rightarrow> int \<times> 's client" where
  "gkfs_lseek_file env c f offset whence =
     (let seek = (\<lambda>pos c. (sint pos, move_pos f pos c))
      in if whence = 0 then (if sint offset < 0 then fail EINVAL c else seek offset c)
         else if whence = 1 then seek (of_pos (cl_heap c ! f) + offset) c
         else if whence = 2
         then (let ((err, file_size), g) =
                     forward_get_metadentry_size (env_net env) (cl_sys c) (of_path (cl_heap c ! f)) 0;
                   c' = c\<lparr>cl_sys := g\<rparr>
               in if err \<noteq> 0 then fail err c'
                  else if sint offset < 0 \<and> sint file_size < - sint offset then fail EINVAL c'
                  else seek (file_size + offset) c')
         else fail EINVAL c)"

text \<open>None: an unknown descriptor is a null pointer here.\<close>

definition gkfs_lseek :: "'s cl_env \<Rightarrow> 's client \<Rightarrow> int \<Rightarrow> u64 \<Rightarrow> nat \<Rightarrow> (int \<times> 's client) option" where
  "gkfs_lseek env c fd offset whence =
     map_option (\<lambda>f. gkfs_lseek_file env c f offset whence) (fm_get (cl_map c) fd)"

section \<open>Truncate to a smaller size\<close>

primrec decr_size_loop :: "'s md_net \<Rightarrow> string \<Rightarrow> u64 \<Rightarrow> int list \<Rightarrow> 's gekko \<Rightarrow> errno \<times> 's gekko" where
  "decr_size_loop net path new_size [] g = (0, g)"
| "decr_size_loop net path new_size (copy # cs) g =
     (case forward_decr_size net g path new_size copy of (err, g') \<Rightarrow>
        if err \<noteq> 0 then (err, g') else decr_size_loop net path new_size cs g')"

definition gkfs_truncate_sizes :: "'s cl_env \<Rightarrow> 's client \<Rightarrow> string \<Rightarrow> u64 \<Rightarrow> u64 \<Rightarrow> int \<times> 's client" where
  "gkfs_truncate_sizes env c path old_size new_size =
     (if new_size = old_size then (0, c)
      else case decr_size_loop (env_net env) path new_size (copy_range (env_replicas env)) (cl_sys c) of (err, g) \<Rightarrow>
        if err \<noteq> 0 then fail err (c\<lparr>cl_sys := g\<rparr>)
        else (case forward_truncate (env_csz env) (mn_locate_data (env_net env)) (mn_rpc (env_net env)) (g_data g)
                     path old_size new_size (env_replicas env) of (err', cl') \<Rightarrow>
                finish (err', g\<lparr>g_data := cl'\<rparr>) c))"

section \<open>Descriptors\<close>

definition gkfs_dup :: "'s client \<Rightarrow> int \<Rightarrow> (int \<times> 's client) option" where
  "gkfs_dup c oldfd = do { (r, m) \<leftarrow> fm_dup oldfd (cl_map c);
     Some (case r of Inl e \<Rightarrow> fail e c | Inr fd \<Rightarrow> (fd, c\<lparr>cl_map := m\<rparr>)) }"

definition gkfs_dup2 :: "'s client \<Rightarrow> int \<Rightarrow> int \<Rightarrow> int \<times> 's client" where
  "gkfs_dup2 c oldfd newfd = (case fm_dup2 oldfd newfd (cl_map c) of
       (Inl e, _) \<Rightarrow> fail e c
     | (Inr fd, m) \<Rightarrow> (fd, c\<lparr>cl_map := m\<rparr>))"

end
