(* ===== verification/Gkfs_Dirs.thy ===== *)
theory Gkfs_Dirs
  imports Client_Context
begin

text \<open>
  Directories (\<open>src/client/gkfs_functions.cpp\<close>): opening fetches all entries, \<open>getdents\<close> hands them out in
  portions that fit the caller's buffer. What \<open>getdents\<close> writes into the buffer is the list of its
  records. Positions are \<open>size_t\<close>, cut to \<open>unsigned int\<close> where \<open>getdent\<close> takes them; the number of bytes written
  is an \<open>unsigned int\<close>, returned as an \<open>int\<close>, and a record holds its own size as an \<open>unsigned short\<close>.
\<close>

section \<open>Opening\<close>

text \<open>
  With the dentry cache every host is asked on its own and the entries enter the cache; the error kept is that
  of the last host.
\<close>

definition cache_dirent ::
    "'s cl_env \<Rightarrow> string \<Rightarrow> string \<times> bool \<times> u64 \<times> u64 \<Rightarrow> OpenFile \<times> DentryCache \<Rightarrow> OpenFile \<times> DentryCache" where
  "cache_dirent env path de dc = (case de of (name, is_dir, sz, ctime) \<Rightarrow>
     (let ftype = (if is_dir then Directory else Regular)
      in (OpenDir_add name ftype (fst dc),
          dc_insert (env_hash env) path name \<lparr>ce_file_type = ftype, ce_size = sz, ce_ctime = ctime\<rparr> (snd dc))))"

primrec collect_dirents ::
    "'s cl_env \<Rightarrow> 's gekko \<Rightarrow> string \<Rightarrow> nat list \<Rightarrow> errno \<Rightarrow> OpenFile \<times> DentryCache
       \<Rightarrow> (errno \<times> OpenFile \<times> DentryCache) option" where
  "collect_dirents env g path [] err dc = Some (err, dc)"
| "collect_dirents env g path (i # is) err dc =
     do { (e, es) \<leftarrow> forward_get_dirents_single (env_net env) g (env_buffer env i) path i;
          collect_dirents env g path is e (fold (cache_dirent env path) es dc) }"

definition gkfs_opendir :: "'s cl_env \<Rightarrow> 's client \<Rightarrow> string \<Rightarrow> (int \<times> 's client) option" where
  "gkfs_opendir env c path =
     do { (r, c1) \<leftarrow> get_metadata env c path False;
          case r of
            None \<Rightarrow> Some (- 1, c1)
          | Some md \<Rightarrow>
              if \<not> S_ISDIR (md_mode md) then Some (fail ENOTDIR c1)
              else if env_use_dentry env
              then do { (err, d, cache) \<leftarrow> collect_dirents env (cl_sys c1) path
                          [0..<unat (mn_hosts_size (env_net env))] 0 (OpenDir_new path, cl_dentry c1);
                        let c2 = c1\<lparr>cl_dentry := cache\<rparr>
                        in if err \<noteq> 0 then Some (fail err c2) else add_file d c2 }
              else (case forward_get_dirents (env_net env) (cl_sys c1) (env_buffer env) path of (err, d) \<Rightarrow>
                      if err \<noteq> 0 then Some (fail err c1) else do { d' \<leftarrow> d; add_file d' c1 }) }"

definition gkfs_rmdir :: "'s cl_env \<Rightarrow> 's client \<Rightarrow> string \<Rightarrow> (int \<times> 's client) option" where
  "gkfs_rmdir env c path =
     (let remove = (\<lambda>c. finish (forward_remove (env_csz env) (env_net env) (cl_sys c) path True (env_replicas env)) c)
      in if env_check_parents env
         then do { (r, c1) \<leftarrow> get_metadata env c path False;
                   case r of
                     None \<Rightarrow> Some (- 1, c1)
                   | Some _ \<Rightarrow>
                       (case forward_get_dirents (env_net env) (cl_sys c1) (env_buffer env) path of (err, d) \<Rightarrow>
                          if err \<noteq> 0 then Some (fail err c1)
                          else do { d' \<leftarrow> d;
                                    Some (if OpenDir_size d' \<noteq> 0 then fail ENOTEMPTY c1 else remove c1) }) }
         else Some (remove c))"

section \<open>Reading entries\<close>

record dirent =
  d_ino :: u64
  d_off :: u64
  d_reclen :: u16
  d_type :: nat
  d_name :: string

definition DT_DIR :: nat where "DT_DIR = 4"
definition DT_REG :: nat where "DT_REG = 8"

text \<open>Record sizes are \<open>size_t\<close>; no name is long enough for them to wrap around.\<close>

definition ALIGN :: "nat \<Rightarrow> nat \<Rightarrow> nat" where
  "ALIGN x a = (x + a - 1) div a * a"

text \<open>The record sizes of \<open>linux_dirent\<close>, \<open>linux_dirent64\<close> and \<open>dirent_extended\<close>.\<close>

definition reclen :: "string \<Rightarrow> nat" where "reclen name = ALIGN (18 + length name + 3) 8"
definition reclen64 :: "string \<Rightarrow> nat" where "reclen64 name = ALIGN (19 + length name + 1) 8"

lemma reclen64_pos: "0 < reclen64 name"
  by (simp add: reclen64_def ALIGN_def)

definition dirent_at :: "(string \<Rightarrow> nat) \<Rightarrow> (string \<Rightarrow> u64) \<Rightarrow> string \<Rightarrow> u64 \<Rightarrow> DirEntry \<Rightarrow> dirent" where
  "dirent_at len str_hash path pos de =
     \<lparr>d_ino = str_hash (path @ ''/'' @ entry_name de), d_off = pos + 1, d_reclen = of_nat (len (entry_name de)),
      d_type = (if entry_type de = Regular then DT_REG else DT_DIR), d_name = entry_name de\<rparr>"

text \<open>The loop over the entries from \<open>pos\<close> on. None: \<open>getdent\<close> throws.\<close>

function fill_dirents ::
    "(string \<Rightarrow> nat) \<Rightarrow> (string \<Rightarrow> u64) \<Rightarrow> OpenFile \<Rightarrow> u32 \<Rightarrow> u64 \<Rightarrow> u32 \<Rightarrow> (dirent list \<times> u64 \<times> u32) option" where
  "fill_dirents len str_hash open_dir cnt pos written =
     (if of_nat (OpenDir_size open_dir) \<le> pos then Some ([], pos, written)
      else case getdent open_dir (ucast pos) of
             None \<Rightarrow> None
           | Some de \<Rightarrow>
               (let total_size = len (entry_name de)
                in if unat (cnt - written) < total_size then Some ([], pos, written)
                   else map_option (\<lambda>(ds, pos', written'). (dirent_at len str_hash (of_path open_dir) pos de # ds, pos', written'))
                          (fill_dirents len str_hash open_dir cnt (pos + 1) (written + of_nat total_size))))"
  by pat_completeness auto
termination
proof (relation "measure (\<lambda>(_, _, open_dir, _, pos, _). unat (of_nat (OpenDir_size open_dir) - pos :: u64))")
  fix len :: "string \<Rightarrow> nat" and str_hash :: "string \<Rightarrow> u64" and open_dir :: OpenFile and cnt written :: u32 and pos :: u64
    and de :: DirEntry and n :: nat
  assume "\<not> of_nat (OpenDir_size open_dir) \<le> pos"
  then have "of_nat (OpenDir_size open_dir) - pos \<noteq> (0 :: u64)" by auto
  then have "unat (of_nat (OpenDir_size open_dir) - (pos + 1)) < unat (of_nat (OpenDir_size open_dir) - pos :: u64)"
    by (simp add: measure_unat flip: diff_diff_eq)
  then show "((len, str_hash, open_dir, cnt, pos + 1, written + of_nat n), len, str_hash, open_dir, cnt, pos, written)
      \<in> measure (\<lambda>(_, _, open_dir, _, pos, _). unat (of_nat (OpenDir_size open_dir) - pos :: u64))"
    by simp
qed simp

declare fill_dirents.simps [simp del]

text \<open>\<open>return written\<close> in a function that returns \<open>int\<close>.\<close>

definition read_dir ::
    "(string \<Rightarrow> nat) \<Rightarrow> 's cl_env \<Rightarrow> 's client \<Rightarrow> int \<Rightarrow> u32 \<Rightarrow> (int \<times> dirent list \<times> 's client) option" where
  "read_dir len env c fd cnt = (case fm_get_dir (cl_heap c) (cl_map c) fd of
       None \<Rightarrow> Some (- 1, [], set_errno EBADF c)
     | Some f \<Rightarrow>
         (let open_dir = cl_heap c ! f; pos = of_pos open_dir
          in if of_nat (OpenDir_size open_dir) \<le> pos then Some (0, [], c)
             else map_option (\<lambda>(ds, pos', written).
                    if written = 0 then (- 1, [], set_errno EINVAL c)
                    else (sint written, ds, c\<lparr>cl_heap := (cl_heap c)[f := set_pos pos' open_dir]\<rparr>))
                    (fill_dirents len (env_hash env) open_dir cnt pos 0)))"

definition gkfs_getdents :: "'s cl_env \<Rightarrow> 's client \<Rightarrow> int \<Rightarrow> u32 \<Rightarrow> (int \<times> dirent list \<times> 's client) option" where
  "gkfs_getdents env c fd cnt = read_dir reclen env c fd cnt"

definition gkfs_getdents64 :: "'s cl_env \<Rightarrow> 's client \<Rightarrow> int \<Rightarrow> u32 \<Rightarrow> (int \<times> dirent list \<times> 's client) option" where
  "gkfs_getdents64 env c fd cnt = read_dir reclen64 env c fd cnt"

definition gkfs_get_file_list :: "'s cl_env \<Rightarrow> 's client \<Rightarrow> string \<Rightarrow> (string list \<times> 's client) option" where
  "gkfs_get_file_list env c path =
     (case forward_get_dirents (env_net env) (cl_sys c) (env_buffer env) path of (err, d) \<Rightarrow>
        if err \<noteq> 0 then Some ([], set_errno err c)
        else map_option (\<lambda>d'. (map entry_name (of_entries d'), c)) d)"

record dirent_extended =
  dx_size :: u64
  dx_ctime :: u64
  dx_reclen :: u16
  dx_type :: bool
  dx_name :: string

text \<open>Here the position is an \<open>unsigned int\<close> itself; the loop ends because the space left shrinks.\<close>

function fill_extended ::
    "u32 \<Rightarrow> (string \<times> bool \<times> u64 \<times> u64) list \<Rightarrow> u32 \<Rightarrow> u32 \<Rightarrow> dirent_extended list \<times> u32" where
  "fill_extended cnt es pos written =
     (if length es \<le> unat pos then ([], written)
      else case es ! unat pos of (name, is_dir, sz, ctime) \<Rightarrow>
        (let total_size = reclen64 name
         in if unat (cnt - written) < total_size then ([], written)
            else (case fill_extended cnt es (pos + 1) (written + of_nat total_size) of (ds, written') \<Rightarrow>
                    (\<lparr>dx_size = sz, dx_ctime = ctime, dx_reclen = of_nat total_size, dx_type = is_dir, dx_name = name\<rparr> # ds,
                     written'))))"
  by pat_completeness auto
termination
proof (relation "measure (\<lambda>(cnt, _, _, written). unat (cnt - written))")
  fix cnt pos written :: u32 and es :: "(string \<times> bool \<times> u64 \<times> u64) list" and n :: nat and name :: string
  assume "n = reclen64 name" and fits: "\<not> unat (cnt - written) < n"
  then have n: "0 < n" using reclen64_pos by simp
  have small: "unat (of_nat n :: u32) = n"
    using fits unsigned_less [of "cnt - written", where ?'a = nat] by (simp add: unat_of_nat take_bit_nat_eq_self)
  then have "unat (cnt - written - of_nat n) = unat (cnt - written) - n"
    using fits by (simp add: unat_sub word_le_nat_alt)
  then show "((cnt, es, pos + 1, written + of_nat n), cnt, es, pos, written) \<in> measure (\<lambda>(cnt, _, _, written). unat (cnt - written))"
    using n fits by (simp add: diff_diff_eq [symmetric])
qed simp

declare fill_extended.simps [simp del]

definition gkfs_getsingleserverdir ::
    "'s cl_env \<Rightarrow> 's client \<Rightarrow> string \<Rightarrow> u32 \<Rightarrow> nat \<Rightarrow> (int \<times> dirent_extended list \<times> 's client) option" where
  "gkfs_getsingleserverdir env c path cnt server =
     do { (err, es) \<leftarrow> forward_get_dirents_single (env_net env) (cl_sys c) (env_buffer env server) path server;
          if err \<noteq> 0 then Some (- 1, [], set_errno err c)
          else (case fill_extended cnt es 0 0 of (ds, written) \<Rightarrow>
                  Some (if written = 0 then (- 1, [], set_errno EINVAL c) else (sint written, ds, c))) }"

end
