(* ===== verification/Gkfs_Files.thy ===== *)
theory Gkfs_Files
  imports Gkfs_IO Gkfs_Dirs
begin

text \<open>
  Files by path (\<open>src/client/gkfs_functions.cpp\<close>): open, create, remove, rename, status, truncation,
  links, and closing. Which branches for links and renames exist is decided by the build options
  \<open>HAS_SYMLINKS\<close> and \<open>HAS_RENAME\<close> of the client's configuration.
\<close>

abbreviation ENAMETOOLONG :: errno where "ENAMETOOLONG \<equiv> 36"

definition renames :: "'s cl_env \<Rightarrow> bool" where
  "renames env \<longleftrightarrow> has_symlinks (env_cfg env) \<and> has_rename (env_cfg env)"

text \<open>A file that was renamed keeps an entry under its old name whose block count is -1.\<close>

definition moved_away :: "Metadata \<Rightarrow> bool" where
  "moved_away md \<longleftrightarrow> md_blocks md = - 1"

section \<open>Create\<close>

definition check_parent_dir :: "'s cl_env \<Rightarrow> 's client \<Rightarrow> string \<Rightarrow> (int \<times> 's client) option" where
  "check_parent_dir env c path =
     (if env_check_parents env
      then do { (r, c1) \<leftarrow> get_metadata env c (path_dirname path) False;
                Some (case r of
                        None \<Rightarrow> (- 1, c1)
                      | Some md \<Rightarrow> if \<not> S_ISDIR (md_mode md) then fail ENOTDIR c1 else (0, c1)) }
      else Some (0, c))"

text \<open>The entry is created on all copies, one of which must succeed; \<open>errno\<close> is that of the last copy.\<close>

primrec create_loop :: "'s cl_env \<Rightarrow> string \<Rightarrow> u32 \<Rightarrow> int list \<Rightarrow> bool \<Rightarrow> 's client \<Rightarrow> bool \<times> 's client" where
  "create_loop env path mode [] success c = (success, c)"
| "create_loop env path mode (copy # cs) success c =
     (case forward_create (env_net env) (cl_sys c) path mode copy of (err, g) \<Rightarrow>
        create_loop env path mode cs (success \<or> err = 0) (set_errno err (c\<lparr>cl_sys := g\<rparr>)))"

definition gkfs_create :: "'s cl_env \<Rightarrow> 's client \<Rightarrow> string \<Rightarrow> u32 \<Rightarrow> (int \<times> 's client) option" where
  "gkfs_create env c path mode =
     (let ty = mode AND 0xF000; mode' = (if ty = 0 then mode OR 0x8000 else mode)
      in if ty = 0x2000 \<or> ty = 0x6000 \<or> ty = 0x1000 \<or> ty = 0xC000 then Some (fail ENOTSUP c)
         else if ty \<noteq> 0 \<and> ty \<noteq> 0x8000 \<and> ty \<noteq> 0x4000 then Some (fail EINVAL c)
         else do { (bad, c1) \<leftarrow> check_parent_dir env c path;
                   if bad \<noteq> 0 then Some (- 1, c1)
                   else (case create_loop env path mode' (copy_range (env_replicas env)) False c1 of
                           (success, c2) \<Rightarrow> Some (if success then 0 else - 1, c2)) })"

section \<open>Open\<close>

definition O_EXCL :: u32 where "O_EXCL = 0x80"
definition O_DIRECTORY :: u32 where "O_DIRECTORY = 0x10000"
definition O_NOFOLLOW :: u32 where "O_NOFOLLOW = 0x20000"
definition O_PATH :: u32 where "O_PATH = 0x200000"

text \<open>The end of \<open>gkfs_open\<close> for an entry that exists.\<close>

definition open_existing ::
    "'s cl_env \<Rightarrow> 's client \<Rightarrow> string \<Rightarrow> Metadata \<Rightarrow> u32 \<Rightarrow> (int \<times> 's client) option" where
  "open_existing env c path md flags =
     (if S_ISDIR (md_mode md) then gkfs_opendir env c path
      else (let (r, c1) = (if flags AND O_TRUNC \<noteq> 0 \<and> (flags AND O_RDWR \<noteq> 0 \<or> flags AND O_WRONLY \<noteq> 0)
                           then gkfs_truncate_sizes env c path (md_size md) 0 else (0, c))
            in if r \<noteq> 0 then Some (- 1, c1) else add_file (OpenFile_new path flags Regular) c1))"

text \<open>
  The first part: creation or lookup. \<open>Inl\<close> is the result of \<open>gkfs_open\<close>, \<open>Inr\<close> the metadata of the entry that
  exists.
\<close>

definition open_lookup ::
    "'s cl_env \<Rightarrow> 's client \<Rightarrow> string \<Rightarrow> u32 \<Rightarrow> u32 \<Rightarrow> ((int + Metadata) \<times> 's client) option" where
  "open_lookup env c path mode flags =
     (if flags AND O_CREAT \<noteq> 0
      then if flags AND O_DIRECTORY \<noteq> 0 then Some (Inl (- 1), set_errno ENOTSUP c)
           else do { (err, c1) \<leftarrow> gkfs_create env c path (mode OR 0x8000);
                     if err = 0
                     then do { (fd, c2) \<leftarrow> add_file (OpenFile_new path flags Regular) c1; Some (Inl fd, c2) }
                     else if cl_errno c1 \<noteq> EEXIST \<or> flags AND O_EXCL \<noteq> 0 then Some (Inl (- 1), c1)
                     else do { (r, c2) \<leftarrow> get_metadata env c1 path False;
                               Some (case r of
                                       None \<Rightarrow> (Inl (- 1), c2)
                                     | Some md \<Rightarrow> (if has_rename (env_cfg env) \<and> moved_away md then Inl (- 1) else Inr md, c2)) } }
      else do { (r, c1) \<leftarrow> get_metadata env c path False;
                Some (case r of None \<Rightarrow> (Inl (- 1), c1) | Some md \<Rightarrow> (Inr md, c1)) })"

partial_function (option) gkfs_open ::
    "'s cl_env \<Rightarrow> 's client \<Rightarrow> string \<Rightarrow> u32 \<Rightarrow> u32 \<Rightarrow> (int \<times> 's client) option" where
  "gkfs_open env c path mode flags =
     (if flags AND O_PATH \<noteq> 0 then Some (fail ENOTSUP c)
      else do { (r, c1) \<leftarrow> open_lookup env c path mode flags;
                case r of
                  Inl ret \<Rightarrow> Some (ret, c1)
                | Inr md \<Rightarrow>
                    if has_symlinks (env_cfg env) \<and> is_link md
                    then (if flags AND O_NOFOLLOW \<noteq> 0 then Some (fail ELOOP c1)
                          else gkfs_open env c1 (md_target_path md) mode flags)
                    else if renames env \<and> moved_away md then Some (fail ENOENT c1)
                    else if renames env \<and> md_target_path md \<noteq> []
                    then do { (r2, c2) \<leftarrow> get_metadata env c1 (md_target_path md) False;
                              md2 \<leftarrow> r2;
                              (r3, c3) \<leftarrow> chase env (md_target_path md) md2 c2;
                              case r3 of
                                None \<Rightarrow> Some (- 1, c3)
                              | Some (new_path, md3) \<Rightarrow> open_existing env c3 new_path md3 flags }
                    else open_existing env c1 path md flags })"

section \<open>Remove and rename\<close>

definition gkfs_remove :: "'s cl_env \<Rightarrow> 's client \<Rightarrow> string \<Rightarrow> (int \<times> 's client) option" where
  "gkfs_remove env c path =
     (let remove = (\<lambda>p c. finish (forward_remove (env_csz env) (env_net env) (cl_sys c) p False (env_replicas env)) c)
      in if \<not> renames env then Some (remove path c)
         else do { (r, c1) \<leftarrow> get_metadata env c path False;
                   case r of
                     None \<Rightarrow> Some (- 1, c1)
                   | Some md \<Rightarrow>
                       if S_ISDIR (md_mode md) then Some (fail EISDIR c1)
                       else if moved_away md then Some (fail ENOENT c1)
                       else if md_target_path md = [] then Some (remove path c1)
                       else do { (_, c2) \<leftarrow> get_metadata env c1 (md_target_path md) False;
                                 (r3, c3) \<leftarrow> chase env path md c2;
                                 case r3 of
                                   None \<Rightarrow> Some (- 1, c3)
                                 | Some (new_path, _) \<Rightarrow>
                                     (case remove new_path c3 of (ret, c4) \<Rightarrow>
                                        Some (if ret \<noteq> 0 then (- 1, c4) else remove path c4)) } })"

definition gkfs_rename :: "'s cl_env \<Rightarrow> 's client \<Rightarrow> string \<Rightarrow> string \<Rightarrow> (int \<times> 's client) option" where
  "gkfs_rename env c old_path new_path =
     do { (r, c1) \<leftarrow> get_metadata env c old_path False;
          case r of
            None \<Rightarrow> Some (- 1, c1)
          | Some md_old \<Rightarrow>
              if moved_away md_old then Some (- 1, c1)
              else do { (r2, c2) \<leftarrow> get_metadata env c1 new_path False;
                        case r2 of
                          None \<Rightarrow> Some (finish (forward_rename (env_net env) (cl_sys c2) old_path new_path md_old) c2)
                        | Some md_new \<Rightarrow>
                            if moved_away md_new \<and> md_target_path md_old = new_path
                            then (let flags = \<lparr>f_atime = False, f_mtime = False, f_ctime = False, f_link_count = False,
                                               f_size = False, f_blocks = True\<rparr>;
                                      md' = md_old\<lparr>md_blocks := 0, md_target_path := []\<rparr>;
                                      (ret, c3) = finish (forward_update_metadentry (env_net env) (cl_sys c2) new_path md' flags 0) c2
                                  in Some (if ret \<noteq> 0 then (- 1, c3)
                                           else finish (forward_remove (env_csz env) (env_net env) (cl_sys c3) old_path
                                                  (S_ISDIR (md_mode md')) (env_replicas env)) c3))
                            else Some (- 1, c2) } }"

section \<open>Status\<close>

text \<open>Lookup of a path that may have been renamed, shared by \<open>stat\<close>, \<open>statx\<close> and \<open>access\<close>.\<close>

definition lookup_renamed ::
    "'s cl_env \<Rightarrow> 's client \<Rightarrow> string \<Rightarrow> bool \<Rightarrow> (Metadata option \<times> 's client) option" where
  "lookup_renamed env c path follow_links =
     do { (r, c1) \<leftarrow> get_metadata env c path follow_links;
          case r of
            None \<Rightarrow> Some (None, c1)
          | Some md \<Rightarrow>
              if \<not> renames env then Some (Some md, c1)
              else if moved_away md then Some (None, set_errno ENOENT c1)
              else do { (r2, c2) \<leftarrow> chase env path md c1; Some (map_option snd r2, c2) } }"

definition gkfs_access :: "'s cl_env \<Rightarrow> 's client \<Rightarrow> string \<Rightarrow> bool \<Rightarrow> (int \<times> 's client) option" where
  "gkfs_access env c path follow_links =
     do { (r, c1) \<leftarrow> lookup_renamed env c path follow_links; Some (if r = None then - 1 else 0, c1) }"

definition gkfs_stat :: "'s cl_env \<Rightarrow> 's client \<Rightarrow> string \<Rightarrow> bool \<Rightarrow> (stat_buf option \<times> 's client) option" where
  "gkfs_stat env c path follow_links =
     do { (r, c1) \<leftarrow> lookup_renamed env c path follow_links; Some (map_option (metadata_to_stat env path) r, c1) }"

record statx_buf =
  stx_mask :: u32
  stx_attributes :: u64
  stx_stat :: stat_buf
  stx_btime :: u64

definition gkfs_statx :: "'s cl_env \<Rightarrow> 's client \<Rightarrow> string \<Rightarrow> bool \<Rightarrow> (statx_buf option \<times> 's client) option" where
  "gkfs_statx env c path follow_links =
     do { (r, c1) \<leftarrow> lookup_renamed env c path follow_links;
          Some (map_option (\<lambda>md. let tmp = metadata_to_stat env path md
                  in \<lparr>stx_mask = 0, stx_attributes = 0, stx_stat = tmp, stx_btime = st_atim tmp\<rparr>) r, c1) }"

record statfs_buf =
  f_bsize :: u64
  f_blocks_total :: u64
  f_bfree :: u64
  f_bavail :: u64
  f_namelen :: nat

definition gkfs_statfs :: "'s cl_env \<Rightarrow> 's client \<Rightarrow> statfs_buf option \<times> 's client" where
  "gkfs_statfs env c =
     (case forward_get_chunk_stat (env_csz env) (map of_nat [0..<unat (mn_hosts_size (env_net env))])
             (mn_rpc (env_net env)) (env_statfs env) of
        (err, blk_stat) \<Rightarrow>
          if err \<noteq> 0 then (None, set_errno err c)
          else (Some \<lparr>f_bsize = chunk_size blk_stat, f_blocks_total = chunk_total blk_stat,
                      f_bfree = chunk_free blk_stat, f_bavail = chunk_free blk_stat, f_namelen = 4096\<rparr>, c))"

section \<open>Truncate\<close>

text \<open>
  A larger length is reached by writing zeros at the end of the file. A renamed file cannot be enlarged. A lookup
  that fails inside the chain of renames throws.
\<close>

definition gkfs_truncate :: "'s cl_env \<Rightarrow> 's client \<Rightarrow> string \<Rightarrow> u64 \<Rightarrow> (int \<times> 's client) option" where
  "gkfs_truncate env c path len =
     (if sint len < 0 then Some (fail EINVAL c)
      else do { (r, c1) \<leftarrow> get_metadata env c path True;
                case r of
                  None \<Rightarrow> Some (- 1, c1)
                | Some md \<Rightarrow>
                    if renames env \<and> moved_away md then Some (fail ENOENT c1)
                    else if renames env \<and> md_target_path md \<noteq> []
                    then do { (r2, c2) \<leftarrow> chase env path md c1;
                              (new_path, md2) \<leftarrow> r2;
                              Some (if md_size md2 < len then fail EINVAL c2
                                    else gkfs_truncate_sizes env c2 new_path (md_size md2) len) }
                    else if md_size md < len
                    then do { (output_fd, c2) \<leftarrow> gkfs_open env c1 path (md_mode md) O_WRONLY;
                              if output_fd = - 1 then Some (fail EINVAL c2)
                              else do { (_, c3) \<leftarrow> gkfs_lseek env c2 output_fd 0 2;
                                        let n = len - md_size md;
                                            (ret, c4) = gkfs_write env c3 output_fd (replicate (unat n) 0) n
                                        in Some (if ret \<noteq> sint n then fail EINVAL c4
                                                 else (0, c4\<lparr>cl_map := snd (fm_remove output_fd (cl_map c4))\<rparr>)) } }
                    else Some (gkfs_truncate_sizes env c1 path (md_size md) len) })"

section \<open>Flushing and closing\<close>

definition flush_size :: "'s cl_env \<Rightarrow> string \<Rightarrow> 's client \<Rightarrow> errno \<times> 's client" where
  "flush_size env path c =
     (if env_use_wsize env
      then (case ws_flush (update_file_size env) path True (cl_wsize c) (cl_sys c) of ((err, _), w, g) \<Rightarrow>
              (err, c\<lparr>cl_wsize := w, cl_sys := g\<rparr>))
      else (0, c))"

definition gkfs_fsync :: "'s cl_env \<Rightarrow> 's client \<Rightarrow> int \<Rightarrow> int \<times> 's client" where
  "gkfs_fsync env c fd = (case fm_get (cl_map c) fd of
       None \<Rightarrow> (0, set_errno 0 c)
     | Some f \<Rightarrow> (case flush_size env (of_path (cl_heap c ! f)) c of (err, c1) \<Rightarrow>
                   if err \<noteq> 0 then fail err c1 else (0, set_errno 0 c1)))"

text \<open>\<open>clear_dentry_cache_on_close\<close> is on, as in \<open>config.hpp\<close>.\<close>

definition gkfs_close :: "'s cl_env \<Rightarrow> 's client \<Rightarrow> int \<Rightarrow> int \<times> 's client" where
  "gkfs_close env c fd = (case fm_get (cl_map c) fd of
       None \<Rightarrow> (if env_internal_fd env fd then 0 else - 1, c)
     | Some f \<Rightarrow>
         (let file = cl_heap c ! f in
          case flush_size env (of_path file) c of (err, c1) \<Rightarrow>
            if err \<noteq> 0 then fail err c1
            else (let c2 = (if env_use_dentry env \<and> of_type file = Directory
                            then c1\<lparr>cl_dentry := dc_clear_dir (of_path file) (cl_dentry c1)\<rparr> else c1)
                  in (0, c2\<lparr>cl_map := snd (fm_remove fd (cl_map c2))\<rparr>))))"

section \<open>Symbolic links\<close>

definition gkfs_mk_symlink :: "'s cl_env \<Rightarrow> 's client \<Rightarrow> string \<Rightarrow> string \<Rightarrow> (int \<times> 's client) option" where
  "gkfs_mk_symlink env c path target_path =
     do { (r, c1) \<leftarrow> get_metadata env c target_path False;
          if (case r of None \<Rightarrow> False | Some md \<Rightarrow> \<not> (S_ISREG (md_mode md) \<or> S_ISLNK (md_mode md)))
          then Some (fail ENOTSUP c1)
          else do { (bad, c2) \<leftarrow> check_parent_dir env c1 path;
                    if bad \<noteq> 0 then Some (- 1, c2)
                    else do { (link_md, c3) \<leftarrow> get_metadata env c2 path False;
                              Some (if link_md \<noteq> None then fail EEXIST c3
                                    else finish (forward_mk_symlink (env_net env) (cl_sys c3) path target_path) c3) } } }"

definition gkfs_readlink ::
    "'s cl_env \<Rightarrow> 's client \<Rightarrow> string \<Rightarrow> int \<Rightarrow> (int \<times> string \<times> 's client) option" where
  "gkfs_readlink env c path bufsize =
     do { (r, c1) \<leftarrow> get_metadata env c path False;
          Some (case r of
                  None \<Rightarrow> (- 1, [], c1)
                | Some md \<Rightarrow>
                    if \<not> is_link md then (- 1, [], set_errno EINVAL c1)
                    else (let path_size = int (length (md_target_path md) + length (env_mountdir env))
                          in if bufsize \<le> path_size then (- 1, [], set_errno ENAMETOOLONG c1)
                             else (path_size, env_mountdir env @ md_target_path md, c1))) }"

end
