(* ===== verification/Metadata_Net.thy ===== *)
theory Metadata_Net
  imports Forward_Metadata Metadata_Backend Write_Refinement
begin

text \<open>
  Metadata of the whole system. Every daemon keeps a store that meets the contract of a metadata backend; the
  entry of a path is the one on the host the distributor names for it. The requests of the client then act on
  one map from paths to metadata objects, whatever hosts the paths lie on.
\<close>

text \<open>The network delivers, the daemons share a build and their stores are sound.\<close>

definition net_ok :: "md_config \<Rightarrow> ('s \<Rightarrow> string \<rightharpoonup> raw_entry) \<Rightarrow> 's md_net \<Rightarrow> 's gekko \<Rightarrow> bool" where
  "net_ok cfg hist net g \<longleftrightarrow> healthy_net (mn_rpc net) \<and>
     (\<forall>h. ms_cfg (mn_srv net h) = cfg \<and> ms_storage (mn_srv net h) = daemon_storage (mn_rpc net) h \<and>
        ms_rm_err (mn_srv net h) = None \<and> mdb_valid cfg (ms_api (mn_srv net h)) hist (g_meta g h))"

definition host_entry ::
    "md_config \<Rightarrow> ('s \<Rightarrow> string \<rightharpoonup> raw_entry) \<Rightarrow> 's gekko \<Rightarrow> u64 \<Rightarrow> string \<rightharpoonup> Metadata" where
  "host_entry cfg hist g h = mdb_view cfg hist (g_meta g h)"

definition net_entry ::
    "md_config \<Rightarrow> ('s \<Rightarrow> string \<rightharpoonup> raw_entry) \<Rightarrow> 's md_net \<Rightarrow> 's gekko \<Rightarrow> string \<rightharpoonup> Metadata" where
  "net_entry cfg hist net g path = host_entry cfg hist g (md_host net path 0) path"

lemma net_okD:
  assumes "net_ok cfg hist net g"
  shows "healthy_net (mn_rpc net)" "post_ok (mn_rpc net) h" "reply_ok (mn_rpc net) h" "expose_ok (mn_rpc net)"
    "ms_cfg (mn_srv net h) = cfg" "ms_storage (mn_srv net h) = daemon_storage (mn_rpc net) h"
    "ms_rm_err (mn_srv net h) = None" "mdb_valid cfg (ms_api (mn_srv net h)) hist (g_meta g h)"
  using assms by (simp_all add: net_ok_def healthy_net_def)

section \<open>One request\<close>

text \<open>A handler that leaves its store sound and changes only the entry of one path.\<close>

definition entry_step ::
    "md_config \<Rightarrow> ('s \<Rightarrow> string \<rightharpoonup> raw_entry) \<Rightarrow> 's md_net \<Rightarrow> u64 \<Rightarrow> string \<Rightarrow> Metadata option \<Rightarrow> 's gekko \<Rightarrow> 's gekko \<Rightarrow> bool" where
  "entry_step cfg hist net h path e g g' \<longleftrightarrow> net_ok cfg hist net g' \<and> g_data g' = g_data g \<and>
     (\<forall>h'. host_entry cfg hist g' h' = (if h' = h then (host_entry cfg hist g h)(path := e) else host_entry cfg hist g h'))"

lemma entry_step_net_entry:
  "entry_step cfg hist net (md_host net path 0) path e g g' \<Longrightarrow>
     net_entry cfg hist net g' = (net_entry cfg hist net g)(path := e)"
  by (rule ext) (auto simp: entry_step_def net_entry_def)

lemma entry_stepD:
  assumes "entry_step cfg hist net h path e g g'"
  shows "net_ok cfg hist net g'" "g_data g' = g_data g" "host_entry cfg hist g' h = (host_entry cfg hist g h)(path := e)"
    "h' \<noteq> h \<Longrightarrow> host_entry cfg hist g' h' = host_entry cfg hist g h'"
  using assms by (simp_all add: entry_step_def)

lemma call_meta:
  assumes "net_ok cfg hist net g" and "f (g_meta g h) = (out, m')" and "mdb_valid cfg (ms_api (mn_srv net h)) hist m'"
    and "mdb_view cfg hist m' = (host_entry cfg hist g h)(path := e)"
  shows "\<exists>g'. call (mn_rpc net) h (on_meta h f) g = (Some out, g') \<and> entry_step cfg hist net h path e g g'"
  using assms by (auto simp: call_def on_meta_def entry_step_def host_entry_def net_ok_def healthy_net_def)

lemma md_get_str_law:
  assumes "mdb_valid cfg api hist m"
  obtains m' where "mdb_view cfg hist m k = None" "md_get_str cfg api m k = (Inl NotFoundException, m')"
      "mdb_valid cfg api hist m'" "mdb_view cfg hist m' = mdb_view cfg hist m"
  | md s m' where "mdb_view cfg hist m k = Some md" "md_get_str cfg api m k = (Inr s, m')" "Metadata_parse cfg s = Inr md"
      "mdb_valid cfg api hist m'" "mdb_view cfg hist m' = mdb_view cfg hist m"
  using md_get_law [OF assms, of k]
  by (auto simp: md_get_def split: prod.splits sum.splits option.splits)

lemma Metadata_parse_c_str [simp]: "Metadata_parse cfg (c_str s) = Metadata_parse cfg s"
proof -
  have idem: "c_str (c_str s) = c_str s" by (rule c_str_id) (auto simp: c_str_def dest: set_takeWhileD)
  show ?thesis unfolding Metadata_parse_def idem ..
qed

lemma forward_stat_law:
  assumes "net_ok cfg hist net g"
  shows "\<exists>r g'. forward_stat net g path copy = (r, g') \<and>
    map_sum id (Metadata_parse cfg) r =
      (case host_entry cfg hist g (md_host net path copy) path of None \<Rightarrow> Inl ENOENT | Some md \<Rightarrow> Inr (Inr md)) \<and>
    entry_step cfg hist net (md_host net path copy) path (host_entry cfg hist g (md_host net path copy) path) g g'"
proof -
  let ?h = "md_host net path copy"
  have srv: "ms_cfg (mn_srv net ?h) = cfg" by (rule net_okD(5) [OF assms])
  show ?thesis
  proof (rule md_get_str_law [OF net_okD(8) [OF assms, of ?h], of path])
    fix m'
    assume m': "mdb_view cfg hist (g_meta g ?h) path = None"
      "md_get_str cfg (ms_api (mn_srv net ?h)) (g_meta g ?h) path = (Inl NotFoundException, m')"
      "mdb_valid cfg (ms_api (mn_srv net ?h)) hist m'" "mdb_view cfg hist m' = mdb_view cfg hist (g_meta g ?h)"
    then have "rpc_srv_stat (mn_srv net ?h) (g_meta g ?h) path = ((ENOENT, []), m')"
      using srv by (simp add: rpc_srv_stat_def)
    from call_meta [OF assms, where f = "\<lambda>m. rpc_srv_stat (mn_srv net ?h) m path", OF this m'(3), of path None] m'
    show ?thesis by (auto simp: forward_stat_def Let_def host_entry_def fun_upd_idem)
  next
    fix md s m'
    assume m': "mdb_view cfg hist (g_meta g ?h) path = Some md"
      "md_get_str cfg (ms_api (mn_srv net ?h)) (g_meta g ?h) path = (Inr s, m')" "Metadata_parse cfg s = Inr md"
      "mdb_valid cfg (ms_api (mn_srv net ?h)) hist m'" "mdb_view cfg hist m' = mdb_view cfg hist (g_meta g ?h)"
    then have "rpc_srv_stat (mn_srv net ?h) (g_meta g ?h) path = ((0, c_str s), m')"
      using srv by (simp add: rpc_srv_stat_def)
    from call_meta [OF assms, where f = "\<lambda>m. rpc_srv_stat (mn_srv net ?h) m path", OF this m'(4), of path "Some md"] m'
    show ?thesis by (auto simp: forward_stat_def Let_def host_entry_def fun_upd_idem)
  qed
qed

text \<open>What a create request stores.\<close>

definition new_entry :: "'s md_net \<Rightarrow> u64 \<Rightarrow> u32 \<Rightarrow> Metadata" where
  "new_entry net h mode = (let srv = mn_srv net h in
     stored (ms_cfg srv) (with_times (ms_times srv) (ms_now srv) (Metadata_new (ms_cfg srv) (ms_now srv) mode)))"

lemma storable_new [simp]: "storable cfg (Metadata_new cfg' now mode)"
  by (simp add: storable_def Metadata_new_def Metadata_default_def init_time_def)

lemma srv_create_law:
  assumes "net_ok cfg hist net g"
  shows "\<exists>g'. call (mn_rpc net) h (on_meta h (\<lambda>m. rpc_srv_create (mn_srv net h) m path mode)) g =
      (Some (if host_entry cfg hist g h path = None then 0 else EEXIST), g') \<and>
    entry_step cfg hist net h path (Some (case host_entry cfg hist g h path of
      None \<Rightarrow> new_entry net h mode | Some md \<Rightarrow> md)) g g'"
proof -
  have srv: "ms_cfg (mn_srv net h) = cfg" by (rule net_okD(5) [OF assms])
  let ?md = "Metadata_new cfg (ms_now (mn_srv net h)) mode"
  obtain m' where m': "md_create cfg (ms_api (mn_srv net h)) (ms_times (mn_srv net h)) (ms_now (mn_srv net h))
        (g_meta g h) path ?md =
      (if host_entry cfg hist g h path = None then None else Some (ExistsException path), m')"
    "mdb_valid cfg (ms_api (mn_srv net h)) hist m'"
    "mdb_view cfg hist m' = (if host_entry cfg hist g h path = None
      then (host_entry cfg hist g h)(path \<mapsto> new_entry net h mode) else host_entry cfg hist g h)"
    using md_create_law [OF net_okD(8) [OF assms, of h], of ?md "ms_times (mn_srv net h)" "ms_now (mn_srv net h)" path]
      srv by (auto simp: host_entry_def new_entry_def Let_def)
  have "rpc_srv_create (mn_srv net h) (g_meta g h) path mode =
      (if host_entry cfg hist g h path = None then 0 else EEXIST, m')"
    using m'(1) srv by (simp add: rpc_srv_create_def)
  from call_meta [OF assms, where f = "\<lambda>m. rpc_srv_create (mn_srv net h) m path mode", OF this m'(2)] m'(3)
  show ?thesis by (fastforce split: option.splits)
qed

text \<open>The handlers that read an entry, change it and write it back.\<close>

lemma get_update:
  assumes "net_ok cfg hist net g" and "host_entry cfg hist g h path = Some md" and "storable cfg md'"
  obtains m1 m2 where "md_get cfg (ms_api (mn_srv net h)) (g_meta g h) path = (Inr md, m1)"
    "md_update cfg (ms_api (mn_srv net h)) m1 path md' = (None, m2)" "mdb_valid cfg (ms_api (mn_srv net h)) hist m2"
    "mdb_view cfg hist m2 = (host_entry cfg hist g h)(path \<mapsto> stored cfg md')"
proof -
  obtain m1 where m1: "md_get cfg (ms_api (mn_srv net h)) (g_meta g h) path = (Inr md, m1)"
    "mdb_valid cfg (ms_api (mn_srv net h)) hist m1" "mdb_view cfg hist m1 = host_entry cfg hist g h"
    using md_get_law [OF net_okD(8) [OF assms(1), of h], of path] assms(2) by (auto simp: host_entry_def)
  obtain m2 where m2: "md_update cfg (ms_api (mn_srv net h)) m1 path md' = (None, m2)"
    "mdb_valid cfg (ms_api (mn_srv net h)) hist m2"
    "mdb_view cfg hist m2 = (host_entry cfg hist g h)(path \<mapsto> stored cfg md')"
    using md_update_law [OF m1(2) assms(3), of path] m1(3) by auto
  show thesis using that [OF m1(1) m2] .
qed

lemma srv_update_law:
  assumes "net_ok cfg hist net g" and "host_entry cfg hist g h path = Some md"
    and "md' = md\<lparr>md_blocks := (if um_block_flag inp then um_blocks inp else md_blocks md),
                   md_link_count := (if um_nlink_flag inp then um_nlink inp else md_link_count md),
                   md_size := (if um_size_flag inp then um_size inp else md_size md),
                   md_atime := (if um_atime_flag inp then um_atime inp else md_atime md),
                   md_mtime := (if um_mtime_flag inp then um_mtime inp else md_mtime md),
                   md_ctime := (if um_ctime_flag inp then um_ctime inp else md_ctime md)\<rparr>"
    and "storable cfg md'"
  shows "\<exists>g'. call (mn_rpc net) h (on_meta h (\<lambda>m. rpc_srv_update_metadentry (mn_srv net h) m path inp)) g = (Some 0, g') \<and>
    entry_step cfg hist net h path (Some (stored cfg md')) g g'"
proof -
  have srv: "ms_cfg (mn_srv net h) = cfg" by (rule net_okD(5) [OF assms(1)])
  obtain m1 m2 where m: "md_get cfg (ms_api (mn_srv net h)) (g_meta g h) path = (Inr md, m1)"
    "md_update cfg (ms_api (mn_srv net h)) m1 path md' = (None, m2)" "mdb_valid cfg (ms_api (mn_srv net h)) hist m2"
    "mdb_view cfg hist m2 = (host_entry cfg hist g h)(path \<mapsto> stored cfg md')"
    by (rule get_update [OF assms(1,2,4)])
  have "rpc_srv_update_metadentry (mn_srv net h) (g_meta g h) path inp = (0, m2)"
    using m(1,2) srv by (simp add: rpc_srv_update_metadentry_def assms(3))
  from call_meta [OF assms(1), where f = "\<lambda>m. rpc_srv_update_metadentry (mn_srv net h) m path inp", OF this m(3,4)]
  show ?thesis .
qed

lemma srv_mk_symlink_law:
  assumes "net_ok cfg hist net g" and "host_entry cfg hist g h path = Some md"
    and "md' = (if has_rename cfg \<and> md_blocks md = - 1 then md\<lparr>md_rename_path := target\<rparr> else md\<lparr>md_target_path := target\<rparr>)"
    and "storable cfg md'"
  shows "\<exists>g'. call (mn_rpc net) h (on_meta h (\<lambda>m. rpc_srv_mk_symlink (mn_srv net h) m path target)) g = (Some 0, g') \<and>
    entry_step cfg hist net h path (Some (stored cfg md')) g g'"
proof -
  have srv: "ms_cfg (mn_srv net h) = cfg" by (rule net_okD(5) [OF assms(1)])
  obtain m1 m2 where m: "md_get cfg (ms_api (mn_srv net h)) (g_meta g h) path = (Inr md, m1)"
    "md_update cfg (ms_api (mn_srv net h)) m1 path md' = (None, m2)" "mdb_valid cfg (ms_api (mn_srv net h)) hist m2"
    "mdb_view cfg hist m2 = (host_entry cfg hist g h)(path \<mapsto> stored cfg md')"
    by (rule get_update [OF assms(1,2,4)])
  have "rpc_srv_mk_symlink (mn_srv net h) (g_meta g h) path target = (0, m2)"
    using m(1,2) srv by (simp add: rpc_srv_mk_symlink_def assms(3) Let_def)
  from call_meta [OF assms(1), where f = "\<lambda>m. rpc_srv_mk_symlink (mn_srv net h) m path target", OF this m(3,4)]
  show ?thesis .
qed

end
