(* ===== verification/Client_Metadata_Proofs.thy ===== *)
theory Client_Metadata_Proofs
  imports Gkfs_Files Metadata_Net
begin

text \<open>
  File operations of the client on the map of metadata entries: lookups, creation and rename without
  replicas and without the directory cache.
\<close>

definition plain_client :: "md_config \<Rightarrow> ('s \<Rightarrow> string \<rightharpoonup> raw_entry) \<Rightarrow> 's cl_env \<Rightarrow> 's client \<Rightarrow> bool" where
  "plain_client cfg hist env c \<longleftrightarrow> env_cfg env = cfg \<and> env_replicas env = 0 \<and> \<not> env_use_dentry env \<and>
     net_ok cfg hist (env_net env) (cl_sys c)"

definition client_entry :: "md_config \<Rightarrow> ('s \<Rightarrow> string \<rightharpoonup> raw_entry) \<Rightarrow> 's cl_env \<Rightarrow> 's client \<Rightarrow> string \<rightharpoonup> Metadata" where
  "client_entry cfg hist env c = net_entry cfg hist (env_net env) (cl_sys c)"

lemmas client_defs = plain_client_def client_entry_def

lemma copy_range_0 [simp]: "copy_range 0 = [0]"
  by (simp add: copy_range_def)

text \<open>What lookups may change: nothing the operations can see but \<open>errno\<close>.\<close>

definition same_client :: "md_config \<Rightarrow> ('s \<Rightarrow> string \<rightharpoonup> raw_entry) \<Rightarrow> 's cl_env \<Rightarrow> 's client \<Rightarrow> 's client \<Rightarrow> bool" where
  "same_client cfg hist env c c' \<longleftrightarrow> plain_client cfg hist env c' \<and>
     client_entry cfg hist env c' = client_entry cfg hist env c \<and>
     host_entry cfg hist (cl_sys c') = host_entry cfg hist (cl_sys c) \<and> g_data (cl_sys c') = g_data (cl_sys c) \<and>
     cl_map c' = cl_map c \<and> cl_heap c' = cl_heap c"

lemma same_client_trans:
  "same_client cfg hist env c c1 \<Longrightarrow> same_client cfg hist env c1 c2 \<Longrightarrow> same_client cfg hist env c c2"
  by (simp add: same_client_def)

lemma get_metadata_law:
  assumes "plain_client cfg hist env c"
    and "\<not> follow \<or> (\<forall>md. client_entry cfg hist env c path = Some md \<longrightarrow> \<not> is_link md)"
  shows "\<exists>c'. get_metadata env c path follow = Some (client_entry cfg hist env c path, c') \<and>
    same_client cfg hist env c c' \<and> (client_entry cfg hist env c path = None \<longrightarrow> cl_errno c' = ENOENT)"
proof -
  let ?net = "env_net env"
  have ok: "net_ok cfg hist ?net (cl_sys c)" using assms(1) by (simp add: plain_client_def)
  obtain r g' where r: "forward_stat ?net (cl_sys c) path 0 = (r, g')"
    "map_sum id (Metadata_parse cfg) r =
      (case client_entry cfg hist env c path of None \<Rightarrow> Inl ENOENT | Some md \<Rightarrow> Inr (Inr md))"
    and st: "entry_step cfg hist ?net (md_host ?net path 0) path (client_entry cfg hist env c path) (cl_sys c) g'"
    using forward_stat_law [OF ok, of path 0] by (auto simp: client_entry_def net_entry_def)
  have "host_entry cfg hist g' = host_entry cfg hist (cl_sys c)"
    using st by (simp add: entry_step_def client_entry_def net_entry_def fun_upd_idem fun_eq_iff)
  note e = this entry_step_net_entry [OF st] entry_stepD(1,2) [OF st]
  have same: "same_client cfg hist env c (set_errno x (c\<lparr>cl_sys := g'\<rparr>))" "same_client cfg hist env c (c\<lparr>cl_sys := g'\<rparr>)" for x
    using e assms(1) by (simp_all add: same_client_def client_defs set_errno_def fun_upd_idem)
  show ?thesis
  proof (cases "client_entry cfg hist env c path")
    case None
    then have "r = Inl ENOENT" using r(2) by (cases r) auto
    then show ?thesis using None r(1) assms(1) same(1) [of ENOENT]
      by (auto simp: get_metadata_def Let_def plain_client_def set_errno_def)
  next
    case (Some md)
    then obtain s where s: "r = Inr s" "Metadata_parse cfg s = Inr md" using r(2) by (cases r) auto
    then have "parsed env s = Some md" using assms(1) by (simp add: parsed_def plain_client_def)
    moreover have "follow \<Longrightarrow> \<not> is_link md" using Some assms(2) by blast
    ultimately show ?thesis using Some s(1) r(1) assms(1) same(2)
      by (cases follow) (auto simp: get_metadata_def Let_def plain_client_def follow_md.simps)
  qed
qed

text \<open>Entries are what parsing gives back.\<close>

lemma host_entry_stored:
  assumes "net_ok cfg hist net g" and "host_entry cfg hist g h path = Some md"
  shows "stored cfg md = md" and "storable cfg md"
proof -
  obtain r md0 ops where "hist (mdb_state (g_meta g h)) path = Some r" "entry_of cfg r md0 ops"
    "md = stored cfg (apply_operands ops md0)"
    using assms by (metis view_entryE net_okD(8) host_entry_def)
  then show "stored cfg md = md" "storable cfg md" using entry_storable(1) by auto
qed

section \<open>Rename\<close>

lemma new_entry_fields:
  "md_mode (new_entry net h mode) = mode" "md_blocks (new_entry net h mode) = 0" "md_size (new_entry net h mode) = 0"
  "md_target_path (new_entry net h mode) = []" "md_rename_path (new_entry net h mode) = []"
  by (simp_all add: new_entry_def Let_def stored_def with_times_def Metadata_new_def init_time_def Metadata_default_def
      split: prod.splits)

lemma stored_blocks: "use_blocks cfg \<Longrightarrow> stored cfg (md\<lparr>md_blocks := b\<rparr>) = (stored cfg md)\<lparr>md_blocks := b\<rparr>"
  by (simp add: stored_def)

lemma stored_rename:
  "has_symlinks cfg \<Longrightarrow> has_rename cfg \<Longrightarrow> stored cfg (md\<lparr>md_rename_path := p\<rparr>) = (stored cfg md)\<lparr>md_rename_path := p\<rparr>"
  by (simp add: stored_def)

lemma forward_rename_law:
  assumes ok: "net_ok cfg hist net g" and old: "net_entry cfg hist net g old = Some md"
    and new: "net_entry cfg hist net g new = None" and ne: "old \<noteq> new"
    and cfg: "has_symlinks cfg" "has_rename cfg" "use_blocks cfg"
    and names: "NUL \<notin> set old" "NUL \<notin> set new" "MSP \<notin> set new"
  shows "\<exists>g' md2. forward_rename net g old new md = (0, g') \<and> net_ok cfg hist net g' \<and> g_data g' = g_data g \<and>
    net_entry cfg hist net g' = (net_entry cfg hist net g)
      (old \<mapsto> md\<lparr>md_blocks := - 1, md_rename_path := new\<rparr>, new \<mapsto> md2) \<and>
    md_mode md2 = md_mode md \<and> md_blocks md2 = 0 \<and> md_target_path md2 = old"
proof -
  let ?h = "md_host net old 0" and ?h2 = "md_host net new 0"
  let ?md1 = "md\<lparr>md_blocks := - 1\<rparr>" and ?md3 = "md\<lparr>md_blocks := - 1, md_rename_path := new\<rparr>"
  have e: "host_entry cfg hist g ?h old = Some md" using old by (simp add: net_entry_def)
  note st = host_entry_stored [OF ok e]
  have s1: "storable cfg ?md1" "stored cfg ?md1 = ?md1" "storable cfg ?md3" "stored cfg ?md3 = ?md3"
    using st names cfg by (simp_all add: storable_def stored_blocks stored_rename NUL_def)
  obtain g1 where g1: "call (mn_rpc net) ?h (on_meta ?h (\<lambda>m. rpc_srv_update_metadentry (mn_srv net ?h) m old
      (rename_request md))) g = (Some 0, g1)" "entry_step cfg hist net ?h old (Some ?md1) g g1"
    using srv_update_law [OF ok e, of ?md1 "rename_request md"] s1 by (auto simp: rename_request_def)
  note n1 = entry_step_net_entry [OF g1(2)]
  have "host_entry cfg hist g1 ?h2 new = None" using n1 new ne by (metis fun_upd_apply net_entry_def)
  then obtain g2 where g2: "call (mn_rpc net) ?h2 (on_meta ?h2 (\<lambda>m. rpc_srv_create (mn_srv net ?h2) m new (md_mode md))) g1 =
      (Some 0, g2)" "entry_step cfg hist net ?h2 new (Some (new_entry net ?h2 (md_mode md))) g1 g2"
    using srv_create_law [OF entry_stepD(1) [OF g1(2)], of ?h2 new "md_mode md"] by auto
  note n2 = entry_step_net_entry [OF g2(2)]
  let ?md2 = "(new_entry net ?h2 (md_mode md))\<lparr>md_target_path := old\<rparr>"
  have "host_entry cfg hist g2 ?h2 new = Some (new_entry net ?h2 (md_mode md))" using n2 by (metis fun_upd_same net_entry_def)
  moreover have "storable cfg ?md2" using names(1) by (simp add: storable_def new_entry_fields NUL_def)
  ultimately obtain g3 where g3: "call (mn_rpc net) ?h2 (on_meta ?h2 (\<lambda>m. rpc_srv_mk_symlink (mn_srv net ?h2) m new old)) g2 =
      (Some 0, g3)" "entry_step cfg hist net ?h2 new (Some (stored cfg ?md2)) g2 g3"
    using srv_mk_symlink_law [OF entry_stepD(1) [OF g2(2)], of ?h2 new "new_entry net ?h2 (md_mode md)" ?md2 old]
    by (auto simp: new_entry_fields)
  note n3 = entry_step_net_entry [OF g3(2)]
  have "host_entry cfg hist g3 ?h old = Some ?md1" using n1 n2 n3 ne by (metis fun_upd_apply net_entry_def)
  then obtain g4 where g4: "call (mn_rpc net) ?h (on_meta ?h (\<lambda>m. rpc_srv_mk_symlink (mn_srv net ?h) m old new)) g3 =
      (Some 0, g4)" "entry_step cfg hist net ?h old (Some ?md3) g3 g4"
    using srv_mk_symlink_law [OF entry_stepD(1) [OF g3(2)], of ?h old ?md1 ?md3 new] s1(3,4) cfg(2) by auto
  note n4 = entry_step_net_entry [OF g4(2)]
  have "net_entry cfg hist net g4 = (net_entry cfg hist net g)(old \<mapsto> ?md3, new \<mapsto> stored cfg ?md2)"
    using n1 n2 n3 n4 ne by (simp add: fun_upd_twist)
  moreover have "g_data g4 = g_data g" using g1(2) g2(2) g3(2) g4(2) by (simp add: entry_step_def)
  ultimately show ?thesis
    using g1(1) g2(1) g3(1) g4 cfg entry_stepD(1) [OF g4(2)]
    by (intro exI [of _ g4] exI [of _ "stored cfg ?md2"]) (simp add: forward_rename_def Let_def stored_def new_entry_fields)
qed

end
