(* ===== verification/Sample_Client.thy ===== *)
theory Sample_Client
  imports Client_Metadata_Proofs Sample_Store Sample_Cluster
begin

text \<open>
  A client of six daemons, each with a store of \<open>Sample_Store\<close>, that has one file open: instances on which
  the hypotheses about network and stores hold.
\<close>

definition sample_md_srv :: "u64 \<Rightarrow> sample_db md_srv" where
  "sample_md_srv h = \<lparr>ms_cfg = sample_config, ms_api = sample_rocksdb sample_config, ms_times = (False, False, False),
     ms_now = 7, ms_merge_id = 1, ms_storage = daemon_storage sample_net h, ms_rm_err = None\<rparr>"

definition sample_md_net :: "sample_db md_net" where
  "sample_md_net = \<lparr>mn_rpc = sample_net, mn_srv = sample_md_srv,
     mn_dirents = (\<lambda>_. \<lparr>de_get_input_ok = True, de_bulk_create_ok = True, de_bulk_access_ok = True, de_bulk_push_ok = True\<rparr>),
     mn_locate_md = (\<lambda>_ copy. if copy = 0 then 0 else 1), mn_locate_data = sample_hosts,
     mn_dir_targets = [0, 1], mn_hosts_size = 6\<rparr>"

definition sample_env :: "nat \<Rightarrow> sample_db cl_env" where
  "sample_env replicas = \<lparr>env_net = sample_md_net, env_csz = 524288, env_bulk = sample_bulk, env_cfg = sample_config,
     env_check_parents = False, env_replicas = replicas, env_use_dentry = False, env_use_wsize = False,
     env_hash = (\<lambda>_. 0), env_draws = (\<lambda>_ _. []), env_buffer = (\<lambda>_. []),
     env_conf = \<lparr>fs_uid = 0, fs_gid = 0, atime_state = False, mtime_state = False, ctime_state = False,
       link_cnt_state = False, blocks_state = False\<rparr>,
     env_mountdir = ''/mnt'', env_internal_fd = (\<lambda>_. False), env_statfs = (\<lambda>_. Inl 5)\<rparr>"

text \<open>The file \<open>/d/f\<close> of \<open>Sample_Store\<close> lies on host 0 and is open as descriptor 10000.\<close>

definition sample_sys :: "sample_db gekko" where
  "sample_sys = \<lparr>g_data = (\<lambda>_. Map.empty), g_meta = (\<lambda>h. if h = 0 then sample_mdb1 else sample_mdb)\<rparr>"

definition sample_client :: "u32 \<Rightarrow> sample_db client" where
  "sample_client flags = \<lparr>cl_sys = sample_sys, cl_map = \<lparr>files = [(10000, 0)], fd_idx = 10001, fd_validation_needed = False\<rparr>,
     cl_heap = [OpenFile_new ''/d/f'' flags Regular], cl_dentry = DentryCache_new,
     cl_wsize = \<lparr>size_cache = [], flush_threshold = 1000\<rparr>, cl_errno = 0\<rparr>"

lemma sample_env_sel [simp]:
  "env_net (sample_env n) = sample_md_net" "env_csz (sample_env n) = 524288" "env_bulk (sample_env n) = sample_bulk"
  "env_cfg (sample_env n) = sample_config" "env_replicas (sample_env n) = n" "\<not> env_use_dentry (sample_env n)"
  "\<not> env_use_wsize (sample_env n)" "renames (sample_env n)" "\<not> blocks_state (env_conf (sample_env n))"
  by (simp_all add: sample_env_def renames_def sample_config_def)

lemma sample_md_net_sel [simp]:
  "mn_rpc sample_md_net = sample_net" "mn_locate_data sample_md_net = sample_hosts" "mn_hosts_size sample_md_net = 6"
  "mn_srv sample_md_net = sample_md_srv"
  by (simp_all add: sample_md_net_def)

lemma sample_md_net_locate: "mn_locate_md sample_md_net path copy = (if copy = 0 then 0 else 1)"
  by (simp add: sample_md_net_def)

lemma sample_config_sel [simp]: "use_blocks sample_config" "has_symlinks sample_config" "has_rename sample_config"
  by (simp_all add: sample_config_def)

lemma sample_md_sel [simp]:
  "md_mode sample_md = 33188" "md_size sample_md = 100" "md_blocks sample_md = 0" "md_target_path sample_md = []"
  "\<not> is_link sample_md" "\<not> moved_away sample_md" "S_ISREG 33188"
  by (simp_all add: sample_md_def Metadata_default_def is_link_def S_ISLNK_def S_ISREG_def moved_away_def)

lemma sample_net_ok [simp]: "net_ok sample_config map_of sample_md_net sample_sys"
  by (auto simp: net_ok_def sample_md_net_def sample_md_srv_def sample_sys_def sample_mdb1_valid sample_mdb_valid)

lemma sample_plain_client [simp]: "plain_client sample_config map_of (sample_env 0) (sample_client flags)"
  by (simp add: plain_client_def sample_env_def sample_client_def)

lemma sample_entries:
  "net_entry sample_config map_of sample_md_net sample_sys = [''/d/f'' \<mapsto> sample_md]"
  using sample_mdb1_valid
  by (auto simp: net_entry_def host_entry_def md_host_def sample_md_net_def sample_sys_def)

lemma sample_entry [simp]:
  "client_entry sample_config map_of (sample_env n) (sample_client flags) = [''/d/f'' \<mapsto> sample_md]"
  using sample_entries by (simp add: client_entry_def sample_env_def sample_client_def)

lemma sample_client_sel:
  "fm_get (cl_map (sample_client flags)) 10000 = Some 0" "cl_heap (sample_client flags) = [OpenFile_new ''/d/f'' flags Regular]"
  "of_type (OpenFile_new p flags ty) = ty" "of_path (OpenFile_new p flags ty) = p" "of_pos (OpenFile_new p flags ty) = 0"
  "\<not> get_flag (OpenFile_new p 0 ty) Append" "get_flag (OpenFile_new p O_APPEND ty) Append"
  by (simp_all add: sample_client_def fm_get_def OpenFile_new_def get_flag_def O_APPEND_def)

lemma sample_fresh: "fresh_id map_of (g_meta (cl_sys (sample_client flags)) (md_host sample_md_net ''/d/f'' 0)) ''/d/f'' merge_id"
  using sample_fresh_id by (simp add: sample_client_def sample_sys_def md_host_def sample_md_net_def)

end
