(* ===== verification/Client_IO_Proofs.thy ===== *)
theory Client_IO_Proofs
  imports Client_Metadata_Proofs Read_Refinement
begin

text \<open>
  Writing and reading through descriptors: the size update reaches the daemons, the data follows at the offset
  the update gave, and a read of the same range finds it.
\<close>

section \<open>Size updates\<close>

lemma gather_size_updates_ok:
  "None \<notin> set hs \<Longrightarrow> fst (gather_size_updates hs 0 valid sz) = 0"
  by (induction hs arbitrary: valid sz) (auto split: option.splits)

text \<open>On a network that delivers, no error of a daemon reaches the caller.\<close>

lemma forward_update_size_silent:
  assumes "healthy_net (mn_rpc net)"
  shows "fst (fst (forward_update_metadentry_size net g path sz offset app nc)) = 0"
    and "g_data (snd (forward_update_metadentry_size net g path sz offset app nc)) = g_data g"
proof -
  have "\<exists>hs g'. post_size_updates net path sz offset app cs g = (Some hs, g') \<and> None \<notin> set hs \<and> g_data g' = g_data g" for cs
  proof (induction cs arbitrary: g)
    case (Cons copy cs)
    let ?h = "md_host net path copy"
    have ok: "post_ok (mn_rpc net) ?h" "reply_ok (mn_rpc net) ?h" using assms by (simp_all add: healthy_net_def)
    obtain out m' where f: "rpc_srv_update_metadentry_size (mn_srv net ?h) (g_meta g ?h) path sz offset app = (out, m')"
      by fastforce
    obtain hs g' where "post_size_updates net path sz offset app cs (g\<lparr>g_meta := (g_meta g)(?h := m')\<rparr>) = (Some hs, g')"
      "None \<notin> set hs" "g_data g' = g_data g" using Cons.IH [of "g\<lparr>g_meta := (g_meta g)(?h := m')\<rparr>"] by auto
    then show ?case using ok f by (simp add: Let_def call_def on_meta_def)
  qed simp
  then obtain hs g' where "post_size_updates net path sz offset app (copy_range nc) g = (Some hs, g')"
    "None \<notin> set hs" "g_data g' = g_data g" by metis
  then show "fst (fst (forward_update_metadentry_size net g path sz offset app nc)) = 0"
    "g_data (snd (forward_update_metadentry_size net g path sz offset app nc)) = g_data g"
    by (simp_all add: forward_update_metadentry_size_def gather_size_updates_ok)
qed

lemma srv_update_size:
  assumes "net_ok cfg hist net g" and "net_entry cfg hist net g path = Some md"
    and "r = (if app then md_size md else - 1)"
    and "md' = (if app then md\<lparr>md_size := md_size md + sz\<rparr>
           else touched cfg (ms_now (mn_srv net (md_host net path 0))) (md\<lparr>md_size := max (offset + sz) (md_size md)\<rparr>))"
    and "storable cfg (md\<lparr>md_size := (if app then md_size md + sz else max (offset + sz) (md_size md))\<rparr>)"
    and "app \<Longrightarrow> fresh_id hist (g_meta g (md_host net path 0)) path (ms_merge_id (mn_srv net (md_host net path 0)))"
  shows "\<exists>g'. forward_update_metadentry_size net g path sz offset app 0 = ((0, r), g') \<and>
    entry_step cfg hist net (md_host net path 0) path (Some (stored cfg md')) g g'"
proof -
  let ?h = "md_host net path 0"
  let ?srv = "mn_srv net ?h"
  have srv: "ms_cfg ?srv = cfg" by (rule net_okD(5) [OF assms(1)])
  note v = net_okD(8) [OF assms(1), of ?h]
  have e: "mdb_view cfg hist (g_meta g ?h) path = Some md" using assms(2) by (simp add: net_entry_def host_entry_def)
  obtain m' where m': "md_update_size cfg (ms_api ?srv) (g_meta g ?h) (ms_merge_id ?srv) (ms_now ?srv) path sz offset app = (Inr r, m')"
    "mdb_valid cfg (ms_api ?srv) hist m'" "mdb_view cfg hist m' = (host_entry cfg hist g ?h)(path \<mapsto> stored cfg md')"
    using md_append_law [OF v e, of sz "ms_merge_id ?srv" "ms_now ?srv" offset]
      md_update_size_law [OF v e, of offset sz "ms_merge_id ?srv" "ms_now ?srv"] assms(3-6)
    by (cases app) (auto simp: host_entry_def)
  then have "rpc_srv_update_metadentry_size ?srv (g_meta g ?h) path sz offset app = ((0, r), m')"
    using srv by (simp add: rpc_srv_update_metadentry_size_def)
  from call_meta [OF assms(1), where f = "\<lambda>m. rpc_srv_update_metadentry_size ?srv m path sz offset app", OF this m'(2,3)]
  show ?thesis using net_okD(2) [OF assms(1), of ?h]
    by (auto simp: forward_update_metadentry_size_def Let_def)
qed

section \<open>Data\<close>

text \<open>What a write needs of the range, the buffers and the network.\<close>

definition io_ok :: "'s cl_env \<Rightarrow> string \<Rightarrow> bytes \<Rightarrow> u64 \<Rightarrow> u64 \<Rightarrow> bool" where
  "io_ok env path buf offset cnt \<longleftrightarrow> plain_range (env_csz env) offset cnt \<and> range_pieces (env_csz env) offset cnt \<le> 65536 \<and>
     bulk_copies (env_bulk env) \<and> healthy_net (mn_rpc (env_net env)) \<and> unat cnt \<le> length buf \<and>
     replicas_apart (mn_locate_data (env_net env)) path (env_replicas env) \<and> unat cnt < 2 ^ 31"

text \<open>The two writes of a request on the chunk files of the cluster.\<close>

definition written :: "'s cl_env \<Rightarrow> cluster \<Rightarrow> string \<Rightarrow> bytes \<Rightarrow> u64 \<Rightarrow> u64 \<Rightarrow> cluster" where
  "written env cl path buf offset cnt =
     (let net = env_net env;
          fw = (\<lambda>cl nc. snd (forward_write (env_csz env) (mn_hosts_size net) (mn_locate_data net) (mn_rpc net) (env_bulk env)
             cl path buf offset cnt nc))
      in if 0 < env_replicas env then fw (fw cl 0) (env_replicas env) else fw cl 0)"

lemma small_int:
  assumes "unat (cnt :: u64) < 2 ^ 31"
  shows "sint (ucast cnt :: u32) = int (unat cnt)" and "(scast (ucast cnt :: u32) :: u64) = cnt" and "sint cnt = int (unat cnt)"
proof -
  let ?n = "unat cnt"
  have lt: "int ?n < 2 ^ 31"
    using assms unfolding of_nat_less_iff [where 'a = int, symmetric] by (simp del: of_nat_less_iff)
  have ge: "- (2 ^ 31) \<le> int ?n" by (rule order_trans [OF _ of_nat_0_le_iff]) simp
  note s = signed_take_bit_int_eq_self [OF ge lt]
  show a: "sint (ucast cnt :: u32) = int ?n" using s by (simp add: signed_ucast_eq)
  show "sint cnt = int ?n" using assms by (intro sint_small) simp
  show "(scast (ucast cnt :: u32) :: u64) = cnt" unfolding scast_eq a by simp
qed

lemma forward_write_done:
  assumes "io_ok env path buf offset cnt" and "nc = 0 \<or> nc = env_replicas env"
  shows "fst (forward_write (env_csz env) (mn_hosts_size (env_net env)) (mn_locate_data (env_net env)) (mn_rpc (env_net env))
    (env_bulk env) cl path buf offset cnt nc) = (0, cnt)"
proof -
  have "replicas_apart (mn_locate_data (env_net env)) path nc" using assms by (auto simp: io_ok_def)
  then show ?thesis using forward_write_cluster(1) [OF _ _ _ _ _ _ surjective_pairing] assms(1) by (auto simp: io_ok_def)
qed

text \<open>A write at a known offset: it reports all bytes and leaves the chunks of the two writes.\<close>

lemma gkfs_do_write_at:
  assumes "of_type (cl_heap c ! f) = Regular" and "of_path (cl_heap c ! f) = path"
    and "report_size env path cnt offset (get_flag (cl_heap c ! f) Append) c = (Inr offset', c1)"
    and "io_ok env path buf offset' cnt"
  shows "gkfs_do_write env c f buf cnt offset update_pos = (int (unat cnt),
    (let c2 = c1\<lparr>cl_sys := (cl_sys c1)\<lparr>g_data := written env (g_data (cl_sys c1)) path buf offset' cnt\<rparr>\<rparr>
     in if update_pos then move_pos f (offset' + cnt) c2 else c2))"
proof -
  have small: "unat cnt < 2 ^ 31" using assms(4) by (simp add: io_ok_def)
  note i = small_int [OF small]
  have w: "write_data env path buf offset' cnt nc c =
      ((0, cnt), c\<lparr>cl_sys := (cl_sys c)\<lparr>g_data := snd (forward_write (env_csz env) (mn_hosts_size (env_net env))
         (mn_locate_data (env_net env)) (mn_rpc (env_net env)) (env_bulk env) (g_data (cl_sys c)) path buf offset' cnt nc)\<rparr>\<rparr>)"
    if "nc = 0 \<or> nc = env_replicas env" for nc c
    using forward_write_done [OF assms(4) that] by (simp add: write_data_def Let_def case_prod_beta prod_eq_iff)
  show ?thesis
    using assms(1-3) i by (simp add: gkfs_do_write_def Let_def w written_def)
qed

lemma gkfs_pread_back:
  assumes "fm_get (cl_map c) fd = Some f" and "of_type (cl_heap c ! f) = Regular" and "of_path (cl_heap c ! f) = path"
    and "io_ok env path buf offset cnt" and "unat cnt \<le> length dst"
    and "g_data (cl_sys c) = written env cl path buf offset cnt"
  shows "gkfs_pread env c fd dst cnt offset = Some (int (unat cnt), take (unat cnt) buf @ drop (unat cnt) dst, c)"
proof -
  let ?net = "env_net env"
  note io = assms(4) [unfolded io_ok_def]
  have "holds_range (env_csz env) (mn_rpc ?net) (g_data (cl_sys c))
      (all_copies (mn_locate_data ?net) path (env_replicas env)) path offset cnt buf"
  proof (cases "env_replicas env = 0")
    case True
    then show ?thesis using io assms(6) single_write_holds [of "env_csz env" offset cnt "env_bulk env" "mn_rpc ?net" buf
        "mn_hosts_size ?net" "mn_locate_data ?net" cl path, OF _ _ _ _ _ surjective_pairing] by (simp add: written_def Let_def)
  next
    case False
    then show ?thesis using io assms(6) replicated_write_holds [of "env_csz env" offset cnt "env_bulk env" "mn_rpc ?net" buf
        "mn_locate_data ?net" path "env_replicas env", OF _ _ _ _ _ _ surjective_pairing surjective_pairing]
      by (simp add: written_def Let_def)
  qed
  then have "forward_read (env_csz env) (mn_hosts_size ?net) (mn_locate_data ?net) (mn_rpc ?net) (env_bulk env)
      (g_data (cl_sys c)) path dst offset cnt (env_replicas env) [] draws =
    Some ((0, cnt), take (unat cnt) buf @ drop (unat cnt) dst, [])" for draws
    using io assms(5) by (intro held_range_read) auto
  then have "read_retry env (g_data (cl_sys c)) path offset cnt 0 [] dst = Some ((0, cnt), take (unat cnt) buf @ drop (unat cnt) dst)"
    by (subst read_retry.simps) simp
  then show ?thesis using assms(1-3) small_int(3) [of cnt] io by (simp add: gkfs_pread_def gkfs_read_ws_def gkfs_do_read_def)
qed

end
