(* ===== verification/Remove_Proofs.thy ===== *)
theory Remove_Proofs
  imports Metadata_Net
begin

text \<open>
  Removing a file: the entries of all its copies go first, then its chunk directories on every host that may
  hold a chunk.
\<close>

text \<open>The chunk files of the cluster without the directories of one path on some hosts.\<close>

definition wipe :: "rpc_env \<Rightarrow> string \<Rightarrow> u64 set \<Rightarrow> cluster \<Rightarrow> cluster" where
  "wipe env path hs cl h =
     (if h \<in> hs then (cl h)(absolute (daemon_storage env h) (get_chunks_dir path) := None) else cl h)"

lemma wipe_simps [simp]:
  "wipe env path {} cl = cl"
  "wipe env path hs (wipe env path hs' cl) = wipe env path (hs \<union> hs') cl"
  by (auto simp: wipe_def fun_eq_iff)

lemma daemon_chunk_wipe:
  "daemon_chunk env (wipe env path hs cl) h q c =
     (if h \<in> hs \<and> get_chunks_dir q = get_chunks_dir path then [] else daemon_chunk env cl h q c)"
  by (simp add: daemon_chunk_def chunk_bytes_def chunk_content_eq wipe_def)

lemma remove_data_loop_law:
  assumes "net_ok cfg hist net g"
  shows "remove_data_loop net path hs 0 g = (0, g\<lparr>g_data := wipe (mn_rpc net) path (set hs) (g_data g)\<rparr>)"
  using assms
proof (induction hs arbitrary: g)
  case (Cons h hs)
  let ?g = "g\<lparr>g_data := wipe (mn_rpc net) path {h} (g_data g)\<rparr>"
  have "call (mn_rpc net) h (on_data h (\<lambda>fs. rpc_srv_remove_data (mn_srv net h) fs path)) g = (Some 0, ?g)"
    using net_okD(2,3,6,7) [OF Cons.prems, of h]
    by (simp add: call_def on_data_def rpc_srv_remove_data_def limbo_mode_def destroy_chunk_space_def Let_def wipe_def fun_eq_iff
        fun_upd_def)
  moreover have "net_ok cfg hist net ?g" using Cons.prems by (simp add: net_ok_def)
  ultimately show ?case using net_okD(2) [OF Cons.prems, of h] Cons.IH [of ?g] by simp
qed simp

lemma srv_remove_law:
  assumes "net_ok cfg hist net g" and "host_entry cfg hist g h path = Some md" and "S_ISREG (md_mode md)"
  shows "\<exists>g'. call (mn_rpc net) h (on_both h (\<lambda>m fs. rpc_srv_remove_metadata (mn_srv net h) m fs path False)) g =
      (Some \<lparr>rm_err = 0, rm_size = md_size md, rm_mode = md_mode md\<rparr>, g') \<and> net_ok cfg hist net g' \<and>
    g_data g' = (if md_size md = 0 then g_data g else wipe (mn_rpc net) path {h} (g_data g)) \<and>
    (\<forall>h'. host_entry cfg hist g' h' = (if h' = h then (host_entry cfg hist g h)(path := None) else host_entry cfg hist g h'))"
proof -
  note n = net_okD(2,3,5-8) [OF assms(1), of h]
  have nd: "\<not> S_ISDIR (md_mode md)" using assms(3) by (simp add: S_ISREG_def S_ISDIR_def)
  obtain m1 where m1: "md_get cfg (ms_api (mn_srv net h)) (g_meta g h) path = (Inr md, m1)"
    "mdb_valid cfg (ms_api (mn_srv net h)) hist m1" "mdb_view cfg hist m1 = host_entry cfg hist g h"
    using md_get_law [OF n(6), of path] assms(2) by (auto simp: host_entry_def)
  obtain m2 where m2: "md_remove (ms_api (mn_srv net h)) m1 path = (None, m2)"
    "mdb_valid cfg (ms_api (mn_srv net h)) hist m2" "mdb_view cfg hist m2 = (host_entry cfg hist g h)(path := None)"
    using md_remove_law [OF m1(2), of path] m1(3) by auto
  let ?fs = "if md_size md = 0 then g_data g h else wipe (mn_rpc net) path {h} (g_data g) h"
  have "rpc_srv_remove_metadata (mn_srv net h) (g_meta g h) (g_data g h) path False =
      (\<lparr>rm_err = 0, rm_size = md_size md, rm_mode = md_mode md\<rparr>, m2, ?fs)"
    using m1(1) m2(1) n(3-5) nd assms(3)
    by (simp add: rpc_srv_remove_metadata_def Let_def destroy_chunk_space_def wipe_def)
  then have "call (mn_rpc net) h (on_both h (\<lambda>m fs. rpc_srv_remove_metadata (mn_srv net h) m fs path False)) g =
      (Some \<lparr>rm_err = 0, rm_size = md_size md, rm_mode = md_mode md\<rparr>,
       \<lparr>g_data = (g_data g)(h := ?fs), g_meta = (g_meta g)(h := m2)\<rparr>)"
    using n(1,2) by (simp add: call_def on_both_def)
  moreover have "(g_data g)(h := ?fs) = (if md_size md = 0 then g_data g else wipe (mn_rpc net) path {h} (g_data g))"
    by (auto simp: wipe_def fun_eq_iff)
  ultimately show ?thesis using assms(1) m2(2,3) by (auto simp: net_ok_def host_entry_def)
qed

lemma remove_metadata_loop_law:
  assumes "net_ok cfg hist net g" and "\<And>copy. copy \<in> set cs \<Longrightarrow> host_entry cfg hist g (md_host net path copy) path = Some md"
    and "S_ISREG (md_mode md)" and "distinct (map (md_host net path) cs)"
  shows "\<exists>g'. remove_metadata_loop net path False cs sm g = (Inr (if cs = [] then sm else (md_size md, md_mode md)), g') \<and>
    net_ok cfg hist net g' \<and>
    g_data g' = (if md_size md = 0 then g_data g else wipe (mn_rpc net) path (md_host net path ` set cs) (g_data g)) \<and>
    (\<forall>h. host_entry cfg hist g' h =
       (if h \<in> md_host net path ` set cs then (host_entry cfg hist g h)(path := None) else host_entry cfg hist g h))"
  using assms(1,2,4)
proof (induction cs arbitrary: sm g)
  case (Cons copy cs)
  let ?h = "md_host net path copy"
  have "host_entry cfg hist g ?h path = Some md" using Cons.prems(2) by simp
  then obtain g1 where g1: "call (mn_rpc net) ?h (on_both ?h (\<lambda>m fs. rpc_srv_remove_metadata (mn_srv net ?h) m fs path False)) g =
      (Some \<lparr>rm_err = 0, rm_size = md_size md, rm_mode = md_mode md\<rparr>, g1)" "net_ok cfg hist net g1"
    "g_data g1 = (if md_size md = 0 then g_data g else wipe (mn_rpc net) path {?h} (g_data g))"
    "\<And>h'. host_entry cfg hist g1 h' = (if h' = ?h then (host_entry cfg hist g ?h)(path := None) else host_entry cfg hist g h')"
    using srv_remove_law [OF Cons.prems(1) _ assms(3)] by blast
  have "host_entry cfg hist g1 (md_host net path copy') path = Some md" if "copy' \<in> set cs" for copy'
    using that Cons.prems(2,3) g1(4) by (auto simp: image_iff)
  from Cons.IH [OF g1(2) this, of "(md_size md, md_mode md)"] Cons.prems(3)
  obtain g' where "remove_metadata_loop net path False cs (md_size md, md_mode md) g1 =
      (Inr (md_size md, md_mode md), g')" "net_ok cfg hist net g'"
    "g_data g' = (if md_size md = 0 then g_data g1 else wipe (mn_rpc net) path (md_host net path ` set cs) (g_data g1))"
    "\<And>h. host_entry cfg hist g' h =
       (if h \<in> md_host net path ` set cs then (host_entry cfg hist g1 h)(path := None) else host_entry cfg hist g1 h)"
    unfolding if_cancel distinct.simps list.map by blast
  then show ?case using g1 by (auto simp: Let_def Un_commute)
qed (use assms(1) in simp)

section \<open>The hosts of a file\<close>

lemma in_chunk_range: "c \<in> set (chunk_range 0 e) \<longleftrightarrow> c \<le> e"
proof -
  have "c \<in> set (chunk_range 0 e) \<longleftrightarrow> (\<exists>n \<le> unat e. c = of_nat n)"
    unfolding chunk_range_def set_map set_upt image_iff Bex_def atLeastLessThan_iff less_Suc_eq_le by simp
  also have "\<dots> \<longleftrightarrow> unat c \<le> unat e"
    using unat_u64_less [of e] by (auto simp: unat_of_nat_small intro!: exI [of _ "unat c"])
  finally show ?thesis by (simp add: word_le_nat_alt)
qed

lemma remove_hosts_cover:
  assumes "unat sz < 2 ^ 63" and "c \<le> sz div csz" and "copy \<in> set (copy_range nc)"
    and "h = ucast (mn_locate_data net path (ucast c) copy)" and "h < mn_hosts_size net"
  shows "h \<in> set (remove_hosts csz net path sz nc)"
proof -
  have q: "signed_quotient sz csz = sz div csz"
    using assms(1) by (simp add: signed_quotient_def sint_small del: of_nat_unat)
  show ?thesis
  proof (cases "sz div csz < mn_hosts_size net")
    case True
    have "h \<in> set (concat (map (\<lambda>chnk_id. map (\<lambda>copy. ucast (mn_locate_data net path (ucast chnk_id) copy)) (copy_range nc))
        (chunk_range 0 (sz div csz))))"
      using assms(2-4) by (auto simp: in_chunk_range)
    then show ?thesis using True q assms(3) by (auto simp: remove_hosts_def small_remove_hosts_def)
  next
    case False
    then show ?thesis using q assms(5) by (auto simp: remove_hosts_def word_less_nat_alt image_iff intro!: bexI [of _ "unat h"])
  qed
qed

end
