(* ===== verification/Client_Invariant.thy ===== *)
theory Client_Invariant
  imports Gkfs_Files
begin

text \<open>
  The open files of a client over all its operations: every descriptor refers to a file that exists, and
  operations that do not open, close or move leave the open files alone.
\<close>

section \<open>Operations that leave the open files alone\<close>

definition same_files :: "'s client \<Rightarrow> 's client \<Rightarrow> bool" where
  "same_files c c' \<longleftrightarrow> cl_map c' = cl_map c \<and> cl_heap c' = cl_heap c"

lemma same_files_refl [simp]: "same_files c c"
  by (simp add: same_files_def)

lemma same_files_trans [trans]: "same_files c c1 \<Longrightarrow> same_files c1 c2 \<Longrightarrow> same_files c c2"
  by (simp add: same_files_def)

lemma same_files_set [simp]:
  "same_files c (set_errno e c') = same_files c c'" "same_files c (snd (fail e c')) = same_files c c'"
  "same_files c (c'\<lparr>cl_sys := g\<rparr>) = same_files c c'" "same_files c (c'\<lparr>cl_wsize := w\<rparr>) = same_files c c'"
  "same_files c (c'\<lparr>cl_dentry := d\<rparr>) = same_files c c'"
  by (simp_all add: same_files_def set_errno_def fail_def)

lemma fail_eq: "fail e c = (r, c') \<longleftrightarrow> r = - 1 \<and> c' = set_errno e c"
  by (auto simp: fail_def)

lemma finish_files: "same_files c (snd (finish r c))"
  by (simp add: finish_def Let_def fail_def same_files_def set_errno_def)

lemma follow_md_files:
  assumes "follow_md env md c = Some r"
  shows "same_files c (snd r)"
proof (rule follow_md.raw_induct [OF _ assms])
  fix follow_md env md c r
  assume IH: "\<And>env md c r. follow_md env md c = Some r \<Longrightarrow> same_files c (snd r)"
    and run: "(if is_link md
      then (case forward_stat (env_net env) (cl_sys c) (md_target_path md) 0 of
              (Inl e, g) \<Rightarrow> Some (None, set_errno e (c\<lparr>cl_sys := g\<rparr>))
            | (Inr attr, g) \<Rightarrow> do { md' \<leftarrow> parsed env attr; follow_md env md' (c\<lparr>cl_sys := g\<rparr>) })
      else Some (Some md, c)) = Some r"
  show "same_files c (snd r)"
  proof (cases "is_link md")
    case True
    obtain x g where x: "forward_stat (env_net env) (cl_sys c) (md_target_path md) 0 = (x, g)" by fastforce
    show ?thesis using run True x
      by (cases x) (auto simp: same_files_def set_errno_def dest!: IH split: Option.bind_splits)
  qed (use run in auto)
qed

lemma get_metadata_files:
  assumes "get_metadata env c path fl = Some r"
  shows "same_files c (snd r)"
proof -
  obtain hit c1 where h: "(if env_use_dentry env
      then (let (e, d) = dc_get (env_hash env) (path_dirname path) (basename path) (cl_dentry c) in (e, c\<lparr>cl_dentry := d\<rparr>))
      else (None, c)) = (hit, c1)" by fastforce
  then have c1: "same_files c c1" by (auto simp: same_files_def Let_def split: if_splits prod.splits)
  obtain x g where x: "stat_copies (env_net env) path (copy_range (env_replicas env)) 0 (cl_sys c1) = (x, g)" by fastforce
  show ?thesis using assms h x c1
    by (cases hit; cases x)
      (auto simp: get_metadata_def same_files_def set_errno_def dest!: follow_md_files split: Option.bind_splits if_splits)
qed

lemma chase_files:
  assumes "chase env path md c = Some r"
  shows "same_files c (snd r)"
proof (rule chase.raw_induct [OF _ assms])
  fix chase env path md c r
  assume IH: "\<And>env path md c r. chase env path md c = Some r \<Longrightarrow> same_files c (snd r)"
    and run: "(if md_target_path md = [] then Some (Some (path, md), c)
      else do { (r, c1) \<leftarrow> get_metadata env c (md_target_path md) False;
                case r of None \<Rightarrow> Some (None, c1) | Some md' \<Rightarrow> chase env (md_target_path md) md' c1 }) = Some r"
  show "same_files c (snd r)"
  proof (cases "md_target_path md = []")
    case False
    then obtain x c1 where x: "get_metadata env c (md_target_path md) False = Some (x, c1)"
      using run by (auto split: Option.bind_splits)
    show ?thesis using run False x get_metadata_files [OF x] by (cases x) (auto simp: same_files_def dest!: IH)
  qed (use run in auto)
qed

lemma check_parent_dir_files: "check_parent_dir env c path = Some r \<Longrightarrow> same_files c (snd r)"
  by (auto simp: check_parent_dir_def fail_def dest!: get_metadata_files split: if_splits prod.splits option.splits Option.bind_splits)

lemma create_loop_files: "same_files c (snd (create_loop env path mode cs success c))"
proof (induction cs arbitrary: success c)
  case (Cons copy cs)
  obtain err g where "forward_create (env_net env) (cl_sys c) path mode copy = (err, g)" by fastforce
  then show ?case using Cons.IH [where c = "set_errno err (c\<lparr>cl_sys := g\<rparr>)"]
    by (simp add: same_files_def set_errno_def)
qed simp

lemma gkfs_create_files:
  assumes "gkfs_create env c path mode = Some r"
  shows "same_files c (snd r)"
proof -
  let ?ty = "mode AND 0xF000" let ?mode = "if ?ty = 0 then mode OR 0x8000 else mode"
  show ?thesis
  proof (cases "?ty = 0 \<or> ?ty = 0x8000 \<or> ?ty = 0x4000")
    case True
    then obtain bad c1 where p: "check_parent_dir env c path = Some (bad, c1)"
      using assms by (auto simp: gkfs_create_def Let_def split: Option.bind_splits if_splits)
    obtain b c2 where l: "create_loop env path ?mode (copy_range (env_replicas env)) False c1 = (b, c2)" by fastforce
    show ?thesis
      using assms True p l check_parent_dir_files [OF p] create_loop_files [of c1 env path ?mode "copy_range (env_replicas env)" False]
      by (auto simp: gkfs_create_def Let_def same_files_def split: if_splits)
  next
    case False
    then show ?thesis using assms by (auto simp: gkfs_create_def Let_def fail_def split: if_splits)
  qed
qed

section \<open>Open files\<close>

text \<open>
  Descriptors refer to files of the heap, the map meets its invariant, and only directories have entries.
\<close>

definition wf_file :: "OpenFile \<Rightarrow> bool" where
  "wf_file f \<longleftrightarrow> (of_type f = Regular \<longrightarrow> of_entries f = [])"

definition wf_client :: "'s client \<Rightarrow> bool" where
  "wf_client c \<longleftrightarrow> wf_map (cl_map c) \<and> (\<forall>fd f. fm_get (cl_map c) fd = Some f \<longrightarrow> f < length (cl_heap c)) \<and>
     list_all wf_file (cl_heap c)"

lemma wf_client_same: "wf_client c \<Longrightarrow> same_files c c' \<Longrightarrow> wf_client c'"
  by (simp add: wf_client_def same_files_def)

lemma wf_file_new: "wf_file (OpenFile_new path flags ty)" "wf_file (OpenDir_new path)"
  by (simp_all add: wf_file_def OpenDir_new_def OpenFile_new_def)

lemma wf_client_update:
  assumes "wf_client c" and "f < length (cl_heap c) \<Longrightarrow> wf_file x"
  shows "wf_client (c\<lparr>cl_heap := (cl_heap c)[f := x]\<rparr>)"
  using assms by (cases "f < length (cl_heap c)") (auto simp: wf_client_def list_all_length nth_list_update)

lemma wf_move_pos: "wf_client c \<Longrightarrow> wf_client (move_pos f pos c)"
  unfolding move_pos_def by (rule wf_client_update) (auto simp: wf_client_def wf_file_def set_pos_def list_all_length)

lemma fm_get_remove: "fm_get (snd (fm_remove fd m)) = (fm_get m)(fd := None)"
proof -
  have "files (snd (fm_remove fd m)) = filter (\<lambda>e. fst e \<noteq> fd) (files m)"

  proof (cases "map_of (files m) fd")
    case None
    then have "\<forall>e \<in> set (files m). fst e \<noteq> fd" by (auto simp: map_of_eq_None_iff)
    then show ?thesis using None by (simp add: fm_remove_def)
  qed (simp add: fm_remove_def Let_def)
  then show ?thesis by (simp add: fm_get_def map_of_delete fun_eq_iff)
qed

lemma wf_fm_removed:
  "wf_client c \<Longrightarrow> wf_client (c\<lparr>cl_map := snd (fm_remove fd (cl_map c))\<rparr>)"
  "wf_client c \<Longrightarrow> wf_client (c\<lparr>cl_dentry := d, cl_map := snd (fm_remove fd (cl_map c))\<rparr>)"
  by (simp_all add: wf_client_def wf_fm_remove fm_get_remove)

lemma wf_add_file:
  assumes "add_file f c = Some (fd, c')" and "wf_client c" and "wf_file f"
  shows "wf_client c'"
proof -
  obtain m where m: "fm_add (length (cl_heap c)) (cl_map c) = Some (fd, m)" "c' = c\<lparr>cl_heap := cl_heap c @ [f], cl_map := m\<rparr>"
    using assms(1) by (auto simp: add_file_def split: Option.bind_splits)
  have "wf_map (cl_map c)" using assms(2) by (simp add: wf_client_def)
  from wf_fm_add(1,3) [OF this m(1)] show ?thesis
    using assms(2,3) m(2) by (auto simp: wf_client_def fm_get_def less_Suc_eq)
qed

section \<open>Directories\<close>

lemma fold_add_type: "of_type (fold (\<lambda>(name, ftype). OpenDir_add name ftype) es d) = of_type d"
  by (induction es arbitrary: d) (auto simp: OpenDir_add_def)

lemma gather_dirents_type: "of_type (snd (gather_dirents se rs err d)) = of_type d"
  by (induction rs arbitrary: err d) (auto simp: fold_add_type split: option.splits)

lemma forward_get_dirents_type:
  assumes "forward_get_dirents net g buf path = (err, Some d)"
  shows "of_type d = Directory"
proof -
  have "\<exists>se rs e. d = snd (gather_dirents se rs e (OpenDir_new path))"
    using assms by (auto simp: forward_get_dirents_def Let_def split: if_splits prod.splits) (metis snd_conv)+
  then show ?thesis by (auto simp: gather_dirents_type OpenDir_new_def OpenFile_new_def)
qed

lemma collect_dirents_type:
  "collect_dirents env g path is err dc = Some r \<Longrightarrow> of_type (fst (snd r)) = of_type (fst dc)"
proof (induction "is" arbitrary: err dc)
  case (Cons i "is")
  have "of_type (fst (fold (cache_dirent env path) es dc)) = of_type (fst dc)" for es
    by (induction es arbitrary: dc) (auto simp: cache_dirent_def OpenDir_add_def Let_def split: prod.splits)
  then show ?case using Cons.prems by (auto dest!: Cons.IH split: Option.bind_splits)
qed auto

lemma wf_gkfs_opendir:
  assumes "gkfs_opendir env c path = Some (r, c')" and "wf_client c"
  shows "wf_client c'"
proof -
  obtain x c1 where x: "get_metadata env c path False = Some (x, c1)"
    using assms(1) by (auto simp: gkfs_opendir_def split: Option.bind_splits)
  have c1: "wf_client c1" using wf_client_same [OF assms(2) get_metadata_files [OF x]] by simp
  have same: "wf_client (set_errno e (c1\<lparr>cl_dentry := d\<rparr>))" "wf_client (set_errno e c1)" "wf_client (c1\<lparr>cl_dentry := d\<rparr>)" for e d
    using c1 by (simp_all add: wf_client_def set_errno_def)
  have dir: "wf_file d" if "of_type d = Directory" for d using that by (simp add: wf_file_def)
  show ?thesis
  proof (cases "x = None \<or> \<not> S_ISDIR (md_mode (the x))")
    case True
    then show ?thesis using assms(1) x c1 same(2) by (auto simp: gkfs_opendir_def fail_def split: option.splits if_splits)
  next
    case False
    show ?thesis
    proof (cases "env_use_dentry env")
      case True
      with assms(1) x False obtain err d cache where
        "collect_dirents env (cl_sys c1) path [0..<unat (mn_hosts_size (env_net env))] 0 (OpenDir_new path, cl_dentry c1) = Some (err, d, cache)"
        and r: "(if err \<noteq> 0 then Some (fail err (c1\<lparr>cl_dentry := cache\<rparr>)) else add_file d (c1\<lparr>cl_dentry := cache\<rparr>)) = Some (r, c')"
        by (auto simp: gkfs_opendir_def Let_def split: Option.bind_splits)
      from collect_dirents_type [OF this(1)] have "wf_file d" by (simp add: dir OpenDir_new_def OpenFile_new_def)
      then show ?thesis using r same by (auto simp: fail_def intro: wf_add_file split: if_splits)
    next
      case False2: False
      obtain err d where d: "forward_get_dirents (env_net env) (cl_sys c1) (env_buffer env) path = (err, d)" by fastforce
      then show ?thesis using assms(1) x False False2 same(2)
        by (auto simp: gkfs_opendir_def fail_def dest!: forward_get_dirents_type intro: wf_add_file [OF _ c1 dir]
            split: if_splits Option.bind_splits)
    qed
  qed
qed

section \<open>Opening\<close>

lemma wf_finish: "wf_client c \<Longrightarrow> wf_client (snd (finish r c))"
  by (rule wf_client_same [OF _ finish_files])

lemma wf_fail: "wf_client (set_errno e c) = wf_client c" "wf_client (snd (fail e c)) = wf_client c" "wf_client (c\<lparr>cl_sys := g\<rparr>) = wf_client c"
  by (simp_all add: wf_client_def set_errno_def fail_def)

lemma wf_get_metadata: "get_metadata env c path fl = Some (x, c1) \<Longrightarrow> wf_client c \<Longrightarrow> wf_client c1"
  using get_metadata_files wf_client_same by fastforce

lemma wf_chase: "chase env path md c = Some (x, c1) \<Longrightarrow> wf_client c \<Longrightarrow> wf_client c1"
  using chase_files wf_client_same by fastforce

lemma wf_gkfs_create: "gkfs_create env c path mode = Some (x, c1) \<Longrightarrow> wf_client c \<Longrightarrow> wf_client c1"
  using gkfs_create_files wf_client_same by fastforce

lemma truncate_sizes_files: "same_files c (snd (gkfs_truncate_sizes env c path old new))"
  using finish_files by (auto simp: gkfs_truncate_sizes_def fail_def split: prod.splits)

lemma wf_open_existing:
  assumes "open_existing env c path md flags = Some (r, c')" and "wf_client c"
  shows "wf_client c'"
proof -
  obtain x c1 where x: "(if flags AND O_TRUNC \<noteq> 0 \<and> (flags AND O_RDWR \<noteq> 0 \<or> flags AND O_WRONLY \<noteq> 0)
      then gkfs_truncate_sizes env c path (md_size md) 0 else (0, c)) = (x, c1)" by fastforce
  have "same_files c c1" using x truncate_sizes_files [of c env path "md_size md" 0] by (auto split: if_splits)
  then have "wf_client c1" by (rule wf_client_same [OF assms(2)])
  then show ?thesis using assms x wf_file_new(1)
    by (auto simp: open_existing_def intro: wf_gkfs_opendir wf_add_file split: if_splits)
qed

lemma wf_open_lookup:
  assumes "open_lookup env c path mode flags = Some (x, c1)" and "wf_client c"
  shows "wf_client c1"
proof (cases "flags AND O_CREAT \<noteq> 0 \<and> flags AND O_DIRECTORY = 0")
  case True
  then obtain err c2 where c2: "gkfs_create env c path (mode OR 0x8000) = Some (err, c2)"
    using assms(1) by (auto simp: open_lookup_def split: Option.bind_splits)
  show ?thesis using assms(1) c2 True wf_gkfs_create [OF c2 assms(2)] wf_file_new(1)
    by (auto simp: open_lookup_def intro: wf_add_file wf_get_metadata split: Option.bind_splits if_splits option.splits)
next
  case False
  then show ?thesis using assms
    by (auto simp: open_lookup_def wf_fail intro: wf_get_metadata split: Option.bind_splits if_splits option.splits)
qed

lemma wf_gkfs_open:
  assumes "gkfs_open env c path mode flags = Some (fd, c')" and "wf_client c"
  shows "wf_client c'"
proof -
  have "wf_client c \<longrightarrow> wf_client (snd (fd, c'))"
  proof (rule gkfs_open.raw_induct [OF _ assms(1)], rule impI)
    fix gkfs_open env c path mode flags r
    assume IH: "\<And>env c path mode flags r. gkfs_open env c path mode flags = Some r \<Longrightarrow> wf_client c \<longrightarrow> wf_client (snd r)"
      and run: "(if flags AND O_PATH \<noteq> 0 then Some (fail ENOTSUP c)
        else do { (r, c1) \<leftarrow> open_lookup env c path mode flags;
                  case r of
                    Inl ret \<Rightarrow> Some (ret, c1)
                  | Inr md \<Rightarrow>
                      if has_symlinks (env_cfg env) \<and> is_link md
                      then (if flags AND O_NOFOLLOW \<noteq> 0 then Some (fail ELOOP c1)
                            else gkfs_open env c1 (md_target_path md) mode flags)
                      else if renames env \<and> moved_away md then Some (fail ENOENT c1)
                      else if renames env \<and> md_target_path md \<noteq> []
                      then do { (r2, c2) \<leftarrow> get_metadata env c1 (md_target_path md) False;
                                md2 \<leftarrow> r2;
                                (r3, c3) \<leftarrow> chase env (md_target_path md) md2 c2;
                                case r3 of
                                  None \<Rightarrow> Some (- 1, c3)
                                | Some (new_path, md3) \<Rightarrow> open_existing env c3 new_path md3 flags }
                      else open_existing env c1 path md flags }) = Some r"
      and w: "wf_client c"
    show "wf_client (snd r)"
    proof (cases "flags AND O_PATH \<noteq> 0")
      case True
      then show ?thesis using run w by (auto simp: fail_def wf_fail)
    next
      case False
      then obtain x c1 where x: "open_lookup env c path mode flags = Some (x, c1)" using run by (auto split: Option.bind_splits)
      note w1 = wf_open_lookup [OF x w]
      show ?thesis
      proof (cases x)
        case (Inl ret)
        then show ?thesis using run False x w1 by auto
      next
        case (Inr md)
        obtain v c' where r: "r = (v, c')" by fastforce
        show ?thesis using run False x w1 IH unfolding r Inr
          by (auto simp: fail_def wf_fail dest!: wf_open_existing wf_chase wf_get_metadata
              split: if_splits option.splits Option.bind_splits)
      qed
    qed
  qed
  then show ?thesis using assms(2) by simp
qed

section \<open>Reading, writing, moving\<close>

lemma report_size_files: "report_size env path cnt offset ap c = (x, c1) \<Longrightarrow> same_files c c1"
  by (auto simp: report_size_def Let_def same_files_def split: if_splits prod.splits)

lemma write_data_files: "write_data env path buf offset cnt nc c = (x, c1) \<Longrightarrow> same_files c c1"
  by (auto simp: write_data_def Let_def same_files_def split: prod.splits)

lemma wf_gkfs_write_ws:
  assumes "gkfs_write_ws env c f buf cnt offset up = (ret, c')" and "wf_client c"
  shows "wf_client c'"
proof (cases "of_type (cl_heap c ! f) = Regular")
  case True
  let ?path = "of_path (cl_heap c ! f)"
  obtain x c1 where x: "report_size env ?path cnt offset (get_flag (cl_heap c ! f) Append) c = (x, c1)" by fastforce
  have w1: "wf_client c1" by (rule wf_client_same [OF assms(2) report_size_files [OF x]])
  show ?thesis
  proof (cases x)
    case (Inl e)
    then show ?thesis using assms(1) x True w1 by (auto simp: gkfs_write_ws_def gkfs_do_write_def Let_def fail_def wf_fail)
  next
    case (Inr off)
    obtain e1 s1 c2 where 1: "write_data env ?path buf off cnt 0 c1 = ((e1, s1), c2)" by (metis prod.collapse)
    obtain e2 s2 c3 where 2: "write_data env ?path buf off cnt (env_replicas env) c2 = ((e2, s2), c3)" by (metis prod.collapse)
    have "wf_client c2" "wf_client c3"
      using wf_client_same [OF w1 write_data_files [OF 1]] wf_client_same [OF _ write_data_files [OF 2]] by blast+
    then show ?thesis using assms(1) x True Inr 1 2
      by (auto simp: gkfs_write_ws_def gkfs_do_write_def Let_def fail_def wf_fail intro: wf_move_pos split: if_splits)
  qed
qed (use assms in \<open>auto simp: gkfs_write_ws_def gkfs_do_write_def Let_def fail_def wf_fail\<close>)

lemma wf_gkfs_pwrite: "gkfs_pwrite env c fd buf cnt offset = (ret, c') \<Longrightarrow> wf_client c \<Longrightarrow> wf_client c'"
  by (auto simp: gkfs_pwrite_def intro: wf_gkfs_write_ws split: option.splits)

lemma wf_gkfs_write: "gkfs_write env c fd buf cnt = (ret, c') \<Longrightarrow> wf_client c \<Longrightarrow> wf_client c'"
  by (auto simp: gkfs_write_def intro: wf_gkfs_write_ws split: option.splits)

lemma wf_pwritev_loop: "pwritev_loop env f iov pos written c = (ret, c') \<Longrightarrow> wf_client c \<Longrightarrow> wf_client c'"
  by (induction iov arbitrary: pos written c)
    (auto simp: Let_def dest!: wf_gkfs_write_ws split: if_splits prod.splits)

lemma wf_gkfs_pwritev: "gkfs_pwritev env c fd iov offset = (ret, c') \<Longrightarrow> wf_client c \<Longrightarrow> wf_client c'"
  by (auto simp: gkfs_pwritev_def intro: wf_pwritev_loop split: option.splits prod.splits)

lemma wf_gkfs_writev: "gkfs_writev env c fd iov = (ret, c') \<Longrightarrow> wf_client c \<Longrightarrow> wf_client c'"
  by (auto simp: gkfs_writev_def Let_def intro: wf_gkfs_pwritev wf_move_pos split: option.splits prod.splits if_splits)

lemma wf_gkfs_read_ws: "gkfs_read_ws env c f buf cnt offset = Some (ret, buf', c') \<Longrightarrow> wf_client c \<Longrightarrow> wf_client c'"
  by (auto simp: gkfs_read_ws_def gkfs_do_read_def Let_def wf_fail split: if_splits Option.bind_splits)

lemma wf_gkfs_pread: "gkfs_pread env c fd buf cnt offset = Some (ret, buf', c') \<Longrightarrow> wf_client c \<Longrightarrow> wf_client c'"
  by (auto simp: gkfs_pread_def intro: wf_gkfs_read_ws split: option.splits)

lemma wf_gkfs_read: "gkfs_read env c fd buf cnt = Some (ret, buf', c') \<Longrightarrow> wf_client c \<Longrightarrow> wf_client c'"
  by (auto simp: gkfs_read_def Let_def intro!: wf_move_pos dest!: wf_gkfs_read_ws
      split: option.splits Option.bind_splits if_splits)

lemma wf_preadv_loop: "preadv_loop env f iov pos got c = Some (ret, bufs, c') \<Longrightarrow> wf_client c \<Longrightarrow> wf_client c'"
  by (induction iov arbitrary: pos got c ret bufs c')
    (auto simp: Let_def dest!: wf_gkfs_read_ws split: if_splits Option.bind_splits)

lemma wf_gkfs_preadv: "gkfs_preadv env c fd iov offset = Some (ret, bufs, c') \<Longrightarrow> wf_client c \<Longrightarrow> wf_client c'"
  by (auto simp: gkfs_preadv_def intro: wf_preadv_loop split: option.splits Option.bind_splits)

lemma wf_gkfs_readv: "gkfs_readv env c fd iov = Some (ret, bufs, c') \<Longrightarrow> wf_client c \<Longrightarrow> wf_client c'"
  by (auto simp: gkfs_readv_def Let_def intro!: wf_move_pos dest!: wf_gkfs_preadv split: option.splits Option.bind_splits if_splits)

lemma wf_gkfs_lseek: "gkfs_lseek env c fd offset whence = Some (ret, c') \<Longrightarrow> wf_client c \<Longrightarrow> wf_client c'"
  by (auto simp: gkfs_lseek_def gkfs_lseek_file_def Let_def fail_def wf_fail intro!: wf_move_pos split: if_splits prod.splits)

lemma wf_read_dir:
  assumes "read_dir len env c fd cnt = Some (ret, ds, c')" and "wf_client c"
  shows "wf_client c'"
proof (cases "fm_get_dir (cl_heap c) (cl_map c) fd")
  case (Some f)
  have "wf_client (c\<lparr>cl_heap := (cl_heap c)[f := set_pos pos (cl_heap c ! f)]\<rparr>)" for pos
    using wf_move_pos [OF assms(2)] by (simp add: move_pos_def)
  then show ?thesis using assms Some by (auto simp: read_dir_def Let_def wf_fail split: if_splits prod.splits)
qed (use assms in \<open>auto simp: read_dir_def wf_fail\<close>)

section \<open>Other operations\<close>

lemma wf_finish_eq: "finish r c = (ret, c') \<Longrightarrow> wf_client c \<Longrightarrow> wf_client c'"
  using wf_finish [of c r] by simp

lemma wf_gkfs_remove: "gkfs_remove env c path = Some (ret, c') \<Longrightarrow> wf_client c \<Longrightarrow> wf_client c'"
  by (auto simp: gkfs_remove_def Let_def fail_def wf_fail dest!: wf_get_metadata wf_chase dest: wf_finish_eq
      split: if_splits option.splits Option.bind_splits prod.splits)

lemma wf_gkfs_rmdir: "gkfs_rmdir env c path = Some (ret, c') \<Longrightarrow> wf_client c \<Longrightarrow> wf_client c'"
  by (auto simp: gkfs_rmdir_def Let_def fail_def wf_fail dest!: wf_get_metadata dest: wf_finish_eq
      split: if_splits option.splits Option.bind_splits prod.splits)

lemma wf_gkfs_rename: "gkfs_rename env c old new = Some (ret, c') \<Longrightarrow> wf_client c \<Longrightarrow> wf_client c'"
  by (auto simp: gkfs_rename_def Let_def dest!: wf_get_metadata dest: wf_finish_eq
      split: if_splits option.splits Option.bind_splits prod.splits)

lemma wf_lookup_renamed: "lookup_renamed env c path fl = Some (x, c') \<Longrightarrow> wf_client c \<Longrightarrow> wf_client c'"
  by (auto simp: lookup_renamed_def wf_fail dest!: wf_get_metadata wf_chase split: if_splits option.splits Option.bind_splits)

lemma wf_gkfs_truncate:
  assumes "gkfs_truncate env c path len = Some (ret, c')" and "wf_client c"
  shows "wf_client c'"
proof -
  have tr: "gkfs_truncate_sizes env c path old new = (ret, c') \<Longrightarrow> wf_client c \<Longrightarrow> wf_client c'"
    for env path old new ret and c c' :: "'a client"
    using wf_client_same [OF _ truncate_sizes_files [of c env path old new]] by simp
  show ?thesis using assms
    by (auto simp: gkfs_truncate_def Let_def fail_def wf_fail
        dest!: wf_get_metadata wf_chase tr wf_gkfs_open wf_gkfs_lseek wf_gkfs_write intro: wf_fm_removed
        split: if_splits option.splits Option.bind_splits prod.splits)
qed

lemma wf_flush_size: "flush_size env path c = (err, c') \<Longrightarrow> wf_client c \<Longrightarrow> wf_client c'"
  by (auto simp: flush_size_def wf_client_def split: if_splits prod.splits)

lemma wf_gkfs_fsync: "gkfs_fsync env c fd = (ret, c') \<Longrightarrow> wf_client c \<Longrightarrow> wf_client c'"
  by (auto simp: gkfs_fsync_def fail_def wf_fail dest!: wf_flush_size split: option.splits prod.splits if_splits)

lemma wf_gkfs_close: "gkfs_close env c fd = (ret, c') \<Longrightarrow> wf_client c \<Longrightarrow> wf_client c'"
  by (auto simp: gkfs_close_def Let_def fail_def wf_fail dest!: wf_flush_size intro: wf_fm_removed
      split: option.splits prod.splits if_splits)

lemma wf_check_parent_dir: "check_parent_dir env c path = Some (x, c1) \<Longrightarrow> wf_client c \<Longrightarrow> wf_client c1"
  using check_parent_dir_files wf_client_same by fastforce

lemma wf_gkfs_mk_symlink: "gkfs_mk_symlink env c path target = Some (ret, c') \<Longrightarrow> wf_client c \<Longrightarrow> wf_client c'"
  by (auto simp: gkfs_mk_symlink_def fail_def wf_fail dest!: wf_get_metadata wf_check_parent_dir wf_finish_eq
      split: if_splits Option.bind_splits)

lemma wf_gkfs_readlink: "gkfs_readlink env c path n = Some (ret, s, c') \<Longrightarrow> wf_client c \<Longrightarrow> wf_client c'"
  by (auto simp: gkfs_readlink_def Let_def wf_fail dest!: wf_get_metadata split: if_splits option.splits Option.bind_splits)

lemma wf_gkfs_dup:
  assumes "gkfs_dup c oldfd = Some (ret, c')" and "wf_client c"
  shows "wf_client c'"
proof (cases "fm_get (cl_map c) oldfd")
  case None
  then show ?thesis using assms by (auto simp: gkfs_dup_def fm_dup_def fail_def wf_fail)
next
  case (Some f)
  then obtain m where m: "fm_add f (cl_map c) = Some (ret, m)" "c' = c\<lparr>cl_map := m\<rparr>"
    using assms(1) by (auto simp: gkfs_dup_def fm_dup_def split: Option.bind_splits)
  have "wf_map (cl_map c)" using assms(2) by (simp add: wf_client_def)
  from wf_fm_add(1,3) [OF this m(1)] show ?thesis
    using assms(2) Some m(2) by (auto simp: wf_client_def fm_get_def)
qed

lemma wf_gkfs_dup2:
  assumes "gkfs_dup2 c oldfd newfd = (ret, c')" and "wf_client c" and "newfd \<noteq> fd_idx (cl_map c)"
  shows "wf_client c'"
proof (cases "fm_get (cl_map c) oldfd")
  case None
  then show ?thesis using assms by (auto simp: gkfs_dup2_def fm_dup2_def fail_def wf_fail)
next
  case (Some f)
  let ?m = "snd (fm_dup2 oldfd newfd (cl_map c))"
  have c': "c' = c\<lparr>cl_map := ?m\<rparr>"
    using assms(1) Some by (auto simp: gkfs_dup2_def fm_dup2_def Let_def)
  have "fm_get ?m fd = Some f' \<Longrightarrow> fm_get (cl_map c) fd = Some f' \<or> f' = f" for fd f'
    using Some fm_get_remove [of newfd "cl_map c"]
    by (auto simp: fm_dup2_def Let_def map_insert_def fm_get_def fun_eq_iff split: if_splits)
  then show ?thesis
    using assms(2) Some wf_fm_dup2 [OF _ assms(3), of oldfd] unfolding c' by (auto simp: wf_client_def)
qed

section \<open>Steps of a client\<close>

text \<open>
  All operations of an application on its client, with any arguments, and what other processes do to the daemons in
  the meantime. \<open>dup2\<close> onto the descriptor that is handed out next is left out: it breaks the invariant of the map.
\<close>

inductive client_step :: "'s cl_env \<Rightarrow> 's client \<Rightarrow> 's client \<Rightarrow> bool" for env :: "'s cl_env" where
  others: "client_step env c (c\<lparr>cl_sys := g\<rparr>)"
| create: "gkfs_create env c path mode = Some (ret, c') \<Longrightarrow> client_step env c c'"
| open_file: "gkfs_open env c path mode flags = Some (ret, c') \<Longrightarrow> client_step env c c'"
| opendir: "gkfs_opendir env c path = Some (ret, c') \<Longrightarrow> client_step env c c'"
| close: "gkfs_close env c fd = (ret, c') \<Longrightarrow> client_step env c c'"
| dup: "gkfs_dup c fd = Some (ret, c') \<Longrightarrow> client_step env c c'"
| dup2: "gkfs_dup2 c fd newfd = (ret, c') \<Longrightarrow> newfd \<noteq> fd_idx (cl_map c) \<Longrightarrow> client_step env c c'"
| write_file: "gkfs_write env c fd buf cnt = (ret, c') \<Longrightarrow> client_step env c c'"
| pwrite: "gkfs_pwrite env c fd buf cnt offset = (ret, c') \<Longrightarrow> client_step env c c'"
| writev: "gkfs_writev env c fd iov = (ret, c') \<Longrightarrow> client_step env c c'"
| pwritev: "gkfs_pwritev env c fd iov offset = (ret, c') \<Longrightarrow> client_step env c c'"
| read: "gkfs_read env c fd buf cnt = Some (ret, buf', c') \<Longrightarrow> client_step env c c'"
| pread: "gkfs_pread env c fd buf cnt offset = Some (ret, buf', c') \<Longrightarrow> client_step env c c'"
| readv: "gkfs_readv env c fd iov = Some (ret, bufs, c') \<Longrightarrow> client_step env c c'"
| preadv: "gkfs_preadv env c fd iov offset = Some (ret, bufs, c') \<Longrightarrow> client_step env c c'"
| lseek: "gkfs_lseek env c fd offset whence = Some (ret, c') \<Longrightarrow> client_step env c c'"
| truncate: "gkfs_truncate env c path len = Some (ret, c') \<Longrightarrow> client_step env c c'"
| fsync: "gkfs_fsync env c fd = (ret, c') \<Longrightarrow> client_step env c c'"
| remove: "gkfs_remove env c path = Some (ret, c') \<Longrightarrow> client_step env c c'"
| rmdir: "gkfs_rmdir env c path = Some (ret, c') \<Longrightarrow> client_step env c c'"
| rename: "gkfs_rename env c old new = Some (ret, c') \<Longrightarrow> client_step env c c'"
| symlink: "gkfs_mk_symlink env c path target = Some (ret, c') \<Longrightarrow> client_step env c c'"
| readlink: "gkfs_readlink env c path bufsize = Some (ret, target, c') \<Longrightarrow> client_step env c c'"
| access: "gkfs_access env c path follow = Some (ret, c') \<Longrightarrow> client_step env c c'"
| stat: "gkfs_stat env c path follow = Some (st, c') \<Longrightarrow> client_step env c c'"
| statx: "gkfs_statx env c path follow = Some (stx, c') \<Longrightarrow> client_step env c c'"
| statfs: "gkfs_statfs env c = (stfs, c') \<Longrightarrow> client_step env c c'"
| getdents: "gkfs_getdents env c fd cnt = Some (ret, ds, c') \<Longrightarrow> client_step env c c'"
| getdents64: "gkfs_getdents64 env c fd cnt = Some (ret, ds, c') \<Longrightarrow> client_step env c c'"
| file_list: "gkfs_get_file_list env c path = Some (names, c') \<Longrightarrow> client_step env c c'"
| server_dir: "gkfs_getsingleserverdir env c path cnt server = Some (ret, dxs, c') \<Longrightarrow> client_step env c c'"

lemma wf_client_step: "client_step env c c' \<Longrightarrow> wf_client c \<Longrightarrow> wf_client c'"
proof (induction rule: client_step.induct)
  case (others c g)
  then show ?case by (simp add: wf_fail)
next
  case (access c path follow ret c')
  then show ?case by (auto simp: gkfs_access_def dest!: wf_lookup_renamed split: Option.bind_splits)
next
  case (stat c path follow st c')
  then show ?case by (auto simp: gkfs_stat_def dest!: wf_lookup_renamed split: Option.bind_splits)
next
  case (statx c path follow stx c')
  then show ?case by (auto simp: gkfs_statx_def dest!: wf_lookup_renamed split: Option.bind_splits)
next
  case (statfs c stfs c')
  then show ?case by (auto simp: gkfs_statfs_def wf_fail split: prod.splits if_splits)
next
  case (file_list c path names c')
  then show ?case by (auto simp: gkfs_get_file_list_def wf_fail split: prod.splits if_splits)
next
  case (server_dir c path cnt server ret dxs c')
  then show ?case by (auto simp: gkfs_getsingleserverdir_def wf_fail split: prod.splits if_splits Option.bind_splits)
next
  case (getdents c fd cnt ret ds c')
  then show ?case by (auto simp: gkfs_getdents_def dest!: wf_read_dir)
next
  case (getdents64 c fd cnt ret ds c')
  then show ?case by (auto simp: gkfs_getdents64_def dest!: wf_read_dir)
qed (blast dest: wf_gkfs_create wf_gkfs_open wf_gkfs_opendir wf_gkfs_close wf_gkfs_dup wf_gkfs_dup2 wf_gkfs_write
    wf_gkfs_pwrite wf_gkfs_writev wf_gkfs_pwritev wf_gkfs_read wf_gkfs_pread wf_gkfs_readv wf_gkfs_preadv wf_gkfs_lseek
    wf_gkfs_truncate wf_gkfs_fsync wf_gkfs_remove wf_gkfs_rmdir wf_gkfs_rename wf_gkfs_mk_symlink wf_gkfs_readlink)+

text \<open>A client that has just started has no open files.\<close>

definition fresh_client :: "'s client \<Rightarrow> bool" where
  "fresh_client c \<longleftrightarrow> cl_map c = OpenFileMap_new \<and> cl_heap c = []"

inductive client_reach :: "'s cl_env \<Rightarrow> 's client \<Rightarrow> bool" for env :: "'s cl_env" where
  start: "fresh_client c \<Longrightarrow> client_reach env c"
| step: "client_reach env c \<Longrightarrow> client_step env c c' \<Longrightarrow> client_reach env c'"

lemma client_reach_wf: "client_reach env c \<Longrightarrow> wf_client c"
proof (induction rule: client_reach.induct)
  case (start c)
  then show ?case using fm_reach_wf [OF fm_reach.new] by (simp add: fresh_client_def wf_client_def fm_get_def OpenFileMap_new_def)
qed (rule wf_client_step)

end
