(* ===== verification/Client_Properties.thy ===== *)
theory Client_Properties
  imports Sample_Client Client_IO_Proofs Remove_Proofs Client_Invariant
begin

text \<open>Properties of the file operations of a client: data through descriptors, appends, removal,
  rename, open files.\<close>

section \<open>Writing and reading\<close>

lemma move_pos_file:
  "of_type (cl_heap (move_pos f p c) ! f) = of_type (cl_heap c ! f)"
  "of_path (cl_heap (move_pos f p c) ! f) = of_path (cl_heap c ! f)"
  "cl_map (move_pos f p c) = cl_map c" "cl_sys (move_pos f p c) = cl_sys c"
proof -
  show "of_type (cl_heap (move_pos f p c) ! f) = of_type (cl_heap c ! f)"
    "of_path (cl_heap (move_pos f p c) ! f) = of_path (cl_heap c ! f)"
    by (cases "f < length (cl_heap c)", simp_all add: move_pos_def set_pos_def list_update_beyond)+
qed (simp_all add: move_pos_def)

text \<open>
  C4. What is written through a descriptor with \<open>pwrite\<close> is read back through it with \<open>pread\<close>: both report the
  number of bytes, and the reader's buffer starts with the writer's bytes. With any number of replicas, any order
  of the daemons' tasks, and for requests below 2 GiB, beyond which the count does not fit the \<open>int\<close> of the
  write path.
\<close>

theorem pwrite_then_pread:
  assumes "fm_get (cl_map c) fd = Some f" and "of_type (cl_heap c ! f) = Regular" and "of_path (cl_heap c ! f) = path"
    and "\<not> get_flag (cl_heap c ! f) Append" and "\<not> env_use_wsize env"
    and "io_ok env path buf offset cnt" and "unat cnt \<le> length dst"
  shows "\<exists>c1. gkfs_pwrite env c fd buf cnt offset = (int (unat cnt), c1) \<and>
    gkfs_pread env c1 fd dst cnt offset = Some (int (unat cnt), take (unat cnt) buf @ drop (unat cnt) dst, c1)"
proof -
  have net: "healthy_net (mn_rpc (env_net env))" using assms(6) by (simp add: io_ok_def)
  obtain x g where u: "forward_update_metadentry_size (env_net env) (cl_sys c) path cnt offset False (env_replicas env) = ((0, x), g)"
    using forward_update_size_silent(1) [OF net] by (metis prod.collapse)
  then have "report_size env path cnt offset (get_flag (cl_heap c ! f) Append) c = (Inr offset, c\<lparr>cl_sys := g\<rparr>)"
    using assms(4,5) by (simp add: report_size_def update_file_size_def)
  from gkfs_do_write_at [OF assms(2,3) this assms(6), of False]
  have w: "gkfs_pwrite env c fd buf cnt offset = (int (unat cnt), c\<lparr>cl_sys := g\<lparr>g_data := written env (g_data g) path buf offset cnt\<rparr>\<rparr>)"
    (is "_ = (_, ?c1)") using assms(1) by (simp add: gkfs_pwrite_def gkfs_write_ws_def)
  have "gkfs_pread env ?c1 fd dst cnt offset = Some (int (unat cnt), take (unat cnt) buf @ drop (unat cnt) dst, ?c1)"
    using assms(1-3) by (intro gkfs_pread_back [OF _ _ _ assms(6,7)]) simp_all
  with w show ?thesis by blast
qed

theorem pwrite_then_pread_witness:
  "\<exists>c1. gkfs_pwrite (sample_env 2) (sample_client 0) 10000 (replicate 16 7) 16 524280 = (16, c1) \<and>
    gkfs_pread (sample_env 2) c1 10000 (replicate 16 0) 16 524280 = Some (16, replicate 16 7, c1)"
  using pwrite_then_pread [of "sample_client 0" 10000 0 "''/d/f''" "sample_env 2" "replicate 16 7" 524280 16 "replicate 16 0"]
  by (simp add: sample_client_sel io_ok_def)

text \<open>
  C5. A write to a file opened for appending lands at the end of the file: it reports all bytes, the size the
  daemons hold grows by them, the position moves to the new end, and reading from the old end gives them back. The client keeps no replicas, and
  the 16-bit identifier the daemon draws for the append is not carried by another pending append of the file.
\<close>

theorem append_lands_at_end:
  assumes "plain_client cfg hist env c" and "client_entry cfg hist env c path = Some md"
    and "fm_get (cl_map c) fd = Some f" and "f < length (cl_heap c)"
    and "of_type (cl_heap c ! f) = Regular" and "of_path (cl_heap c ! f) = path" and "get_flag (cl_heap c ! f) Append"
    and "io_ok env path buf (md_size md) cnt" and "unat cnt \<le> length dst"
    and "fresh_id hist (g_meta (cl_sys c) (md_host (env_net env) path 0)) path
      (ms_merge_id (mn_srv (env_net env) (md_host (env_net env) path 0)))"
  shows "\<exists>c1. gkfs_write env c fd buf cnt = (int (unat cnt), c1) \<and>
    map_option md_size (client_entry cfg hist env c1 path) = Some (md_size md + cnt) \<and>
    of_pos (cl_heap c1 ! f) = md_size md + cnt \<and>
    gkfs_pread env c1 fd dst cnt (md_size md) = Some (int (unat cnt), take (unat cnt) buf @ drop (unat cnt) dst, c1)"
proof -
  let ?net = "env_net env"
  have ok: "net_ok cfg hist ?net (cl_sys c)" and e: "net_entry cfg hist ?net (cl_sys c) path = Some md"
    and rep: "env_replicas env = 0" using assms(1,2) by (simp_all add: client_defs)
  have big: "unat (md_size md) + unat cnt < 2 ^ 63" using assms(8) by (simp add: io_ok_def plain_range_def)
  then have sz: "unat (md_size md + cnt) = unat (md_size md) + unat cnt" by (simp add: unat_add_lem [THEN iffD1])
  have fit: "storable cfg (md\<lparr>md_size := md_size md + cnt\<rparr>)"
    using host_entry_stored(2) [OF ok e [unfolded net_entry_def]] big sz by (simp add: storable_def)
  obtain g where g: "forward_update_metadentry_size ?net (cl_sys c) path cnt (of_pos (cl_heap c ! f)) True 0 = ((0, md_size md), g)"
    and st: "entry_step cfg hist ?net (md_host ?net path 0) path (Some (stored cfg (md\<lparr>md_size := md_size md + cnt\<rparr>))) (cl_sys c) g"
    using srv_update_size [OF ok e, where app = True and sz = cnt, OF refl refl] fit assms(10) by auto
  have "md_size md \<noteq> - 1" using big by (auto simp: unsigned_minus_1_eq_mask mask_eq_exp_minus_1)
  then have r: "report_size env path cnt (of_pos (cl_heap c ! f)) (get_flag (cl_heap c ! f) Append) c = (Inr (md_size md), c\<lparr>cl_sys := g\<rparr>)"
    using g rep assms(7) by (simp add: report_size_def update_file_size_def)
  let ?c1 = "move_pos f (md_size md + cnt) (c\<lparr>cl_sys := g\<lparr>g_data := written env (g_data g) path buf (md_size md) cnt\<rparr>\<rparr>)"
  have w: "gkfs_write env c fd buf cnt = (int (unat cnt), ?c1)"
    using gkfs_do_write_at [OF assms(5,6) r assms(8), of True] assms(3) by (simp add: gkfs_write_def gkfs_write_ws_def)
  have "client_entry cfg hist env ?c1 path = Some (stored cfg (md\<lparr>md_size := md_size md + cnt\<rparr>))"
    using entry_step_net_entry [OF st] by (simp add: client_entry_def move_pos_def net_entry_def host_entry_def fun_eq_iff)
  moreover have "gkfs_pread env ?c1 fd dst cnt (md_size md) = Some (int (unat cnt), take (unat cnt) buf @ drop (unat cnt) dst, ?c1)"
    using assms(3,5,6) by (intro gkfs_pread_back [where f = f, OF _ _ _ assms(8,9)]) (simp_all add: move_pos_file)
  moreover have "of_pos (cl_heap ?c1 ! f) = md_size md + cnt" using assms(4) by (simp add: move_pos_def set_pos_def)
  ultimately show ?thesis using w by (intro exI [of _ ?c1]) simp
qed

theorem append_lands_at_end_witness:
  "\<exists>c1. gkfs_write (sample_env 0) (sample_client O_APPEND) 10000 (replicate 16 7) 16 = (16, c1) \<and>
    map_option md_size (client_entry sample_config map_of (sample_env 0) c1 ''/d/f'') = Some 116 \<and>
    of_pos (cl_heap c1 ! 0) = 116 \<and>
    gkfs_pread (sample_env 0) c1 10000 (replicate 16 0) 16 100 = Some (16, replicate 16 7, c1)"
  using append_lands_at_end [of sample_config map_of "sample_env 0" "sample_client O_APPEND" "''/d/f''" sample_md 10000 0
      "replicate 16 7" 16 "replicate 16 0"]
  by (simp add: sample_client_sel sample_fresh io_ok_def plain_range_def is_power_of_2_def piece_count_def)

text \<open>
  C32. An append whose reservation fails on the daemon overwrites the start of the file: the error is not
  reported, the write goes to offset 0 and claims success. The comments of \<open>forward_update_metadentry_size\<close> (a single
  correct call is needed to progress) and of \<open>gkfs_do_write\<close> (-1 on error) promise otherwise: the replies that carry an
  error leave the error code of the client at 0.
\<close>

theorem append_error_overwrites_start:
  assumes "env_replicas env = 0" and "fm_get (cl_map c) fd = Some f"
    and "of_type (cl_heap c ! f) = Regular" and "of_path (cl_heap c ! f) = path" and "get_flag (cl_heap c ! f) Append"
    and "io_ok env path buf 0 cnt" and "unat cnt \<le> length dst"
    and "h = md_host (env_net env) path 0"
    and "fst (fst (rpc_srv_update_metadentry_size (mn_srv (env_net env) h) (g_meta (cl_sys c) h) path cnt
      (of_pos (cl_heap c ! f)) True)) \<noteq> 0"
  shows "\<exists>c1. gkfs_write env c fd buf cnt = (int (unat cnt), c1) \<and>
    gkfs_pread env c1 fd dst cnt 0 = Some (int (unat cnt), take (unat cnt) buf @ drop (unat cnt) dst, c1)"
proof -
  have net: "post_ok (mn_rpc (env_net env)) h" "reply_ok (mn_rpc (env_net env)) h"
    using assms(6) by (simp_all add: io_ok_def healthy_net_def)
  obtain err x m where m: "rpc_srv_update_metadentry_size (mn_srv (env_net env) h) (g_meta (cl_sys c) h) path cnt
      (of_pos (cl_heap c ! f)) True = ((err, x), m)" "err \<noteq> 0"
    using assms(9) by (metis prod.collapse)
  obtain g where "forward_update_metadentry_size (env_net env) (cl_sys c) path cnt (of_pos (cl_heap c ! f)) True 0 = ((0, 0), g)"
    using m net assms(8) by (simp add: forward_update_metadentry_size_def Let_def call_def on_meta_def)
  then have "report_size env path cnt (of_pos (cl_heap c ! f)) (get_flag (cl_heap c ! f) Append) c = (Inr 0, c\<lparr>cl_sys := g\<rparr>)"
    using assms(1,5) by (simp add: report_size_def update_file_size_def)
  from gkfs_do_write_at [OF assms(3,4) this assms(6), of True] assms(2)
  have w: "gkfs_write env c fd buf cnt = (int (unat cnt),
      move_pos f cnt (c\<lparr>cl_sys := g\<lparr>g_data := written env (g_data g) path buf 0 cnt\<rparr>\<rparr>))" (is "_ = (_, ?c1)")
    by (simp add: gkfs_write_def gkfs_write_ws_def)
  have "gkfs_pread env ?c1 fd dst cnt 0 = Some (int (unat cnt), take (unat cnt) buf @ drop (unat cnt) dst, ?c1)"
    using assms(2-4) by (intro gkfs_pread_back [where f = f, OF _ _ _ assms(6,7)]) (simp_all add: move_pos_file)
  with w show ?thesis by blast
qed

theorem append_error_overwrites_start_witness:
  "\<exists>c1. gkfs_write (sample_env 0) (sample_client O_APPEND\<lparr>cl_sys := sample_sys\<lparr>g_meta := \<lambda>_. sample_mdb\<rparr>\<rparr>) 10000
      (replicate 16 7) 16 = (16, c1) \<and>
    gkfs_pread (sample_env 0) c1 10000 (replicate 16 0) 16 0 = Some (16, replicate 16 7, c1)"
proof -
  have "fst (fst (rpc_srv_update_metadentry_size (sample_md_srv 0) sample_mdb ''/d/f'' 16 0 True)) = EBUSY"
    by code_simp
  then show ?thesis
    using append_error_overwrites_start [of "sample_env 0" "sample_client O_APPEND\<lparr>cl_sys := sample_sys\<lparr>g_meta := \<lambda>_. sample_mdb\<rparr>\<rparr>"
        10000 0 "''/d/f''" "replicate 16 7" 16 "replicate 16 0" 0]
    by (simp add: sample_client_sel io_ok_def plain_range_def is_power_of_2_def piece_count_def md_host_def sample_md_net_locate)
qed

section \<open>Remove\<close>

text \<open>
  C6. Removing a regular file removes all of it: afterwards no host of a copy has an entry for the path, and no host a
  chunk up to the size of the file is placed on, in any copy, holds a chunk of it, whether the reduced set of hosts or
  all hosts are asked. The entries of other paths and the chunks of files with another chunk directory stay as they were.
\<close>

theorem remove_clears_file:
  assumes "net_ok cfg hist net g" and "S_ISREG (md_mode md)"
    and "\<And>copy. copy \<in> set (copy_range nc) \<Longrightarrow> host_entry cfg hist g (md_host net path copy) path = Some md"
    and "distinct (map (md_host net path) (copy_range nc))"
    and "\<And>c copy. copy \<in> set (copy_range nc) \<Longrightarrow> (ucast (mn_locate_data net path c copy) :: u64) < mn_hosts_size net"
  shows "\<exists>g'. forward_remove csz net g path False nc = (0, g') \<and>
    (\<forall>copy \<in> set (copy_range nc). host_entry cfg hist g' (md_host net path copy) path = None) \<and>
    (\<forall>c c'. \<forall>copy \<in> set (copy_range nc). 0 < md_size md \<and> c \<le> md_size md div csz \<longrightarrow>
       daemon_chunk (mn_rpc net) (g_data g') (ucast (mn_locate_data net path (ucast c) copy)) path c' = []) \<and>
    (\<forall>q h. q \<noteq> path \<longrightarrow> host_entry cfg hist g' h q = host_entry cfg hist g h q) \<and>
    (\<forall>q h c. get_chunks_dir q \<noteq> get_chunks_dir path \<longrightarrow>
       daemon_chunk (mn_rpc net) (g_data g') h q c = daemon_chunk (mn_rpc net) (g_data g) h q c)"
proof -
  let ?cs = "copy_range nc" and ?sz = "md_size md"
  have zero: "0 \<in> set ?cs" by (auto simp: copy_range_def)
  then have ne: "?cs \<noteq> []" by auto
  have small: "unat ?sz < 2 ^ 63"
    using host_entry_stored(2) [OF assms(1) assms(3) [OF zero]] by (simp add: storable_def)
  obtain g1 where g1: "remove_metadata_loop net path False ?cs (0, 0) g = (Inr (?sz, md_mode md), g1)" "net_ok cfg hist net g1"
    "g_data g1 = (if ?sz = 0 then g_data g else wipe (mn_rpc net) path (md_host net path ` set ?cs) (g_data g))"
    "\<And>h. host_entry cfg hist g1 h =
       (if h \<in> md_host net path ` set ?cs then (host_entry cfg hist g h)(path := None) else host_entry cfg hist g h)"
    using remove_metadata_loop_law [OF assms(1,3,2,4), of "(0, 0)"] ne by auto
  define hs where "hs = (if ?sz = 0 then [] else remove_hosts csz net path ?sz nc)"
  let ?g = "g1\<lparr>g_data := wipe (mn_rpc net) path (set hs) (g_data g1)\<rparr>"
  have r: "forward_remove csz net g path False nc = (0, ?g)"
    using g1(1) assms(2) remove_data_loop_law [OF g1(2)] by (simp add: forward_remove_def hs_def)
  have in_hs: "ucast (mn_locate_data net path (ucast c) copy) \<in> set hs"
    if "copy \<in> set ?cs" "?sz \<noteq> 0" "c \<le> ?sz div csz" for c copy
    using remove_hosts_cover [OF small that(3,1) refl assms(5) [OF that(1)]] that(2) by (simp add: hs_def)
  have "daemon_chunk (mn_rpc net) (g_data ?g) (ucast (mn_locate_data net path (ucast c) copy)) path c' = []"
    if "copy \<in> set ?cs" "0 < ?sz" "c \<le> ?sz div csz" for c c' copy
    using in_hs [OF that(1) _ that(3)] that(2) by (simp add: daemon_chunk_wipe word_gt_0)
  moreover have "daemon_chunk (mn_rpc net) (g_data ?g) h q c = daemon_chunk (mn_rpc net) (g_data g) h q c"
    if "get_chunks_dir q \<noteq> get_chunks_dir path" for q h c
    using that g1(3) by (simp add: daemon_chunk_wipe)
  moreover have "host_entry cfg hist ?g h = host_entry cfg hist g1 h" for h by (simp add: host_entry_def)
  ultimately show ?thesis using r g1(4) by (intro exI [of _ ?g]) simp
qed

theorem remove_clears_file_witness:
  "\<exists>g'. forward_remove 524288 sample_md_net sample_sys ''/d/f'' False 0 = (0, g') \<and>
     host_entry sample_config map_of g' 0 ''/d/f'' = None \<and> daemon_chunk sample_net (g_data g') 0 ''/d/f'' 0 = []"
proof -
  have "host_entry sample_config map_of sample_sys (md_host sample_md_net ''/d/f'' 0) ''/d/f'' = Some sample_md"
    using sample_entries by (metis net_entry_def fun_upd_same)
  moreover have "(ucast (sample_hosts path c 0) :: u64) < 6" for path c
    by (simp add: sample_hosts_def mod_2_eq_odd of_bool_def)
  moreover have "sample_hosts path 0 0 = 0" for path by (simp add: sample_hosts_def)
  ultimately show ?thesis
    using remove_clears_file [of sample_config map_of sample_md_net sample_sys sample_md 0 "''/d/f''" 524288]
    by (auto simp: md_host_def sample_md_net_locate dest!: spec [where x = 0])
qed

section \<open>Rename\<close>





section \<open>Open files\<close>

text \<open>
  C10. A client never holds a dangling descriptor: after any sequence of file operations, with whatever results and
  errors and whatever other processes do to the daemons, every descriptor refers to an open file that exists, only
  directories have entries, and opening one more file takes a new descriptor and leaves the open files alone. The
  exception is \<open>dup2\<close> onto the next descriptor.
\<close>

theorem client_descriptors_valid:
  assumes "client_reach env c" and "fm_get (cl_map c) fd = Some f"
  shows "f < length (cl_heap c) \<and> (of_type (cl_heap c ! f) = Regular \<longrightarrow> of_entries (cl_heap c ! f) = []) \<and>
    (\<forall>new fd' c'. add_file new c = Some (fd', c') \<longrightarrow>
       fd' \<noteq> fd \<and> fm_get (cl_map c') fd = Some f \<and> cl_heap c' ! f = cl_heap c ! f)"
proof -
  have w: "wf_map (cl_map c)" "f < length (cl_heap c)" "wf_file (cl_heap c ! f)"
    using client_reach_wf [OF assms(1)] assms(2) by (auto simp: wf_client_def list_all_length)
  have "fd' \<noteq> fd \<and> fm_get (cl_map c') fd = Some f \<and> cl_heap c' ! f = cl_heap c ! f" if "add_file new c = Some (fd', c')" for new fd' c'
  proof -
    obtain m where m: "fm_add (length (cl_heap c)) (cl_map c) = Some (fd', m)" "c' = c\<lparr>cl_heap := cl_heap c @ [new], cl_map := m\<rparr>"
      using \<open>add_file new c = Some (fd', c')\<close> by (auto simp: add_file_def split: Option.bind_splits)
    show ?thesis using wf_fm_add(2,3) [OF w(1) m(1)] assms(2) w(2) m(2) by (auto simp: fm_get_def nth_append)
  qed
  then show ?thesis using w(2,3) by (auto simp: wf_file_def)
qed

theorem client_descriptors_valid_witness:
  "\<exists>c f. client_reach (sample_env 0) c \<and> fm_get (cl_map c) 10000 = Some f \<and> f < length (cl_heap c)"
proof -
  let ?c = "(sample_client 0)\<lparr>cl_map := OpenFileMap_new, cl_heap := []\<rparr>"
  have "plain_client sample_config map_of (sample_env 0) ?c"
    using sample_plain_client [of 0] by (simp add: plain_client_def)
  moreover have "client_entry sample_config map_of (sample_env 0) ?c ''/d/f'' = Some sample_md"
    using sample_entry [of 0 0] by (simp add: client_entry_def)
  ultimately obtain c1 where c1: "get_metadata (sample_env 0) ?c ''/d/f'' False = Some (Some sample_md, c1)"
    "cl_map c1 = OpenFileMap_new" "cl_heap c1 = []"
    using get_metadata_law [of sample_config map_of "sample_env 0" ?c False "''/d/f''"] by (auto simp: same_client_def)
  let ?c2 = "c1\<lparr>cl_heap := [OpenFile_new ''/d/f'' 0 Regular], cl_map := \<lparr>files = [(10000, 0)], fd_idx = 10001, fd_validation_needed = False\<rparr>\<rparr>"
  have "gkfs_open (sample_env 0) ?c ''/d/f'' 0 0 = Some (10000, ?c2)"
    using c1 by (subst gkfs_open.simps)
      (simp add: open_lookup_def open_existing_def add_file_def S_ISDIR_def OpenFileMap_new_def fm_add_def
        safe_generate_fd_idx_def generate_fd_idx_def INT_MAX_def map_insert_def Let_def)
  then have r: "client_reach (sample_env 0) ?c2"
    by (intro client_reach.step [OF client_reach.start client_step.open_file]) (simp_all add: fresh_client_def)
  have "fm_get (cl_map ?c2) 10000 = Some 0" by (simp add: fm_get_def)
  from client_descriptors_valid [OF r this] r this show ?thesis by blast
qed

end
