(* ===== verification/Directory_Proofs.thy ===== *)
theory Directory_Proofs
  imports Gkfs_Dirs Metadata_Net Metadata_Dirents
begin

text \<open>
  Directory listings from the stores of the daemons to the caller: the bytes a daemon pushes are read back as the
  entries it found, and the calls of \<open>getdents\<close> hand out every entry once.
\<close>

section \<open>The wire format\<close>

lemma read_names_fields:
  "\<forall>n \<in> set names. NUL \<notin> set n \<Longrightarrow> read_names (length names) (concat (map name_field names) @ rest) = names"
  by (induction names) (simp_all add: name_field_def c_str_nul)

lemma read_dirents_buffer:
  assumes "\<forall>e \<in> set es. NUL \<notin> set (fst e)"
  shows "read_dirents (length es) (dirents_buffer es @ rest) =
    map (\<lambda>(name, is_dir). (name, if is_dir then Directory else Regular)) es"
proof -
  have "read_names (length (map fst es)) (concat (map name_field (map fst es)) @ rest) = map fst es"
    using assms by (intro read_names_fields) auto
  then have "read_names (length es) (concat (map (name_field \<circ> fst) es) @ rest) = map fst es"
    by (simp add: comp_def)
  then show ?thesis
    by (simp add: read_dirents_def dirents_buffer_def zip_map_map zip_same_conv_map comp_def case_prod_beta bool_char_def NUL_def)
qed

lemma le_value_bytes: "le_value k (le_bytes k n @ rest) = n mod 256 ^ k"
proof (induction k arbitrary: n)
  case (Suc k)
  have "of_char (char_of (n mod 256) :: char) = n mod 256" by simp
  then show ?case using Suc.IH [of "n div 256"] by (simp add: mod_mult2_eq)
qed simp

lemma read_u64s_bytes:
  "read_u64s (length ws) (concat (map (\<lambda>w. le_bytes 8 (unat w)) ws) @ rest) = ws"
proof -
  have "drop (8 * i) (concat (map (\<lambda>w. le_bytes 8 (unat w)) ws) @ rest) =
      concat (map (\<lambda>w. le_bytes 8 (unat w)) (drop i ws)) @ rest" if "i \<le> length ws" for i
    using that by (induction i arbitrary: ws) (auto simp: neq_Nil_conv Suc_le_length_iff)
  moreover have "le_value 8 (concat (map (\<lambda>w. le_bytes 8 (unat w)) (drop i ws)) @ rest) = unat (ws ! i)" if "i < length ws" for i
    using that le_value_bytes [of 8 "unat (ws ! i)"] unat_u64_less [of "ws ! i"]
    by (simp add: Cons_nth_drop_Suc [symmetric])
  ultimately show ?thesis by (intro nth_equalityI) (simp_all add: read_u64s_def)
qed

lemma read_dirents_extended_buffer:
  assumes "\<forall>e \<in> set es. NUL \<notin> set (fst e)"
  shows "read_dirents_extended (length es) (dirents_extended_buffer es @ rest) = es"
proof -
  let ?names = "map fst es" and ?dirs = "map (fst \<circ> snd) es" and ?sizes = "map (fst \<circ> snd \<circ> snd) es"
    and ?ctimes = "map (snd \<circ> snd \<circ> snd) es"
  have len8: "length (concat (map (\<lambda>w. le_bytes 8 (unat w)) ws)) = 8 * length ws" for ws :: "u64 list"
    by (induction ws) simp_all
  define A B N where "A = concat (map (\<lambda>w. le_bytes 8 (unat w)) ?sizes)" and "B = concat (map (\<lambda>w. le_bytes 8 (unat w)) ?ctimes)"
    and "N = concat (map name_field ?names)"
  have len: "length A = 8 * length es" "length B = 8 * length es" using len8 [of ?sizes] len8 [of ?ctimes] by (simp_all add: A_def B_def)
  have b: "dirents_extended_buffer es = map bool_char ?dirs @ A @ B @ N"
    by (simp add: A_def B_def N_def dirents_extended_buffer_def comp_def case_prod_unfold)
  have d: "drop (length es) (dirents_extended_buffer es @ rest) = A @ B @ N @ rest"
    "drop (length es * 9) (dirents_extended_buffer es @ rest) = B @ N @ rest"
    "drop (length es * 17) (dirents_extended_buffer es @ rest) = N @ rest"
    "take (length es) (dirents_extended_buffer es @ rest) = map bool_char ?dirs"
    by (simp_all add: b len)
  have "read_names (length ?names) (N @ rest) = ?names"
    unfolding N_def using assms by (intro read_names_fields) auto
  moreover have "(bool_char b \<noteq> NUL) = b" for b by (simp add: bool_char_def NUL_def)
  ultimately show ?thesis
    using read_u64s_bytes [of ?sizes] read_u64s_bytes [of ?ctimes] unfolding A_def [symmetric] B_def [symmetric]
    by (simp add: read_dirents_extended_def d zip_map_map zip_same_conv_map comp_def del: drop_append take_append)
qed

section \<open>Over the network\<close>

definition dirents_ok :: "'s md_net \<Rightarrow> bool" where
  "dirents_ok net \<longleftrightarrow> (\<forall>h. de_get_input_ok (mn_dirents net h) \<and> de_bulk_create_ok (mn_dirents net h) \<and>
     de_bulk_access_ok (mn_dirents net h) \<and> de_bulk_push_ok (mn_dirents net h))"

definition dirents_size :: "(string \<times> bool) list \<Rightarrow> nat" where
  "dirents_size es = (\<Sum>e\<leftarrow>es. length (fst e)) + length es * 2"

definition dir_entry :: "string \<times> bool \<Rightarrow> DirEntry" where
  "dir_entry e = \<lparr>entry_name = fst e, entry_type = (if snd e then Directory else Regular)\<rparr>"

lemma serve_dirents_ok:
  assumes "net_ok cfg hist net g" and "dirents_ok net" and "dirents_size es \<le> bulk_size"
    and "mdb_get_dirents cfg (ms_api (mn_srv net h)) (g_meta g h) path = Inr es"
  shows "serve_dirents net g path bulk_size h region =
    (Some (0, length es), dirents_buffer es @ drop (length (dirents_buffer es)) region)"
proof -
  note n = net_okD(3,5) [OF assms(1), of h]
  have "dirents_buffer [] = []" by (simp add: dirents_buffer_def)
  then show ?thesis using n assms(2-4) length_dirents_buffer [of es]
    by (auto simp: serve_dirents_def rpc_srv_get_dirents_def push_dirents_def dirents_ok_def dirents_size_def Let_def not_less)
qed

lemma fold_OpenDir_add:
  "fold (\<lambda>(name, ftype). OpenDir_add name ftype) es d =
     d\<lparr>of_entries := of_entries d @ map (\<lambda>(name, ftype). \<lparr>entry_name = name, entry_type = ftype\<rparr>) es\<rparr>"
  by (induction es arbitrary: d) (auto simp: OpenDir_add_def)

lemma gather_dirents_ok:
  assumes "\<forall>x \<in> set xs. \<forall>e \<in> set (fst x). NUL \<notin> set (fst e)"
  shows "gather_dirents False (map (\<lambda>(es, rest). (Some (0, length es), dirents_buffer es @ rest)) xs) 0 d =
    (0, d\<lparr>of_entries := of_entries d @ concat (map (\<lambda>(es, _). map dir_entry es) xs)\<rparr>)"
  using assms
proof (induction xs arbitrary: d)
  case (Cons x xs)
  obtain es rest where x: "x = (es, rest)" by (cases x)
  have f: "(\<lambda>(name, ftype). \<lparr>entry_name = name, entry_type = ftype\<rparr>) \<circ>
      (\<lambda>(name, is_dir). (name, if is_dir then Directory else Regular)) = dir_entry"
    by (simp add: dir_entry_def case_prod_beta fun_eq_iff)
  have es: "\<forall>e \<in> set es. NUL \<notin> set (fst e)" and xs: "\<forall>x \<in> set xs. \<forall>e \<in> set (fst x). NUL \<notin> set (fst e)"
    using Cons.prems x by simp_all
  show ?case unfolding x using Cons.IH [OF xs] by (simp add: read_dirents_buffer [OF es] fold_OpenDir_add f)
qed simp

lemma forward_get_dirents_ok:
  assumes "net_ok cfg hist net g" and "dirents_ok net"
    and "\<And>h. h \<in> set (mn_dir_targets net) \<Longrightarrow>
      mdb_get_dirents cfg (ms_api (mn_srv net (ucast h))) (g_meta g (ucast h)) path = Inr (es h) \<and>
      dirents_size (es h) \<le> dirents_buff_size div length (mn_dir_targets net) \<and> (\<forall>e \<in> set (es h). NUL \<notin> set (fst e))"
  shows "forward_get_dirents net g large_buffer path =
    (0, Some ((OpenDir_new path)\<lparr>of_entries := concat (map (map dir_entry \<circ> es) (mn_dir_targets net))\<rparr>))"
proof -
  let ?ts = "mn_dir_targets net"
  let ?n = "dirents_buff_size div length ?ts"
  let ?f = "\<lambda>(i, h). (es h, drop (length (dirents_buffer (es h))) (take ?n (large_buffer i)))"
  have posted: "takeWhile (post_ok (mn_rpc net)) xs = xs" for xs using net_okD(2) [OF assms(1)] by simp
  have served: "map (\<lambda>(i, h). serve_dirents net g path ?n h (take ?n (large_buffer i))) (enumerate 0 (map ucast ?ts)) =
      map ((\<lambda>(es, rest). (Some (0, length es), dirents_buffer es @ rest)) \<circ> ?f) (enumerate 0 ?ts)"
    using serve_dirents_ok [OF assms(1,2)] assms(3)
    by (auto simp: enumerate_eq_zip zip_map2 dest!: set_zip_rightD)
  have entries: "concat (map (\<lambda>(es, _). map dir_entry es) (map ?f (enumerate 0 ?ts))) = concat (map (map dir_entry \<circ> es) ?ts)"
  proof -
    have "map (map dir_entry \<circ> es) (map snd (enumerate 0 ?ts)) = map (map dir_entry \<circ> es) ?ts" by simp
    then show ?thesis by (simp only: map_map comp_def case_prod_unfold fst_conv snd_conv)
  qed
  have names: "\<forall>x \<in> set (map ?f (enumerate 0 ?ts)). \<forall>e \<in> set (fst x). NUL \<notin> set (fst e)"
    using assms(3) by (fastforce simp: enumerate_eq_zip dest!: set_zip_rightD)
  have new: "of_entries (OpenDir_new path) = []" by (simp add: OpenDir_new_def OpenFile_new_def)
  have "gather_dirents False (map (\<lambda>(i, h). serve_dirents net g path ?n h (take ?n (large_buffer i)))
      (enumerate 0 (map ucast ?ts))) 0 (OpenDir_new path) =
      (0, (OpenDir_new path)\<lparr>of_entries := concat (map (map dir_entry \<circ> es) ?ts)\<rparr>)"
    using gather_dirents_ok [OF names, of "OpenDir_new path"]
    unfolding entries served map_map [symmetric] by (simp add: new del: map_map)
  then show ?thesis
    using net_okD(4) [OF assms(1)] by (simp add: forward_get_dirents_def posted Let_def)
qed

text \<open>The first-level entries of a directory that a host holds.\<close>

definition host_children ::
    "md_config \<Rightarrow> ('s \<Rightarrow> string \<rightharpoonup> raw_entry) \<Rightarrow> 's gekko \<Rightarrow> u64 \<Rightarrow> string \<Rightarrow> (string \<times> Metadata) set" where
  "host_children cfg hist g h dir = {(name, md). host_entry cfg hist g h (dirents_root dir @ name) = Some md \<and> name \<noteq> [] \<and>
     CHR ''/'' \<notin> set name \<and> \<not> (has_rename cfg \<and> md_blocks md = - 1)}"

definition listing_entry :: "string \<times> Metadata \<Rightarrow> DirEntry" where
  "listing_entry e = \<lparr>entry_name = fst e, entry_type = (if S_ISDIR (md_mode (snd e)) then Directory else Regular)\<rparr>"

lemma host_listing:
  assumes "net_ok cfg hist net g"
  shows "\<exists>es. mdb_get_dirents cfg (ms_api (mn_srv net h)) (g_meta g h) dir = Inr es \<and>
    (\<Sum>name \<in> fst ` host_children cfg hist g h dir. length name + 2) = dirents_size es \<and>
    fst ` set es = fst ` host_children cfg hist g h dir \<and>
    dir_entry ` set es = listing_entry ` host_children cfg hist g h dir"
proof -
  obtain es where es: "mdb_get_dirents cfg (ms_api (mn_srv net h)) (g_meta g h) dir = Inr es" "distinct (map fst es)"
    "set es = (\<lambda>(name, md). (name, S_ISDIR (md_mode md))) ` children cfg (mdb_view cfg hist (g_meta g h)) (dirents_root dir)"
    by (rule mdb_get_dirents_children [OF net_okD(8) [OF assms, of h], of dir])
  have ch: "set es = (\<lambda>(name, md). (name, S_ISDIR (md_mode md))) ` host_children cfg hist g h dir"
    using es(3) by (simp add: children_def host_children_def host_entry_def)
  have names: "fst ` set es = fst ` host_children cfg hist g h dir"
    and types: "dir_entry ` set es = listing_entry ` host_children cfg hist g h dir"
    unfolding ch image_image by (simp_all add: dir_entry_def listing_entry_def case_prod_beta)
  have "dirents_size es = (\<Sum>name\<leftarrow>map fst es. length name + 2)"
    unfolding dirents_size_def by (induction es) simp_all
  also have "\<dots> = (\<Sum>name \<in> fst ` set es. length name + 2)"
    by (subst sum_list_distinct_conv_sum_set [OF es(2)]) simp
  finally show ?thesis using es(1) names types by (intro exI [of _ es]) simp
qed

lemma forward_get_dirents_children:
  assumes "net_ok cfg hist net g" and "dirents_ok net"
    and "\<And>h. h \<in> set (mn_dir_targets net) \<Longrightarrow>
      (\<Sum>name \<in> fst ` host_children cfg hist g (ucast h) path. length name + 2) \<le> dirents_buff_size div length (mn_dir_targets net) \<and>
      (\<forall>name \<in> fst ` host_children cfg hist g (ucast h) path. NUL \<notin> set name)"
  shows "\<exists>d. forward_get_dirents net g large_buffer path = (0, Some d) \<and> of_type d = Directory \<and> of_path d = path \<and>
    of_pos d = 0 \<and> set (of_entries d) = (\<Union>h \<in> set (mn_dir_targets net). listing_entry ` host_children cfg hist g (ucast h) path)"
proof -
  let ?ch = "\<lambda>h :: host_t. host_children cfg hist g (ucast h) path"
  let ?P = "\<lambda>(h :: host_t) es. mdb_get_dirents cfg (ms_api (mn_srv net (ucast h))) (g_meta g (ucast h)) path = Inr es \<and>
      (\<Sum>name \<in> fst ` ?ch h. length name + 2) = dirents_size es \<and> fst ` set es = fst ` ?ch h \<and> dir_entry ` set es = listing_entry ` ?ch h"
  have "\<forall>h. \<exists>es. ?P h es" using host_listing [OF assms(1), of _ path] by blast
  from choice [OF this] obtain es where es: "?P h (es h)" for h by blast
  let ?d = "(OpenDir_new path)\<lparr>of_entries := concat (map (map dir_entry \<circ> es) (mn_dir_targets net))\<rparr>"
  have "forward_get_dirents net g large_buffer path = (0, Some ?d)"
  proof (rule forward_get_dirents_ok [OF assms(1,2)])
    fix h assume h: "h \<in> set (mn_dir_targets net)"
    have "NUL \<notin> set (fst e)" if "e \<in> set (es h)" for e
      using assms(3) [OF h] imageI [OF that, of fst] es [of h] by auto
    then show "mdb_get_dirents cfg (ms_api (mn_srv net (ucast h))) (g_meta g (ucast h)) path = Inr (es h) \<and>
        dirents_size (es h) \<le> dirents_buff_size div length (mn_dir_targets net) \<and> (\<forall>e \<in> set (es h). NUL \<notin> set (fst e))"
      using assms(3) [OF h] es [of h] by simp
  qed
  moreover have "set (of_entries ?d) = (\<Union>h \<in> set (mn_dir_targets net). listing_entry ` ?ch h)"
    using es by simp
  moreover have "of_type ?d = Directory" "of_path ?d = path" "of_pos ?d = 0" by (simp_all add: OpenDir_new_def OpenFile_new_def)
  ultimately show ?thesis by blast
qed

section \<open>Handing out entries\<close>

text \<open>The records of a list of entries, the first at position \<open>pos\<close>.\<close>

primrec dirent_records :: "(string \<Rightarrow> nat) \<Rightarrow> (string \<Rightarrow> u64) \<Rightarrow> string \<Rightarrow> u64 \<Rightarrow> DirEntry list \<Rightarrow> dirent list" where
  "dirent_records len str_hash path pos [] = []"
| "dirent_records len str_hash path pos (de # des) =
     dirent_at len str_hash path pos de # dirent_records len str_hash path (pos + 1) des"

lemma dirent_records_append:
  "dirent_records len str_hash path pos (xs @ ys) =
     dirent_records len str_hash path pos xs @ dirent_records len str_hash path (pos + of_nat (length xs)) ys"
  by (induction xs arbitrary: pos) (simp_all add: add.assoc add.commute add.left_commute)

lemma dirent_records_fields:
  "map (\<lambda>d. (d_name d, d_type d)) (dirent_records len str_hash path pos des) =
     map (\<lambda>e. (entry_name e, if entry_type e = Regular then DT_REG else DT_DIR)) des"
  by (induction des arbitrary: pos) (simp_all add: dirent_at_def)

text \<open>Positions of a directory with at most \<open>2 ^ 32\<close> entries survive the cut to 32 bits.\<close>

lemma getdent_here:
  assumes "length (of_entries d) \<le> 2 ^ 32" and "n < length (of_entries d)"
  shows "getdent d (ucast (of_nat n :: u64)) = Some (of_entries d ! n)"
proof -
  have "unat (ucast (of_nat n :: u64) :: u32) = n"
    using assms by (simp add: unsigned_ucast_eq unat_of_nat take_bit_nat_eq_self)
  then show ?thesis using assms(2) by (simp add: getdent_def)
qed

text \<open>One call hands out as many entries as fit, at least one if the first fits.\<close>

lemma fill_dirents_law:
  assumes "length (of_entries d) \<le> 2 ^ 32" and "n \<le> length (of_entries d)" and "written \<le> cnt"
  shows "\<exists>k w. n + k \<le> length (of_entries d) \<and> fill_dirents len str_hash d cnt (of_nat n) written =
      Some (dirent_records len str_hash (of_path d) (of_nat n) (take k (drop n (of_entries d))), of_nat (n + k), w) \<and>
    unat w = unat written + (\<Sum>de\<leftarrow>take k (drop n (of_entries d)). len (entry_name de)) \<and> w \<le> cnt \<and>
    (n < length (of_entries d) \<and> len (entry_name (of_entries d ! n)) \<le> unat (cnt - written) \<longrightarrow> 0 < k)"
  using assms(2,3)
proof (induction "length (of_entries d) - n" arbitrary: n written rule: less_induct)
  case less
  let ?es = "of_entries d" let ?de = "?es ! n"
  have size: "of_nat (OpenDir_size d) \<le> (of_nat n :: u64) \<longleftrightarrow> length ?es \<le> n"
    using assms(1) less.prems(1) by (simp add: OpenDir_size_def of_nat_u64_le)
  show ?case
  proof (cases "n < length ?es \<and> len (entry_name ?de) \<le> unat (cnt - written)")
    case False
    then have "fill_dirents len str_hash d cnt (of_nat n) written = Some ([], of_nat n, written)"
      using size getdent_here [OF assms(1)] by (subst fill_dirents.simps) (auto simp: Let_def)
    then show ?thesis using False less.prems by (intro exI [of _ 0] exI [of _ written]) simp
  next
    case True
    let ?w = "written + of_nat (len (entry_name ?de)) :: u32"
    have sub: "unat (cnt - written) = unat cnt - unat written" and le: "unat written \<le> unat cnt"
      using less.prems(2) by (simp_all add: unat_sub word_le_nat_alt)
    have "unat cnt < 2 ^ 32" using unsigned_less [of cnt, where ?'a = nat] by simp
    moreover have fits: "unat written + len (entry_name ?de) \<le> unat cnt" using True sub le by linarith
    ultimately have w: "unat ?w = unat written + len (entry_name ?de)" by (simp add: unat_word_ariths unat_of_nat)
    then have "?w \<le> cnt" using fits by (simp add: word_le_nat_alt)
    moreover have "length ?es - Suc n < length ?es - n" "Suc n \<le> length ?es" using True by auto
    ultimately obtain k w' where k: "Suc n + k \<le> length ?es"
      "fill_dirents len str_hash d cnt (of_nat (Suc n)) ?w =
        Some (dirent_records len str_hash (of_path d) (of_nat (Suc n)) (take k (drop (Suc n) ?es)), of_nat (Suc n + k), w')"
      "unat w' = unat ?w + (\<Sum>de\<leftarrow>take k (drop (Suc n) ?es). len (entry_name de))" "w' \<le> cnt"
      using less.hyps [of "Suc n" ?w] by blast
    have tk: "take (Suc k) (drop n ?es) = ?de # take k (drop (Suc n) ?es)" using True by (simp add: Cons_nth_drop_Suc [symmetric])
    have "fill_dirents len str_hash d cnt (of_nat n) written =
        Some (dirent_records len str_hash (of_path d) (of_nat n) (take (Suc k) (drop n ?es)), of_nat (n + Suc k), w')"
      using True size getdent_here [OF assms(1)] k(2) unfolding tk
      by (subst fill_dirents.simps) (simp add: Let_def not_less add.commute)
    then show ?thesis using k(1,3,4) w unfolding tk [symmetric]
      by (intro exI [of _ "Suc k"] exI [of _ w']) (simp add: tk)
  qed
qed

text \<open>
  The loop of an application that reads a directory: call \<open>getdents\<close> until it returns no more entries or an
  error. None when it does not end.
\<close>

partial_function (option) readdir_loop ::
    "'s cl_env \<Rightarrow> int \<Rightarrow> u32 \<Rightarrow> 's client \<Rightarrow> (int \<times> dirent list \<times> 's client) option" where
  "readdir_loop env fd cnt c =
     do { (ret, ds, c1) \<leftarrow> gkfs_getdents64 env c fd cnt;
          if ret \<le> 0 then Some (ret, ds, c1)
          else do { (ret', ds', c2) \<leftarrow> readdir_loop env fd cnt c1; Some (ret', ds @ ds', c2) } }"

definition at_entry :: "'s client \<Rightarrow> nat \<Rightarrow> nat \<Rightarrow> 's client" where
  "at_entry c f n = c\<lparr>cl_heap := (cl_heap c)[f := set_pos (of_nat n) (cl_heap c ! f)]\<rparr>"

lemma at_entry_dir:
  assumes "fm_get_dir (cl_heap c) (cl_map c) fd = Some f" and "f < length (cl_heap c)"
  shows "fm_get_dir (cl_heap (at_entry c f n)) (cl_map (at_entry c f n)) fd = Some f"
    and "cl_heap (at_entry c f n) ! f = set_pos (of_nat n) (cl_heap c ! f)"
  using assms by (auto simp: at_entry_def fm_get_dir_def set_pos_def nth_list_update split: option.splits if_splits)

lemma getdents64_step:
  assumes "fm_get_dir (cl_heap c) (cl_map c) fd = Some f" and "f < length (cl_heap c)" and "of_entries (cl_heap c ! f) = es"
    and "length es \<le> 2 ^ 32" and "n < length es" and "\<forall>de \<in> set es. reclen64 (entry_name de) \<le> unat cnt" and "unat cnt < 2 ^ 31"
  shows "\<exists>k ret. 0 < k \<and> n + k \<le> length es \<and> 0 < ret \<and> nat ret \<le> unat cnt \<and>
    gkfs_getdents64 env (at_entry c f n) fd cnt =
      Some (ret, dirent_records reclen64 (env_hash env) (of_path (cl_heap c ! f)) (of_nat n) (take k (drop n es)), at_entry c f (n + k))"
proof -
  let ?d = "set_pos (of_nat n) (cl_heap c ! f)"
  have d: "of_entries ?d = es" "of_path ?d = of_path (cl_heap c ! f)" "of_pos ?d = of_nat n" "set_pos p ?d = set_pos p (cl_heap c ! f)" for p
    using assms(3) by (simp_all add: set_pos_def)
  have size: "\<not> of_nat (OpenDir_size ?d) \<le> (of_nat n :: u64)"
    using assms(4,5) d(1) by (simp add: OpenDir_size_def of_nat_u64_le)
  have "reclen64 (entry_name (es ! n)) \<le> unat (cnt - 0)" using assms(5,6) by simp
  then obtain k w where k: "n + k \<le> length es" "0 < k" "unat w = (\<Sum>de\<leftarrow>take k (drop n es). reclen64 (entry_name de))" "w \<le> cnt"
    "fill_dirents reclen64 (env_hash env) ?d cnt (of_nat n) 0 =
      Some (dirent_records reclen64 (env_hash env) (of_path (cl_heap c ! f)) (of_nat n) (take k (drop n es)), of_nat (n + k), w)"
    using fill_dirents_law [of ?d n 0 cnt reclen64 "env_hash env"] assms(4,5) unfolding d by auto
  obtain de des where "take k (drop n es) = de # des" using k(2) assms(5) by (cases "take k (drop n es)") auto
  then have w: "0 < unat w" using k(3) reclen64_pos [of "entry_name de"] by simp
  have "unat w \<le> unat cnt" using k(4) by (simp add: word_le_nat_alt)
  then have sw: "sint w = int (unat w)" using assms(7) by (intro sint_small) simp
  have "gkfs_getdents64 env (at_entry c f n) fd cnt =
      Some (sint w, dirent_records reclen64 (env_hash env) (of_path (cl_heap c ! f)) (of_nat n) (take k (drop n es)), at_entry c f (n + k))"
    using at_entry_dir [OF assms(1,2), of n] size k(5) w d(3,4)
    by (auto simp: gkfs_getdents64_def read_dir_def Let_def) (simp_all add: at_entry_def)
  then show ?thesis using k(1,2) w sw \<open>unat w \<le> unat cnt\<close> by (intro exI [of _ k] exI [of _ "sint w"]) (simp del: of_nat_unat)
qed

lemma readdir_loop_ends:
  assumes "fm_get_dir (cl_heap c) (cl_map c) fd = Some f" and "f < length (cl_heap c)" and "of_entries (cl_heap c ! f) = es"
    and "length es \<le> 2 ^ 32" and "n \<le> length es" and "\<forall>de \<in> set es. reclen64 (entry_name de) \<le> unat cnt" and "unat cnt < 2 ^ 31"
  shows "readdir_loop env fd cnt (at_entry c f n) =
    Some (0, dirent_records reclen64 (env_hash env) (of_path (cl_heap c ! f)) (of_nat n) (drop n es), at_entry c f (length es))"
  using assms(5)
proof (induction "length es - n" arbitrary: n rule: less_induct)
  case less
  let ?records = "\<lambda>n. dirent_records reclen64 (env_hash env) (of_path (cl_heap c ! f)) (of_nat n)"
  show ?case
  proof (cases "n < length es")
    case True
    obtain k ret where k: "0 < k" "n + k \<le> length es" "0 < ret"
      "gkfs_getdents64 env (at_entry c f n) fd cnt = Some (ret, ?records n (take k (drop n es)), at_entry c f (n + k))"
      using getdents64_step [OF assms(1-4) True assms(6,7)] by blast
    have split: "drop n es = take k (drop n es) @ drop (n + k) es"
      by (metis add.commute append_take_drop_id drop_drop)
    have "length (take k (drop n es)) = k" using k(2) by simp
    then have "?records n (drop n es) = ?records n (take k (drop n es)) @ ?records (n + k) (drop (n + k) es)"
      by (subst split) (simp only: dirent_records_append of_nat_add)
    then show ?thesis using k less.hyps [of "n + k"] by (subst readdir_loop.simps) simp
  next
    case False
    then have n: "n = length es" using less.prems by simp
    then have "gkfs_getdents64 env (at_entry c f n) fd cnt = Some (0, [], at_entry c f n)"
      using at_entry_dir [OF assms(1,2), of n] assms(3)
      by (simp add: gkfs_getdents64_def read_dir_def OpenDir_size_def set_pos_def)
    then show ?thesis using n by (subst readdir_loop.simps) simp
  qed
qed

end
