(* ===== verification/Directory_Properties.thy ===== *)
theory Directory_Properties
  imports Directory_Proofs Sample_Client
begin

text \<open>
  Properties of directory listings, from the stores of the daemons to the records an application gets.
\<close>

text \<open>A store with a directory and a file in it, on the host that is asked.\<close>

definition sample_dir_md :: Metadata where
  "sample_dir_md = Metadata_default\<lparr>md_mode := 16895\<rparr>"

definition sample_mdb2 :: "sample_db mdb" where
  "sample_mdb2 = sample_mdb1\<lparr>mdb_state :=
     (''/d'', add_operand (serialize_operand (CreateOperand (serialize sample_config sample_dir_md))) None) # mdb_state sample_mdb1\<rparr>"

definition sample_dir_client :: "sample_db client" where
  "sample_dir_client = (sample_client 0)\<lparr>cl_sys := sample_sys\<lparr>g_meta := \<lambda>h. if h = 0 then sample_mdb2 else sample_mdb\<rparr>\<rparr>"

lemma sample_mdb2_valid:
  "mdb_valid sample_config (sample_rocksdb sample_config) map_of sample_mdb2"
  "mdb_view sample_config map_of sample_mdb2 = [''/d/f'' \<mapsto> sample_md, ''/d'' \<mapsto> sample_dir_md]"
proof -
  have "storable sample_config sample_dir_md" by (simp add: storable_def sample_dir_md_def Metadata_default_def)
  note e = entry_new(1) [OF this]
  have st: "stored sample_config sample_dir_md = sample_dir_md"
    by (simp add: stored_def sample_dir_md_def Metadata_default_def sample_config_def)
  have wf: "wf_hist sample_config (map_of (mdb_state sample_mdb1))"
    using sample_mdb1_valid(1) by (simp add: mdb_valid_def)
  show "mdb_valid sample_config (sample_rocksdb sample_config) map_of sample_mdb2"
    using wf_hist_upd [OF wf e] sample_mdb1_valid(1) by (simp add: mdb_valid_def sample_mdb2_def)
  show "mdb_view sample_config map_of sample_mdb2 = [''/d/f'' \<mapsto> sample_md, ''/d'' \<mapsto> sample_dir_md]"
    using view_upd [OF e, of "map_of (mdb_state sample_mdb1)"] sample_mdb1_valid(2) st by (simp add: mdb_view_def sample_mdb2_def)
qed

lemma sample_mdb_view: "mdb_view cfg map_of sample_mdb = Map.empty"
  by (simp add: mdb_view_def view_def sample_mdb_def fun_eq_iff)

lemma sample_dir_plain: "plain_client sample_config map_of (sample_env 0) sample_dir_client"
  by (auto simp: plain_client_def sample_dir_client_def net_ok_def sample_md_net_def sample_md_srv_def sample_mdb2_valid(1) sample_mdb_valid)

section \<open>Opening a directory\<close>

text \<open>
  C8. Opening a directory returns a fresh descriptor whose entries are exactly the first-level entries, with their
  types, that the hosts responsible for directory listings hold for it, without renamed ones: what the daemons scan,
  push and the client parses back is the listing of the stores, whatever the receive buffers held before. The listing
  of a host must fit its share of the client's 8 MiB buffer.
\<close>

theorem opendir_lists_directory:
  assumes "plain_client cfg hist env c" and "client_entry cfg hist env c path = Some md" and "S_ISDIR (md_mode md)"
    and "fm_reach (cl_map c)" and "100000 \<le> free" and "free < INT_MAX" and "fm_get (cl_map c) free = None"
    and "dirents_ok (env_net env)"
    and "\<And>h. h \<in> set (mn_dir_targets (env_net env)) \<Longrightarrow>
      (\<Sum>name \<in> fst ` host_children cfg hist (cl_sys c) (ucast h) path. length name + 2)
        \<le> dirents_buff_size div length (mn_dir_targets (env_net env)) \<and>
      (\<forall>name \<in> fst ` host_children cfg hist (cl_sys c) (ucast h) path. NUL \<notin> set name)"
  shows "\<exists>fd c1 f. gkfs_opendir env c path = Some (fd, c1) \<and> fm_get (cl_map c) fd = None \<and>
    fm_get_dir (cl_heap c1) (cl_map c1) fd = Some f \<and> of_pos (cl_heap c1 ! f) = 0 \<and> of_path (cl_heap c1 ! f) = path \<and>
    set (of_entries (cl_heap c1 ! f)) =
      {\<lparr>entry_name = name, entry_type = (if S_ISDIR (md_mode md) then Directory else Regular)\<rparr> | name md h.
        h \<in> set (mn_dir_targets (env_net env)) \<and> (name, md) \<in> host_children cfg hist (cl_sys c) (ucast h) path}"
proof -
  let ?net = "env_net env" and ?ch = "\<lambda>h. host_children cfg hist (cl_sys c) (ucast h) path"
  obtain c0 where c0: "get_metadata env c path False = Some (Some md, c0)" "same_client cfg hist env c c0"
    using get_metadata_law [OF assms(1), of False path] assms(2) by auto
  have ok: "net_ok cfg hist ?net (cl_sys c0)" and hc: "host_children cfg hist (cl_sys c0) = host_children cfg hist (cl_sys c)"
    and same: "cl_map c0 = cl_map c" "\<not> env_use_dentry env"
    using c0(2) by (auto simp: same_client_def plain_client_def host_children_def fun_eq_iff)
  obtain d where fwd: "forward_get_dirents ?net (cl_sys c0) (env_buffer env) path = (0, Some d)"
    and d: "of_type d = Directory" "of_path d = path" "of_pos d = 0" "set (of_entries d) = (\<Union>h \<in> set (mn_dir_targets ?net). listing_entry ` ?ch h)"
    using forward_get_dirents_children [OF ok assms(8), of path "env_buffer env"] assms(9) unfolding hc by blast
  obtain fd m where fd: "fm_add (length (cl_heap c0)) (cl_map c0) = Some (fd, m)" "fm_get (cl_map c) fd = None"
    "fm_get m fd = Some (length (cl_heap c0))"
    using fm_add_fresh [OF fm_reach_wf [OF assms(4)] assms(5,6), of "length (cl_heap c0)"] assms(7) same(1)
    by (auto simp: fm_get_def)
  let ?c1 = "c0\<lparr>cl_heap := cl_heap c0 @ [d], cl_map := m\<rparr>"
  have "gkfs_opendir env c path = Some (fd, ?c1)"
    using c0(1) assms(3) same(2) fwd fd(1) by (simp add: gkfs_opendir_def add_file_def)
  moreover have "fm_get_dir (cl_heap ?c1) (cl_map ?c1) fd = Some (length (cl_heap c0))"
    using fd(3) d(1) by (simp add: fm_get_dir_def)
  moreover have "set (of_entries d) =
      {\<lparr>entry_name = name, entry_type = (if S_ISDIR (md_mode md) then Directory else Regular)\<rparr> | name md h.
        h \<in> set (mn_dir_targets ?net) \<and> (name, md) \<in> ?ch h}"
    unfolding d(4) listing_entry_def by force
  ultimately show ?thesis using fd(2) d(2,3)
    by (intro exI [of _ fd] exI [of _ ?c1] exI [of _ "length (cl_heap c0)"]) simp
qed

theorem opendir_lists_directory_witness:
  "\<exists>fd c1 f. gkfs_opendir (sample_env 0) sample_dir_client ''/d'' = Some (fd, c1) \<and>
     fm_get_dir (cl_heap c1) (cl_map c1) fd = Some f \<and>
     set (of_entries (cl_heap c1 ! f)) = {\<lparr>entry_name = ''f'', entry_type = Regular\<rparr>}"
proof -
  have ch: "host_children sample_config map_of (cl_sys sample_dir_client) h ''/d'' = (if h = 0 then {(''f'', sample_md)} else {})" for h
    using sample_mdb2_valid(2) sample_mdb_view
    by (auto simp: host_children_def host_entry_def sample_dir_client_def dirents_root_def has_trailing_slash_def
        split: if_splits)
  have reach: "fm_reach (cl_map sample_dir_client)" and free: "fm_get (cl_map sample_dir_client) 100000 = None"
    using fm_reach.add [OF fm_reach.new, of 0]
    by (simp_all add: sample_dir_client_def sample_client_def OpenFileMap_new_def fm_add_def safe_generate_fd_idx_def
        generate_fd_idx_def INT_MAX_def map_insert_def fm_get_def)
  have e: "client_entry sample_config map_of (sample_env 0) sample_dir_client ''/d'' = Some sample_dir_md"
    using sample_mdb2_valid(2) by (simp add: client_entry_def net_entry_def host_entry_def md_host_def sample_md_net_locate sample_dir_client_def)
  have dir: "S_ISDIR (md_mode sample_dir_md)" by (simp add: sample_dir_md_def S_ISDIR_def)
  have net: "dirents_ok (env_net (sample_env 0))" and tgt: "mn_dir_targets sample_md_net = [0, 1]"
    by (simp_all add: dirents_ok_def sample_md_net_def)
  have fits: "(\<Sum>name \<in> fst ` host_children sample_config map_of (cl_sys sample_dir_client) (ucast h) ''/d''. length name + 2)
        \<le> dirents_buff_size div length (mn_dir_targets (env_net (sample_env 0))) \<and>
      (\<forall>name \<in> fst ` host_children sample_config map_of (cl_sys sample_dir_client) (ucast h) ''/d''. NUL \<notin> set name)" for h :: host_t
    by (simp add: ch tgt dirents_buff_size_def NUL_def numeral_2_eq_2 [symmetric])
  have "{\<lparr>entry_name = name, entry_type = (if S_ISDIR (md_mode md) then Directory else Regular)\<rparr> | name md h.
        h \<in> set (mn_dir_targets (env_net (sample_env 0))) \<and>
        (name, md) \<in> host_children sample_config map_of (cl_sys sample_dir_client) (ucast h) ''/d''} =
      {\<lparr>entry_name = ''f'', entry_type = Regular\<rparr>}"
    (is "?L = ?R")
  proof
    show "?L \<subseteq> ?R" by (auto simp: ch tgt S_ISDIR_def split: if_splits)
    have "\<lparr>entry_name = ''f'', entry_type = Regular\<rparr> \<in> ?L"
      by (rule CollectI, intro exI [of _ "''f''"] exI [of _ sample_md] exI [of _ 0]) (simp add: ch tgt S_ISDIR_def)
    then show "?R \<subseteq> ?L" by simp
  qed
  with opendir_lists_directory [OF sample_dir_plain e dir reach _ _ free net fits] show ?thesis
    by (auto simp: INT_MAX_def)
qed

section \<open>Reading a directory\<close>

text \<open>
  C9. Reading an open directory ends: an application that calls \<open>getdents\<close> until no more entries come gets, when
  each record alone fits its buffer, the records of all entries from the current position on, each once and in order,
  and no error, in however many calls. Afterwards the position is at the end, and nothing else of the client changed.
  The directory has at most \<open>2 ^ 32\<close> entries, since positions are cut to 32 bits, and the buffer less than 2 GiB, since
  the number of bytes is returned as an \<open>int\<close>.
\<close>

theorem readdir_ends_with_all_entries:
  assumes "fm_get_dir (cl_heap c) (cl_map c) fd = Some f" and "f < length (cl_heap c)"
    and "of_entries (cl_heap c ! f) = es" and "of_pos (cl_heap c ! f) = of_nat n" and "n \<le> length es" and "length es \<le> 2 ^ 32"
    and "\<forall>e \<in> set es. reclen64 (entry_name e) \<le> unat cnt" and "unat cnt < 2 ^ 31"
  shows "\<exists>ds. readdir_loop env fd cnt c =
      Some (0, ds, c\<lparr>cl_heap := (cl_heap c)[f := set_pos (of_nat (length es)) (cl_heap c ! f)]\<rparr>) \<and>
    map (\<lambda>d. (d_name d, d_type d)) ds =
      map (\<lambda>e. (entry_name e, if entry_type e = Regular then DT_REG else DT_DIR)) (drop n es)"
proof -
  have "at_entry c f n = c" using assms(2,4) by (simp add: at_entry_def set_pos_def flip: assms(4))
  then show ?thesis
    using readdir_loop_ends [OF assms(1-3,6,5,7,8), of env] dirent_records_fields [of reclen64 _ _ _ "drop n es"]
    by (auto simp: at_entry_def)
qed

theorem readdir_ends_with_all_entries_witness:
  "\<exists>ds c1. readdir_loop (sample_env 0) 10000 64 ((sample_client 0)\<lparr>cl_heap := [(OpenDir_new ''/d'')\<lparr>of_entries :=
       [\<lparr>entry_name = ''f'', entry_type = Regular\<rparr>, \<lparr>entry_name = ''sub'', entry_type = Directory\<rparr>,
        \<lparr>entry_name = ''last'', entry_type = Regular\<rparr>]\<rparr>]\<rparr>) = Some (0, ds, c1) \<and>
     map (\<lambda>d. (d_name d, d_type d)) ds = [(''f'', 8), (''sub'', 4), (''last'', 8)]"
  (is "\<exists>ds c1. readdir_loop _ _ _ ?c = _ \<and> _")
proof -
  have d: "fm_get_dir (cl_heap ?c) (cl_map ?c) 10000 = Some 0" "0 < length (cl_heap ?c)" "of_pos (cl_heap ?c ! 0) = of_nat 0"
    by (simp_all add: sample_client_def fm_get_dir_def fm_get_def OpenDir_new_def OpenFile_new_def)
  show ?thesis
    using readdir_ends_with_all_entries [OF d(1,2) refl d(3), of 64 "sample_env 0"]
    by (auto simp: reclen64_def ALIGN_def DT_REG_def DT_DIR_def)
qed

end
