(* ===== verification/Preload_Context.thy ===== *)
theory Preload_Context
  imports Client_Path Open_File_Map
begin

text \<open>
  The context of a client process (\<open>src/client/preload_context.cpp\<close>): how a path given with a system call is
  classified, and the table of descriptors the library has opened for itself.
\<close>

section \<open>Classifying paths\<close>

datatype RelativizeStatus = Internal | External | Fd_unknown | Fd_not_a_dir

definition AT_FDCWD :: int where "AT_FDCWD = - 100"
definition AT_EMPTY_PATH :: u32 where "AT_EMPTY_PATH = 0x1000"

text \<open>The build options of the resolver and the file system of the host.\<close>

record path_env =
  use_legacy :: bool
  follow_external :: bool
  host :: host_fs

text \<open>None: the resolver throws. Where the code does not set the resolved path, it is empty.\<close>

definition relativize_fd_path ::
    "path_env \<Rightarrow> path_ctx \<Rightarrow> OpenFile list \<Rightarrow> OpenFileMap \<Rightarrow> int \<Rightarrow> string \<Rightarrow> u32 \<Rightarrow> bool
       \<Rightarrow> (RelativizeStatus \<times> string) option" where
  "relativize_fd_path pe ctx heap m dirfd raw_path flags resolve_last_link =
     (let classify = (\<lambda>path. map_option (\<lambda>(is_in_path, resolved). (if is_in_path then Internal else External, resolved))
            (resolve (use_legacy pe) (follow_external pe) ctx (host pe) path resolve_last_link))
      in if raw_path \<noteq> [] \<and> hd raw_path = separator then classify raw_path
         else if dirfd = AT_FDCWD then classify (prepend_path (cwd ctx) raw_path)
         else (case fm_get m dirfd of
                 None \<Rightarrow> Some (Fd_unknown, [])
               | Some f \<Rightarrow>
                   if flags AND AT_EMPTY_PATH \<noteq> 0 then Some (Internal, of_path (heap ! f))
                   else (case fm_get_dir heap m dirfd of
                           None \<Rightarrow> Some (Fd_not_a_dir, [])
                         | Some dir \<Rightarrow>
                             classify (mountdir ctx @ of_path (heap ! dir) @ [separator] @ raw_path))))"

definition relativize_path :: "path_env \<Rightarrow> path_ctx \<Rightarrow> string \<Rightarrow> bool \<Rightarrow> (bool \<times> string) option" where
  "relativize_path pe ctx raw_path resolve_last_link =
     resolve (use_legacy pe) (follow_external pe) ctx (host pe)
       (if raw_path \<noteq> [] \<and> hd raw_path = separator then raw_path else prepend_path (cwd ctx) raw_path)
       resolve_last_link"

section \<open>Descriptors of the library\<close>

text \<open>
  The kernel descriptors from \<open>MIN_INTERNAL_FD\<close> on are reserved for the library: a bit set with one bit for each,
  set while it is free. \<open>dup3\<close> is the kernel's answer; moving the bits out of range throws.
\<close>

record internal_fds =
  free_fds :: "bool list"
  min_internal_fd :: int
  must_relocate :: bool

datatype fd_exn = Fds_exhausted | Out_of_range

definition internal_fds_new :: "nat \<Rightarrow> int \<Rightarrow> internal_fds" where
  "internal_fds_new max_internal max_open =
     \<lparr>free_fds = replicate max_internal True, min_internal_fd = max_open - int max_internal, must_relocate = True\<rparr>"

definition find_first :: "bool list \<Rightarrow> nat" where
  "find_first bits = length (takeWhile Not bits)"

definition slot :: "internal_fds \<Rightarrow> int \<Rightarrow> nat option" where
  "slot t fd = (let pos = fd - min_internal_fd t
     in if 0 \<le> pos \<and> nat pos < length (free_fds t) then Some (nat pos) else None)"

definition register_internal_fd :: "(int \<Rightarrow> int \<Rightarrow> int) \<Rightarrow> int \<Rightarrow> internal_fds \<Rightarrow> fd_exn + int \<times> internal_fds" where
  "register_internal_fd dup3 fd t =
     (if \<not> must_relocate t
      then (case slot t fd of
              None \<Rightarrow> Inl Out_of_range
            | Some pos \<Rightarrow> Inr (fd, t\<lparr>free_fds := (free_fds t)[pos := False]\<rparr>))
      else (let pos = find_first (free_fds t)
            in if pos = length (free_fds t) then Inl Fds_exhausted
               else Inr (dup3 fd (int pos + min_internal_fd t), t\<lparr>free_fds := (free_fds t)[pos := False]\<rparr>)))"

definition unregister_internal_fd :: "int \<Rightarrow> internal_fds \<Rightarrow> fd_exn + internal_fds" where
  "unregister_internal_fd fd t = (case slot t fd of
       None \<Rightarrow> Inl Out_of_range
     | Some pos \<Rightarrow> Inr (t\<lparr>free_fds := (free_fds t)[pos := True]\<rparr>))"

definition is_internal_fd :: "int \<Rightarrow> internal_fds \<Rightarrow> fd_exn + bool" where
  "is_internal_fd fd t =
     (if fd < min_internal_fd t then Inr False
      else case slot t fd of None \<Rightarrow> Inl Out_of_range | Some pos \<Rightarrow> Inr (\<not> free_fds t ! pos))"

section \<open>The table keeps descriptors apart\<close>

lemma find_first_free:
  assumes "find_first bits \<noteq> length bits"
  shows "find_first bits < length bits" and "bits ! find_first bits"
proof -
  have "length (takeWhile Not bits) \<le> length bits" by (rule length_takeWhile_le)
  then show l: "find_first bits < length bits" using assms by (simp add: find_first_def)
  show "bits ! find_first bits" using nth_length_takeWhile [of Not bits] l by (simp add: find_first_def)
qed

lemma find_first_none: "find_first bits = length bits \<longleftrightarrow> True \<notin> set bits"
  by (induction bits) (auto simp: find_first_def)

text \<open>
  As long as the kernel puts a descriptor where it is asked to, a registered one was not in use by the library
  before, is from then on, and no other changes; released descriptors can be used again.
\<close>

lemma register_internal_fd_fresh:
  assumes "must_relocate t" and "\<And>new. dup3 fd new = new" and "register_internal_fd dup3 fd t = Inr (ifd, t')"
  shows "is_internal_fd ifd t = Inr False" and "is_internal_fd ifd t' = Inr True"
    and "fd' \<noteq> ifd \<Longrightarrow> is_internal_fd fd' t' = is_internal_fd fd' t"
    and "unregister_internal_fd ifd t' = Inr t"
proof -
  let ?pos = "find_first (free_fds t)"
  have p: "?pos \<noteq> length (free_fds t)" and ifd: "ifd = int ?pos + min_internal_fd t"
    and t': "t' = t\<lparr>free_fds := (free_fds t)[?pos := False]\<rparr>"
    using assms by (auto simp: register_internal_fd_def Let_def split: if_splits)
  note f = find_first_free [OF p]
  show "is_internal_fd ifd t = Inr False" "is_internal_fd ifd t' = Inr True"
    using f by (simp_all add: is_internal_fd_def slot_def Let_def ifd t')
  show "is_internal_fd fd' t' = is_internal_fd fd' t" if "fd' \<noteq> ifd"
    using that f by (auto simp: is_internal_fd_def slot_def Let_def ifd t' nth_list_update split: option.splits)
  show "unregister_internal_fd ifd t' = Inr t"
    using f by (cases t) (simp add: unregister_internal_fd_def slot_def Let_def ifd t' list_update_same_conv)
qed

lemma register_internal_fd_exhausted:
  assumes "must_relocate t"
  shows "register_internal_fd dup3 fd t = Inl Fds_exhausted \<longleftrightarrow> True \<notin> set (free_fds t)"
  using assms find_first_none [of "free_fds t"] by (simp add: register_internal_fd_def Let_def)

end
