(* ===== verification/Hooks.thy ===== *)
theory Hooks
  imports Gkfs_Files Preload_Context
begin

text \<open>
  The hooks for system calls of the application (\<open>src/client/hooks.cpp\<close>): each decides whether the call is for
  GekkoFS, by descriptor or by path, and otherwise hands it to the kernel. Descriptors are \<open>int\<close>s, to which
  the code converts them before it looks them up. Buffers the caller passes in are arguments; what a hook writes to
  memory is part of its result.
\<close>

abbreviation ERANGE :: errno where "ERANGE \<equiv> 34"
abbreviation EOVERFLOW :: errno where "EOVERFLOW \<equiv> 75"

section \<open>Results\<close>

text \<open>Calls the hooks make to the kernel, with the arguments that decide what is accessed.\<close>

datatype fd_call =
    SYS_close | SYS_fstat | SYS_read u64 | SYS_pread64 u64 u64 | SYS_readv "bytes list" | SYS_preadv "bytes list" u64
  | SYS_write bytes u64 | SYS_pwrite64 bytes u64 u64 | SYS_writev "bytes list" | SYS_pwritev "bytes list" u64
  | SYS_lseek u64 u32 | SYS_ftruncate u64 | SYS_dup | SYS_dup2 int | SYS_dup3 int u32 | SYS_getdents u32
  | SYS_getdents64 u32 | SYS_fchmod u32 | SYS_fcntl u32 u64 | SYS_fstatfs | SYS_fsync | SYS_flistxattr u64
  | SYS_fallocate u32 u64 u64 | SYS_fadvise64 u64 u64 u32

datatype at_call =
    SYS_openat u32 u32 | SYS_statx u32 u32 | SYS_newfstatat u32 | SYS_unlinkat u32 | SYS_faccessat u32
  | SYS_faccessat2 u32 u32 | SYS_mkdirat u32 | SYS_fchmodat u32 | SYS_readlinkat int

datatype path_call =
    SYS_stat | SYS_lstat | SYS_access u32 | SYS_truncate u64 | SYS_statfs | SYS_getxattr string u64
  | SYS_lgetxattr string u64 | SYS_listxattr u64 | SYS_llistxattr u64

datatype kernel_call =
    On_fd int fd_call | At int string at_call | On_path string path_call
  | SYS_symlinkat string int string | SYS_renameat2 int string int string u32

datatype hook_output =
    No_output | Out_bytes bytes | Out_iov "bytes list" | Out_stat stat_buf | Out_statx statx_buf
  | Out_statfs statfs_buf | Out_dirents "dirent list" | Out_string string

text \<open>A hook returns a value, or what the kernel answers to a call.\<close>

datatype outcome = Ret int hook_output | Kernel kernel_call

record 's app =
  ap_client :: "'s client"
  ap_ctx :: path_ctx
  ap_process :: process
  ap_internal :: internal_fds

text \<open>\<open>he_fchdir\<close> is the kernel's answer to \<open>fchdir\<close>: its result and the directory the process is then in.\<close>

record 's hook_env =
  he_client :: "'s cl_env"
  he_path :: path_env
  he_cwd :: cwd_sys
  he_fchdir :: "int \<Rightarrow> int \<times> string"

text \<open>\<open>with_errno\<close> takes an \<open>int\<close>: larger results are cut to 32 bits.\<close>

definition with_errno :: "int \<Rightarrow> 's client \<Rightarrow> int" where
  "with_errno ret c = (let r = sint (word_of_int ret :: u32) in if r < 0 then - cl_errno c else r)"

definition reply :: "'s app \<Rightarrow> hook_output \<Rightarrow> int \<times> 's client \<Rightarrow> outcome \<times> 's app" where
  "reply a out r = (Ret (with_errno (fst r) (snd r)) out, a\<lparr>ap_client := snd r\<rparr>)"

text \<open>A call that succeeds when it has something to return.\<close>

definition reply_opt :: "'s app \<Rightarrow> ('b \<Rightarrow> hook_output) \<Rightarrow> 'b option \<times> 's client \<Rightarrow> outcome \<times> 's app" where
  "reply_opt a out r = (case fst r of
       None \<Rightarrow> reply a No_output (- 1, snd r)
     | Some x \<Rightarrow> reply a (out x) (0, snd r))"

definition give :: "'s app \<Rightarrow> int \<Rightarrow> (outcome \<times> 's app) option" where
  "give a ret = Some (Ret ret No_output, a)"

definition to_kernel :: "'s app \<Rightarrow> kernel_call \<Rightarrow> (outcome \<times> 's app) option" where
  "to_kernel a k = Some (Kernel k, a)"

definition fd_exists :: "'s app \<Rightarrow> int \<Rightarrow> bool" where
  "fd_exists a fd \<longleftrightarrow> fm_exist (cl_map (ap_client a)) fd"

definition relativize_at ::
    "'s hook_env \<Rightarrow> 's app \<Rightarrow> int \<Rightarrow> string \<Rightarrow> u32 \<Rightarrow> bool \<Rightarrow> (RelativizeStatus \<times> string) option" where
  "relativize_at env a = relativize_fd_path (he_path env) (ap_ctx a) (cl_heap (ap_client a)) (cl_map (ap_client a))"

text \<open>The \<open>switch\<close> on the status of a path, which most hooks have in the same form.\<close>

definition at_path ::
    "'s hook_env \<Rightarrow> 's app \<Rightarrow> int \<Rightarrow> string \<Rightarrow> u32 \<Rightarrow> (string \<Rightarrow> kernel_call) \<Rightarrow> (string \<Rightarrow> (outcome \<times> 's app) option)
       \<Rightarrow> (outcome \<times> 's app) option" where
  "at_path env a dirfd cpath flags kcall inner =
     do { (status, resolved) \<leftarrow> relativize_at env a dirfd cpath flags True;
          case status of
            Fd_unknown \<Rightarrow> to_kernel a (kcall cpath)
          | External \<Rightarrow> to_kernel a (kcall resolved)
          | Fd_not_a_dir \<Rightarrow> give a (- ENOTDIR)
          | Internal \<Rightarrow> inner resolved }"

text \<open>The same for calls with a path alone.\<close>

definition by_path ::
    "'s hook_env \<Rightarrow> 's app \<Rightarrow> string \<Rightarrow> bool \<Rightarrow> (string \<Rightarrow> kernel_call) \<Rightarrow> (string \<Rightarrow> (outcome \<times> 's app) option)
       \<Rightarrow> (outcome \<times> 's app) option" where
  "by_path env a path resolve_last_link kcall inner =
     do { (is_in_path, rel_path) \<leftarrow> relativize_path (he_path env) (ap_ctx a) path resolve_last_link;
          if is_in_path then inner rel_path else to_kernel a (kcall rel_path) }"

section \<open>Opening, closing, status\<close>

definition hook_openat :: "'s hook_env \<Rightarrow> 's app \<Rightarrow> int \<Rightarrow> string \<Rightarrow> u32 \<Rightarrow> u32 \<Rightarrow> (outcome \<times> 's app) option" where
  "hook_openat env a dirfd cpath flags mode =
     at_path env a dirfd cpath 0 (\<lambda>p. At dirfd p (SYS_openat flags mode))
       (\<lambda>p. map_option (reply a No_output) (gkfs_open (he_client env) (ap_client a) p mode flags))"

text \<open>\<open>gkfs_close\<close> looks at the table of the library only for an unknown descriptor.\<close>

definition hook_close :: "'s hook_env \<Rightarrow> 's app \<Rightarrow> int \<Rightarrow> (outcome \<times> 's app) option" where
  "hook_close env a fd =
     (let close = (\<lambda>b. case gkfs_close ((he_client env)\<lparr>env_internal_fd := \<lambda>_. b\<rparr>) (ap_client a) fd of (ret, c) \<Rightarrow>
            (let a' = a\<lparr>ap_client := c\<rparr> in if ret = 0 then give a' 0 else to_kernel a' (On_fd fd SYS_close)))
      in if fd_exists a fd then close False
         else case is_internal_fd fd (ap_internal a) of Inl _ \<Rightarrow> None | Inr b \<Rightarrow> close b)"

definition hook_stat :: "'s hook_env \<Rightarrow> 's app \<Rightarrow> string \<Rightarrow> (outcome \<times> 's app) option" where
  "hook_stat env a path =
     by_path env a path False (\<lambda>p. On_path p SYS_stat)
       (\<lambda>p. map_option (reply_opt a Out_stat) (gkfs_stat (he_client env) (ap_client a) p True))"

definition hook_statx :: "'s hook_env \<Rightarrow> 's app \<Rightarrow> int \<Rightarrow> string \<Rightarrow> u32 \<Rightarrow> u32 \<Rightarrow> (outcome \<times> 's app) option" where
  "hook_statx env a dirfd path flags msk =
     at_path env a dirfd path 0 (\<lambda>p. At dirfd p (SYS_statx flags msk))
       (\<lambda>p. map_option (reply_opt a Out_statx) (gkfs_statx (he_client env) (ap_client a) p True))"

definition hook_lstat :: "'s hook_env \<Rightarrow> 's app \<Rightarrow> string \<Rightarrow> (outcome \<times> 's app) option" where
  "hook_lstat env a path =
     by_path env a path True (\<lambda>p. On_path p SYS_lstat)
       (\<lambda>p. map_option (reply_opt a Out_stat) (gkfs_stat (he_client env) (ap_client a) p True))"

definition hook_fstat :: "'s hook_env \<Rightarrow> 's app \<Rightarrow> int \<Rightarrow> (outcome \<times> 's app) option" where
  "hook_fstat env a fd = (case fm_get (cl_map (ap_client a)) fd of
       None \<Rightarrow> to_kernel a (On_fd fd SYS_fstat)
     | Some f \<Rightarrow>
         (let path = of_path (cl_heap (ap_client a) ! f)
          in do { (p, c) \<leftarrow>
                    (if has_rename (env_cfg (he_client env))
                     then do { (md, c) \<leftarrow> get_metadata (he_client env) (ap_client a) path False;
                               Some (case md of
                                       None \<Rightarrow> (path, c)
                                     | Some md \<Rightarrow> (if md_blocks md = - 1 then md_rename_path md else path, c)) }
                     else Some (path, ap_client a));
                  map_option (reply_opt a Out_stat) (gkfs_stat (he_client env) c p True) }))"

definition hook_fstatat :: "'s hook_env \<Rightarrow> 's app \<Rightarrow> int \<Rightarrow> string \<Rightarrow> u32 \<Rightarrow> (outcome \<times> 's app) option" where
  "hook_fstatat env a dirfd cpath flags =
     at_path env a dirfd cpath flags (\<lambda>p. At dirfd p (SYS_newfstatat flags))
       (\<lambda>p. map_option (reply_opt a Out_stat) (gkfs_stat (he_client env) (ap_client a) p True))"

section \<open>Reading and writing\<close>

definition hook_read :: "'s hook_env \<Rightarrow> 's app \<Rightarrow> int \<Rightarrow> bytes \<Rightarrow> u64 \<Rightarrow> (outcome \<times> 's app) option" where
  "hook_read env a fd buf cnt =
     (if fd_exists a fd
      then map_option (\<lambda>(ret, buf', c). reply a (Out_bytes buf') (ret, c)) (gkfs_read (he_client env) (ap_client a) fd buf cnt)
      else to_kernel a (On_fd fd (SYS_read cnt)))"

definition hook_pread :: "'s hook_env \<Rightarrow> 's app \<Rightarrow> int \<Rightarrow> bytes \<Rightarrow> u64 \<Rightarrow> u64 \<Rightarrow> (outcome \<times> 's app) option" where
  "hook_pread env a fd buf cnt pos =
     (if fd_exists a fd
      then map_option (\<lambda>(ret, buf', c). reply a (Out_bytes buf') (ret, c)) (gkfs_pread (he_client env) (ap_client a) fd buf cnt pos)
      else to_kernel a (On_fd fd (SYS_pread64 cnt pos)))"

definition hook_readv :: "'s hook_env \<Rightarrow> 's app \<Rightarrow> int \<Rightarrow> bytes list \<Rightarrow> (outcome \<times> 's app) option" where
  "hook_readv env a fd iov =
     (if fd_exists a fd
      then map_option (\<lambda>(ret, bufs, c). reply a (Out_iov bufs) (ret, c)) (gkfs_readv (he_client env) (ap_client a) fd iov)
      else to_kernel a (On_fd fd (SYS_readv iov)))"

definition hook_preadv :: "'s hook_env \<Rightarrow> 's app \<Rightarrow> int \<Rightarrow> bytes list \<Rightarrow> u64 \<Rightarrow> (outcome \<times> 's app) option" where
  "hook_preadv env a fd iov pos_l =
     (if fd_exists a fd
      then map_option (\<lambda>(ret, bufs, c). reply a (Out_iov bufs) (ret, c)) (gkfs_preadv (he_client env) (ap_client a) fd iov pos_l)
      else to_kernel a (On_fd fd (SYS_preadv iov pos_l)))"

definition hook_write :: "'s hook_env \<Rightarrow> 's app \<Rightarrow> int \<Rightarrow> bytes \<Rightarrow> u64 \<Rightarrow> (outcome \<times> 's app) option" where
  "hook_write env a fd buf cnt =
     (if fd_exists a fd then Some (reply a No_output (gkfs_write (he_client env) (ap_client a) fd buf cnt))
      else to_kernel a (On_fd fd (SYS_write buf cnt)))"

definition hook_pwrite :: "'s hook_env \<Rightarrow> 's app \<Rightarrow> int \<Rightarrow> bytes \<Rightarrow> u64 \<Rightarrow> u64 \<Rightarrow> (outcome \<times> 's app) option" where
  "hook_pwrite env a fd buf cnt pos =
     (if fd_exists a fd then Some (reply a No_output (gkfs_pwrite (he_client env) (ap_client a) fd buf cnt pos))
      else to_kernel a (On_fd fd (SYS_pwrite64 buf cnt pos)))"

definition hook_writev :: "'s hook_env \<Rightarrow> 's app \<Rightarrow> int \<Rightarrow> bytes list \<Rightarrow> (outcome \<times> 's app) option" where
  "hook_writev env a fd iov =
     (if fd_exists a fd then Some (reply a No_output (gkfs_writev (he_client env) (ap_client a) fd iov))
      else to_kernel a (On_fd fd (SYS_writev iov)))"

definition hook_pwritev :: "'s hook_env \<Rightarrow> 's app \<Rightarrow> int \<Rightarrow> bytes list \<Rightarrow> u64 \<Rightarrow> (outcome \<times> 's app) option" where
  "hook_pwritev env a fd iov pos_l =
     (if fd_exists a fd then Some (reply a No_output (gkfs_pwritev (he_client env) (ap_client a) fd iov pos_l))
      else to_kernel a (On_fd fd (SYS_pwritev iov pos_l)))"

section \<open>Names\<close>

definition AT_REMOVEDIR :: u32 where "AT_REMOVEDIR = 0x200"

text \<open>
  \<open>hook_unlinkat\<close>, \<open>hook_symlinkat\<close> and \<open>hook_readlinkat\<close> pass \<open>false\<close> as the fourth argument of
  \<open>relativize_fd_path\<close>. It is the argument \<open>flags\<close>; \<open>resolve_last_link\<close> keeps its default \<open>true\<close>.
\<close>

definition hook_unlinkat :: "'s hook_env \<Rightarrow> 's app \<Rightarrow> int \<Rightarrow> string \<Rightarrow> u32 \<Rightarrow> (outcome \<times> 's app) option" where
  "hook_unlinkat env a dirfd cpath flags =
     (if flags AND NOT AT_REMOVEDIR \<noteq> 0 then give a (- EINVAL)
      else at_path env a dirfd cpath 0 (\<lambda>p. At dirfd p (SYS_unlinkat flags))
             (\<lambda>p. map_option (reply a No_output)
                (if flags AND AT_REMOVEDIR \<noteq> 0 then gkfs_rmdir (he_client env) (ap_client a) p
                 else gkfs_remove (he_client env) (ap_client a) p)))"

definition hook_symlinkat :: "'s hook_env \<Rightarrow> 's app \<Rightarrow> string \<Rightarrow> int \<Rightarrow> string \<Rightarrow> (outcome \<times> 's app) option" where
  "hook_symlinkat env a oldname newdfd newname =
     do { (is_in_path, _) \<leftarrow> relativize_path (he_path env) (ap_ctx a) oldname True;
          if is_in_path then give a (- ENOTSUP)
          else at_path env a newdfd newname 0 (SYS_symlinkat oldname newdfd) (\<lambda>_. give a (- ENOTSUP)) }"

definition hook_flock :: "'s app \<Rightarrow> int \<Rightarrow> (outcome \<times> 's app) option" where
  "hook_flock a fd = give a (if fd_exists a fd then 0 else - EBADF)"

definition hook_access :: "'s hook_env \<Rightarrow> 's app \<Rightarrow> string \<Rightarrow> u32 \<Rightarrow> (outcome \<times> 's app) option" where
  "hook_access env a path msk =
     by_path env a path True (\<lambda>p. On_path p (SYS_access msk))
       (\<lambda>p. map_option (reply a No_output) (gkfs_access (he_client env) (ap_client a) p True))"

definition hook_faccessat :: "'s hook_env \<Rightarrow> 's app \<Rightarrow> int \<Rightarrow> string \<Rightarrow> u32 \<Rightarrow> (outcome \<times> 's app) option" where
  "hook_faccessat env a dirfd cpath mode =
     at_path env a dirfd cpath 0 (\<lambda>p. At dirfd p (SYS_faccessat mode))
       (\<lambda>p. map_option (reply a No_output) (gkfs_access (he_client env) (ap_client a) p True))"

definition hook_faccessat2 :: "'s hook_env \<Rightarrow> 's app \<Rightarrow> int \<Rightarrow> string \<Rightarrow> u32 \<Rightarrow> u32 \<Rightarrow> (outcome \<times> 's app) option" where
  "hook_faccessat2 env a dirfd cpath mode flags =
     at_path env a dirfd cpath 0 (\<lambda>p. At dirfd p (SYS_faccessat2 mode flags))
       (\<lambda>p. map_option (reply a No_output) (gkfs_access (he_client env) (ap_client a) p True))"

section \<open>Position and size\<close>

definition hook_lseek :: "'s hook_env \<Rightarrow> 's app \<Rightarrow> int \<Rightarrow> u64 \<Rightarrow> u32 \<Rightarrow> (outcome \<times> 's app) option" where
  "hook_lseek env a fd offset whence =
     (if fd_exists a fd
      then do { (off_ret, c) \<leftarrow> gkfs_lseek (he_client env) (ap_client a) fd offset (unat whence);
                give (a\<lparr>ap_client := c\<rparr>)
                  (if 2 ^ 63 - 1 < off_ret then - EOVERFLOW else if off_ret < 0 then - cl_errno c else off_ret) }
      else to_kernel a (On_fd fd (SYS_lseek offset whence)))"

definition hook_truncate :: "'s hook_env \<Rightarrow> 's app \<Rightarrow> string \<Rightarrow> u64 \<Rightarrow> (outcome \<times> 's app) option" where
  "hook_truncate env a path len =
     by_path env a path True (\<lambda>p. On_path p (SYS_truncate len))
       (\<lambda>p. map_option (reply a No_output) (gkfs_truncate (he_client env) (ap_client a) p len))"

definition hook_ftruncate :: "'s hook_env \<Rightarrow> 's app \<Rightarrow> int \<Rightarrow> u64 \<Rightarrow> (outcome \<times> 's app) option" where
  "hook_ftruncate env a fd len = (case fm_get (cl_map (ap_client a)) fd of
       None \<Rightarrow> to_kernel a (On_fd fd (SYS_ftruncate len))
     | Some f \<Rightarrow> map_option (reply a No_output)
                   (gkfs_truncate (he_client env) (ap_client a) (of_path (cl_heap (ap_client a) ! f)) len))"

section \<open>Descriptors\<close>

definition hook_dup :: "'s app \<Rightarrow> int \<Rightarrow> (outcome \<times> 's app) option" where
  "hook_dup a fd =
     (if fd_exists a fd then map_option (reply a No_output) (gkfs_dup (ap_client a) fd) else to_kernel a (On_fd fd SYS_dup))"

definition hook_dup2 :: "'s app \<Rightarrow> int \<Rightarrow> int \<Rightarrow> (outcome \<times> 's app) option" where
  "hook_dup2 a oldfd newfd =
     (if fd_exists a oldfd then Some (reply a No_output (gkfs_dup2 (ap_client a) oldfd newfd))
      else to_kernel a (On_fd oldfd (SYS_dup2 newfd)))"

definition hook_dup3 :: "'s app \<Rightarrow> int \<Rightarrow> int \<Rightarrow> u32 \<Rightarrow> (outcome \<times> 's app) option" where
  "hook_dup3 a oldfd newfd flags =
     (if fd_exists a oldfd then give a (- ENOTSUP) else to_kernel a (On_fd oldfd (SYS_dup3 newfd flags)))"

definition hook_getdents :: "'s hook_env \<Rightarrow> 's app \<Rightarrow> int \<Rightarrow> u32 \<Rightarrow> (outcome \<times> 's app) option" where
  "hook_getdents env a fd cnt =
     (if fd_exists a fd
      then map_option (\<lambda>(ret, ds, c). reply a (Out_dirents ds) (ret, c)) (gkfs_getdents (he_client env) (ap_client a) fd cnt)
      else to_kernel a (On_fd fd (SYS_getdents cnt)))"

definition hook_getdents64 :: "'s hook_env \<Rightarrow> 's app \<Rightarrow> int \<Rightarrow> u32 \<Rightarrow> (outcome \<times> 's app) option" where
  "hook_getdents64 env a fd cnt =
     (if fd_exists a fd
      then map_option (\<lambda>(ret, ds, c). reply a (Out_dirents ds) (ret, c)) (gkfs_getdents64 (he_client env) (ap_client a) fd cnt)
      else to_kernel a (On_fd fd (SYS_getdents64 cnt)))"

definition hook_mkdirat :: "'s hook_env \<Rightarrow> 's app \<Rightarrow> int \<Rightarrow> string \<Rightarrow> u32 \<Rightarrow> (outcome \<times> 's app) option" where
  "hook_mkdirat env a dirfd cpath mode =
     at_path env a dirfd cpath 0 (\<lambda>p. At dirfd p (SYS_mkdirat mode))
       (\<lambda>p. map_option (reply a No_output) (gkfs_create (he_client env) (ap_client a) p (mode OR 0x4000)))"

definition hook_fchmodat :: "'s hook_env \<Rightarrow> 's app \<Rightarrow> int \<Rightarrow> string \<Rightarrow> u32 \<Rightarrow> (outcome \<times> 's app) option" where
  "hook_fchmodat env a dirfd cpath mode =
     at_path env a dirfd cpath 0 (\<lambda>p. At dirfd p (SYS_fchmodat mode)) (\<lambda>_. give a (- ENOTSUP))"

definition hook_fchmod :: "'s app \<Rightarrow> int \<Rightarrow> u32 \<Rightarrow> (outcome \<times> 's app) option" where
  "hook_fchmod a fd mode = (if fd_exists a fd then give a (- ENOTSUP) else to_kernel a (On_fd fd (SYS_fchmod mode)))"

section \<open>Working directory\<close>

text \<open>A directory of GekkoFS as a path of the application: \<open>mountdir + path\<close>, without a slash at the end.\<close>

definition internal_dir :: "path_ctx \<Rightarrow> string \<Rightarrow> string" where
  "internal_dir ctx path = (let p = mountdir ctx @ path in if has_trailing_slash p then butlast p else p)"

definition change_dir :: "'s hook_env \<Rightarrow> 's app \<Rightarrow> string \<Rightarrow> bool \<Rightarrow> (outcome \<times> 's app) option" where
  "change_dir env a path inside =
     (case set_cwd (he_cwd env) path inside (ap_process a) (ap_ctx a) of (exn, p, ctx) \<Rightarrow>
        (let a' = a\<lparr>ap_process := p, ap_ctx := ctx\<rparr>
         in case exn of
              None \<Rightarrow> give a' 0
            | Some (System_error e) \<Rightarrow> give a' (- e)
            | Some Unreachable \<Rightarrow> None))"

definition hook_chdir :: "'s hook_env \<Rightarrow> 's app \<Rightarrow> string \<Rightarrow> (outcome \<times> 's app) option" where
  "hook_chdir env a path =
     do { (is_in_path, rel_path) \<leftarrow> relativize_path (he_path env) (ap_ctx a) path True;
          if is_in_path
          then do { (md, c) \<leftarrow> get_metadata (he_client env) (ap_client a) rel_path False;
                    let a' = a\<lparr>ap_client := c\<rparr>
                    in case md of
                         None \<Rightarrow> give a' (- cl_errno c)
                       | Some md \<Rightarrow>
                           if \<not> S_ISDIR (md_mode md) then give a' (- ENOTDIR)
                           else change_dir env a' (internal_dir (ap_ctx a) rel_path) True }
          else change_dir env a rel_path False }"

text \<open>None: the exceptions of the part for the kernel's directories are not caught.\<close>

definition hook_fchdir :: "'s hook_env \<Rightarrow> 's app \<Rightarrow> int \<Rightarrow> (outcome \<times> 's app) option" where
  "hook_fchdir env a fd =
     (if fd_exists a fd
      then (case fm_get_dir (cl_heap (ap_client a)) (cl_map (ap_client a)) fd of
              None \<Rightarrow> give a (- EBADF)
            | Some f \<Rightarrow> change_dir env a (internal_dir (ap_ctx a) (of_path (cl_heap (ap_client a) ! f))) True)
      else (case he_fchdir env fd of (ret, dir) \<Rightarrow>
              if ret < 0 then None
              else (case unset_env_cwd (he_cwd env) ((ap_process a)\<lparr>sys_cwd := dir\<rparr>) of
                      Inl _ \<Rightarrow> None
                    | Inr p \<Rightarrow>
                        (case get_sys_cwd (he_cwd env) p of
                           Inl _ \<Rightarrow> None
                         | Inr path \<Rightarrow> give (a\<lparr>ap_process := p, ap_ctx := (ap_ctx a)\<lparr>cwd := path\<rparr>\<rparr>) 0))))"

definition hook_getcwd :: "'s app \<Rightarrow> u64 \<Rightarrow> (outcome \<times> 's app) option" where
  "hook_getcwd a sz =
     (let n = length (cwd (ap_ctx a)) + 1
      in if unat sz < n then give a (- ERANGE) else Some (Ret (int n) (Out_string (cwd (ap_ctx a))), a))"

section \<open>Links, flags, rename\<close>

definition hook_readlinkat :: "'s hook_env \<Rightarrow> 's app \<Rightarrow> int \<Rightarrow> string \<Rightarrow> int \<Rightarrow> (outcome \<times> 's app) option" where
  "hook_readlinkat env a dirfd cpath bufsiz =
     at_path env a dirfd cpath 0 (\<lambda>p. At dirfd p (SYS_readlinkat bufsiz)) (\<lambda>_. give a (- ENOTSUP))"

definition set_file_flag :: "nat \<Rightarrow> OpenFile_flags \<Rightarrow> bool \<Rightarrow> 's client \<Rightarrow> 's client" where
  "set_file_flag f flag val c = c\<lparr>cl_heap := (cl_heap c)[f := set_flag flag val (cl_heap c ! f)]\<rparr>"

definition F_DUPFD :: u32 where "F_DUPFD = 0"
definition F_GETFD :: u32 where "F_GETFD = 1"
definition F_SETFD :: u32 where "F_SETFD = 2"
definition F_GETFL :: u32 where "F_GETFL = 3"
definition F_GETLK :: u32 where "F_GETLK = 5"
definition F_SETLK :: u32 where "F_SETLK = 6"
definition F_DUPFD_CLOEXEC :: u32 where "F_DUPFD_CLOEXEC = 1030"
definition FD_CLOEXEC :: u64 where "FD_CLOEXEC = 1"

definition hook_fcntl :: "'s app \<Rightarrow> int \<Rightarrow> u32 \<Rightarrow> u64 \<Rightarrow> (outcome \<times> 's app) option" where
  "hook_fcntl a fd cmd arg = (case fm_get (cl_map (ap_client a)) fd of
       None \<Rightarrow> to_kernel a (On_fd fd (SYS_fcntl cmd arg))
     | Some f \<Rightarrow>
         (let c = ap_client a; flag = get_flag (cl_heap c ! f)
          in if cmd = F_DUPFD then map_option (reply a No_output) (gkfs_dup c fd)
             else if cmd = F_DUPFD_CLOEXEC
             then do { (ret, c1) \<leftarrow> gkfs_dup c fd;
                       if ret = - 1 then give (a\<lparr>ap_client := c1\<rparr>) (- cl_errno c1)
                       else give (a\<lparr>ap_client := set_file_flag f Cloexec True c1\<rparr>) ret }
             else if cmd = F_GETFD then give a (if flag Cloexec then 1 else 0)
             else if cmd = F_GETFL
             then give a (sint ((if flag Rdonly then O_RDONLY else 0) OR (if flag Wronly then O_WRONLY else 0) OR
                                (if flag Rdwr then O_RDWR else 0)))
             else if cmd = F_SETFD
             then give (a\<lparr>ap_client := set_file_flag f Cloexec (arg AND FD_CLOEXEC \<noteq> 0) c\<rparr>) 0
             else if cmd = F_GETLK \<or> cmd = F_SETLK then give a 0
             else give a (- ENOTSUP)))"

definition hook_renameat ::
    "'s hook_env \<Rightarrow> 's app \<Rightarrow> int \<Rightarrow> string \<Rightarrow> int \<Rightarrow> string \<Rightarrow> u32 \<Rightarrow> (outcome \<times> 's app) option" where
  "hook_renameat env a olddfd oldname newdfd newname flags =
     do { (oldstatus, oldres) \<leftarrow> relativize_at env a olddfd oldname 0 True;
          if oldstatus = Fd_not_a_dir then give a (- ENOTDIR)
          else do { (newstatus, newres) \<leftarrow> relativize_at env a newdfd newname 0 True;
                    let oldpass = (if oldstatus = External then oldres else oldname)
                    in case newstatus of
                         Fd_not_a_dir \<Rightarrow> give a (- ENOTDIR)
                       | Internal \<Rightarrow>
                           if has_rename (env_cfg (he_client env)) \<and> oldstatus = Internal
                           then map_option (reply a No_output) (gkfs_rename (he_client env) (ap_client a) oldres newres)
                           else give a (- ENOTSUP)
                       | Fd_unknown \<Rightarrow> to_kernel a (SYS_renameat2 olddfd oldpass newdfd newname flags)
                       | External \<Rightarrow> to_kernel a (SYS_renameat2 olddfd oldpass newdfd newres flags) } }"

section \<open>File system, attributes\<close>

definition hook_statfs :: "'s hook_env \<Rightarrow> 's app \<Rightarrow> string \<Rightarrow> (outcome \<times> 's app) option" where
  "hook_statfs env a path =
     by_path env a path True (\<lambda>p. On_path p SYS_statfs) (\<lambda>_. Some (reply_opt a Out_statfs (gkfs_statfs (he_client env) (ap_client a))))"

definition hook_fstatfs :: "'s hook_env \<Rightarrow> 's app \<Rightarrow> int \<Rightarrow> (outcome \<times> 's app) option" where
  "hook_fstatfs env a fd =
     (if fd_exists a fd then Some (reply_opt a Out_statfs (gkfs_statfs (he_client env) (ap_client a)))
      else to_kernel a (On_fd fd SYS_fstatfs))"

definition hook_fsync :: "'s hook_env \<Rightarrow> 's app \<Rightarrow> int \<Rightarrow> (outcome \<times> 's app) option" where
  "hook_fsync env a fd =
     (if fd_exists a fd then Some (reply a No_output (gkfs_fsync (he_client env) (ap_client a) fd))
      else to_kernel a (On_fd fd SYS_fsync))"

text \<open>The hooks for attributes pass the path to the kernel as the application gave it.\<close>

definition hook_getxattr :: "'s hook_env \<Rightarrow> 's app \<Rightarrow> string \<Rightarrow> string \<Rightarrow> u64 \<Rightarrow> (outcome \<times> 's app) option" where
  "hook_getxattr env a path name sz =
     by_path env a path True (\<lambda>_. On_path path (SYS_getxattr name sz)) (\<lambda>_. give a (- ENOTSUP))"

definition hook_lgetxattr :: "'s hook_env \<Rightarrow> 's app \<Rightarrow> string \<Rightarrow> string \<Rightarrow> u64 \<Rightarrow> (outcome \<times> 's app) option" where
  "hook_lgetxattr env a path name sz =
     by_path env a path True (\<lambda>_. On_path path (SYS_lgetxattr name sz)) (\<lambda>_. give a (- ENOTSUP))"

definition hook_listxattr :: "'s hook_env \<Rightarrow> 's app \<Rightarrow> string \<Rightarrow> u64 \<Rightarrow> (outcome \<times> 's app) option" where
  "hook_listxattr env a path sz = by_path env a path True (\<lambda>_. On_path path (SYS_listxattr sz)) (\<lambda>_. give a (- ENOTSUP))"

definition hook_llistxattr :: "'s hook_env \<Rightarrow> 's app \<Rightarrow> string \<Rightarrow> u64 \<Rightarrow> (outcome \<times> 's app) option" where
  "hook_llistxattr env a path sz = by_path env a path True (\<lambda>_. On_path path (SYS_llistxattr sz)) (\<lambda>_. give a (- ENOTSUP))"

definition hook_flistxattr :: "'s app \<Rightarrow> int \<Rightarrow> u64 \<Rightarrow> (outcome \<times> 's app) option" where
  "hook_flistxattr a fd sz = (if fd_exists a fd then give a (- ENOTSUP) else to_kernel a (On_fd fd (SYS_flistxattr sz)))"

definition hook_fallocate :: "'s app \<Rightarrow> int \<Rightarrow> u32 \<Rightarrow> u64 \<Rightarrow> u64 \<Rightarrow> (outcome \<times> 's app) option" where
  "hook_fallocate a fd mode offset len =
     (if fd_exists a fd then give a (- ENOTSUP) else to_kernel a (On_fd fd (SYS_fallocate mode offset len)))"

definition hook_fadvise64 :: "'s app \<Rightarrow> int \<Rightarrow> u64 \<Rightarrow> u64 \<Rightarrow> u32 \<Rightarrow> (outcome \<times> 's app) option" where
  "hook_fadvise64 a fd offset len advice =
     (if fd_exists a fd then give a (- ENOTSUP) else to_kernel a (On_fd fd (SYS_fadvise64 offset len advice)))"

end
