(* ===== verification/Hook_Proofs.thy ===== *)
theory Hook_Proofs
  imports Hooks Client_Invariant
begin

text \<open>
  The hooks keep the open files of the client in order: whatever system calls an application makes, every
  descriptor refers to a file that exists. A change to a directory of GekkoFS is what \<open>getcwd\<close> then
  reports and what a child process starts with.
\<close>

section \<open>The open files\<close>

definition keeps_files :: "'s app \<Rightarrow> (outcome \<times> 's app) option \<Rightarrow> bool" where
  "keeps_files a r \<longleftrightarrow> (\<forall>out a'. r = Some (out, a') \<longrightarrow> wf_client (ap_client a) \<longrightarrow> wf_client (ap_client a'))"

lemma keeps_files_end [simp]:
  "keeps_files a None" "keeps_files a (give a ret)" "keeps_files a (to_kernel a k)" "keeps_files a (Some (out, a))"
  by (simp_all add: keeps_files_def give_def to_kernel_def)

lemma keeps_files_replies:
  "(\<And>r c. f = Some (r, c) \<Longrightarrow> client_step env (ap_client a) c) \<Longrightarrow> keeps_files a (map_option (reply a out) f)"
  "(\<And>r c. g = Some (r, c) \<Longrightarrow> client_step env (ap_client a) c) \<Longrightarrow> keeps_files a (map_option (reply_opt a out') g)"
  "(\<And>r b c. h = Some (r, b, c) \<Longrightarrow> client_step env (ap_client a) c) \<Longrightarrow>
     keeps_files a (map_option (\<lambda>(r, b, c). reply a (out'' b) (r, c)) h)"
  "client_step env (ap_client a) (snd p) \<Longrightarrow> keeps_files a (Some (reply a out p))"
  "client_step env (ap_client a) (snd q) \<Longrightarrow> keeps_files a (Some (reply_opt a out' q))"
  by (auto simp: keeps_files_def reply_def reply_opt_def dest: wf_client_step split: option.splits)

lemma keeps_files_paths:
  assumes "\<And>p. keeps_files a (inner p)"
  shows "keeps_files a (at_path env a dirfd cpath flags kcall inner)"
    and "keeps_files a (by_path env a path rl kcall' inner)"
  using assms
  by (auto simp: keeps_files_def at_path_def by_path_def give_def to_kernel_def
      split: Option.bind_splits RelativizeStatus.splits if_splits)

lemma wf_set_file_flag: "wf_client c \<Longrightarrow> wf_client (set_file_flag f flag v c)"
  unfolding set_file_flag_def
  by (rule wf_client_update) (auto simp: wf_client_def wf_file_def set_flag_def list_all_length)

lemma keeps_files_change_dir: "keeps_files a (change_dir env a path inside)"
  by (auto simp: keeps_files_def change_dir_def give_def Let_def split: prod.splits option.splits cwd_exn.splits)

lemma keeps_files_cases:
  "keeps_files a x \<Longrightarrow> keeps_files a y \<Longrightarrow> keeps_files a (if b then x else y)"
  "(\<And>s p. m = Some (s, p) \<Longrightarrow> keeps_files a (f s p)) \<Longrightarrow> keeps_files a (do { (s, p) \<leftarrow> m; f s p })"
  by (auto simp: keeps_files_def split: Option.bind_splits)

lemmas paired_steps = client_step.close [OF prod.collapse [symmetric]] client_step.write_file [OF prod.collapse [symmetric]]
  client_step.pwrite [OF prod.collapse [symmetric]] client_step.writev [OF prod.collapse [symmetric]]
  client_step.pwritev [OF prod.collapse [symmetric]] client_step.fsync [OF prod.collapse [symmetric]]
  client_step.statfs [OF prod.collapse [symmetric]]

lemma path_hooks_keep_files:
  "keeps_files a (hook_openat env a dirfd cpath flags mode)" "keeps_files a (hook_stat env a path)"
  "keeps_files a (hook_statx env a dirfd path flags msk)" "keeps_files a (hook_lstat env a path)"
  "keeps_files a (hook_fstatat env a dirfd cpath flags)" "keeps_files a (hook_access env a path msk)"
  "keeps_files a (hook_faccessat env a dirfd cpath mode)" "keeps_files a (hook_faccessat2 env a dirfd cpath mode flags)"
  "keeps_files a (hook_truncate env a path len)" "keeps_files a (hook_mkdirat env a dirfd cpath mode)"
  unfolding hook_openat_def hook_stat_def hook_statx_def hook_lstat_def hook_fstatat_def hook_access_def
    hook_faccessat_def hook_faccessat2_def hook_truncate_def hook_mkdirat_def
  by (intro keeps_files_paths keeps_files_replies(1,2) [where env = "he_client env"]; erule client_step.intros)+

lemma name_hooks_keep_files:
  "keeps_files a (hook_statfs env a path)" "keeps_files a (hook_symlinkat env a oldname newdfd newname)"
  "keeps_files a (hook_fchmodat env a dirfd cpath mode)" "keeps_files a (hook_readlinkat env a dirfd cpath n)"
  "keeps_files a (hook_getxattr env a path name sz)" "keeps_files a (hook_lgetxattr env a path name sz)"
  "keeps_files a (hook_listxattr env a path sz)" "keeps_files a (hook_llistxattr env a path sz)"
  unfolding hook_symlinkat_def hook_statfs_def hook_fchmodat_def
    hook_readlinkat_def hook_getxattr_def hook_lgetxattr_def hook_listxattr_def hook_llistxattr_def
  by (intro keeps_files_paths keeps_files_cases keeps_files_end keeps_files_replies(5) [where env = "he_client env"] paired_steps)+

lemma hook_unlinkat_keeps_files: "keeps_files a (hook_unlinkat env a dirfd cpath flags)"
proof -
  have "keeps_files a (map_option (reply a No_output)
      (if b then gkfs_rmdir (he_client env) (ap_client a) p else gkfs_remove (he_client env) (ap_client a) p))" for b p
    by (rule keeps_files_replies(1) [where env = "he_client env"])
      (auto intro: client_step.rmdir client_step.remove split: if_splits)
  then show ?thesis unfolding hook_unlinkat_def by (intro keeps_files_cases keeps_files_end keeps_files_paths)
qed

lemma hook_renameat_keeps_files: "keeps_files a (hook_renameat env a olddfd oldname newdfd newname fl)"
proof -
  have "keeps_files a (map_option (reply a No_output) (gkfs_rename (he_client env) (ap_client a) old new))" for old new
    by (intro keeps_files_replies(1) [where env = "he_client env"]; erule client_step.rename)
  then show ?thesis
    unfolding hook_renameat_def by (auto intro!: keeps_files_cases(2) simp: Let_def split: RelativizeStatus.splits)
qed

lemma io_hooks_keep_files:
  "keeps_files a (hook_read env a fd buf cnt)" "keeps_files a (hook_pread env a fd buf cnt pos)"
  "keeps_files a (hook_readv env a fd iov)" "keeps_files a (hook_preadv env a fd iov pos)"
  "keeps_files a (hook_getdents env a fd n)" "keeps_files a (hook_getdents64 env a fd n)"
  unfolding hook_read_def hook_pread_def hook_readv_def hook_preadv_def hook_getdents_def hook_getdents64_def
  by (intro keeps_files_cases(1) keeps_files_end keeps_files_replies(3) [where env = "he_client env"];
      erule client_step.intros)+

lemma write_hooks_keep_files:
  "keeps_files a (hook_write env a fd buf cnt)" "keeps_files a (hook_pwrite env a fd buf cnt pos)"
  "keeps_files a (hook_writev env a fd iov)" "keeps_files a (hook_pwritev env a fd iov pos)"
  "keeps_files a (hook_fsync env a fd)" "keeps_files a (hook_fstatfs env a fd)"
  unfolding hook_write_def hook_pwrite_def hook_writev_def hook_pwritev_def hook_fsync_def hook_fstatfs_def
  by (intro keeps_files_cases(1) keeps_files_end keeps_files_replies(4,5) [where env = "he_client env"] paired_steps)+

lemma fd_hooks_keep_files:
  "keeps_files a (hook_dup3 a fd fd' flags)" "keeps_files a (hook_fchmod a fd mode)" "keeps_files a (hook_flock a fd)"
  "keeps_files a (hook_flistxattr a fd sz)" "keeps_files a (hook_fallocate a fd mode' off len)"
  "keeps_files a (hook_fadvise64 a fd off len adv)" "keeps_files a (hook_getcwd a sz)"
  by (simp_all add: hook_dup3_def hook_fchmod_def hook_flock_def hook_flistxattr_def hook_fallocate_def
      hook_fadvise64_def hook_getcwd_def Let_def)

lemma hook_close_keeps_files: "keeps_files a (hook_close env a fd)"
  by (auto simp: keeps_files_def hook_close_def give_def to_kernel_def Let_def dest!: wf_gkfs_close
      split: if_splits sum.splits prod.splits)

lemma hook_lseek_keeps_files: "keeps_files a (hook_lseek env a fd offset whence)"
  by (auto simp: keeps_files_def hook_lseek_def give_def to_kernel_def dest!: wf_gkfs_lseek
      split: if_splits Option.bind_splits)

lemma hook_ftruncate_keeps_files: "keeps_files a (hook_ftruncate env a fd len)"
  unfolding hook_ftruncate_def
  by (cases "fm_get (cl_map (ap_client a)) fd")
    (auto intro!: keeps_files_replies(1) [where env = "he_client env"] client_step.truncate)

lemma hook_dup_keeps_files:
  "keeps_files a (hook_dup a fd)"
  "newfd \<noteq> fd_idx (cl_map (ap_client a)) \<Longrightarrow> keeps_files a (hook_dup2 a fd newfd)"
  by (auto simp: keeps_files_def hook_dup_def hook_dup2_def to_kernel_def reply_def
      dest: wf_gkfs_dup wf_gkfs_dup2 [OF prod.collapse [symmetric]] split: if_splits)

lemma hook_fcntl_keeps_files: "keeps_files a (hook_fcntl a fd cmd arg)"
proof (cases "fm_get (cl_map (ap_client a)) fd")
  case (Some f)
  then show ?thesis
    by (auto simp: keeps_files_def hook_fcntl_def give_def reply_def Let_def
        dest: wf_gkfs_dup intro: wf_set_file_flag split: if_splits Option.bind_splits)
qed (simp add: hook_fcntl_def)

lemma hook_fstat_keeps_files: "keeps_files a (hook_fstat env a fd)"
proof (cases "fm_get (cl_map (ap_client a)) fd")
  case (Some f)
  have st: "keeps_files a (map_option (reply_opt a Out_stat) (gkfs_stat e c p True))"
    if "wf_client (ap_client a) \<Longrightarrow> wf_client c" for e c p
    using that wf_client_step [OF client_step.stat [of e c p True]]
    by (auto simp: keeps_files_def reply_opt_def reply_def split: option.splits)
  show ?thesis
    unfolding hook_fstat_def Some option.case Let_def
    by (rule keeps_files_cases(2), rule st) (auto dest: wf_get_metadata split: if_splits Option.bind_splits option.splits)
qed (simp add: hook_fstat_def)

lemma hook_chdir_keeps_files: "keeps_files a (hook_chdir env a path)"
proof -
  have "keeps_files a (change_dir env (a\<lparr>ap_client := c\<rparr>) p b)" if "wf_client (ap_client a) \<Longrightarrow> wf_client c" for c p b
    using that keeps_files_change_dir [of "a\<lparr>ap_client := c\<rparr>" env p b] by (auto simp: keeps_files_def)
  moreover have "wf_client c" if "get_metadata e (ap_client a) p fl = Some (x, c)" "wf_client (ap_client a)" for e p fl x c
    using that by (rule wf_get_metadata)
  ultimately show ?thesis
    unfolding hook_chdir_def
    by (auto intro!: keeps_files_cases(2) keeps_files_change_dir simp: give_def keeps_files_def [of a "Some _"] Let_def
        split: option.splits)
qed

lemma hook_fchdir_keeps_files: "keeps_files a (hook_fchdir env a fd)"
  unfolding hook_fchdir_def
  by (auto intro!: keeps_files_change_dir simp: give_def keeps_files_def [of a "Some _"]
      split: option.splits prod.splits sum.splits)

text \<open>
  Closing a descriptor that is not of GekkoFS looks it up in the bit set of the library's own descriptors, which
  throws for one behind the set.
\<close>

lemma close_behind_internal_fds:
  assumes "\<not> fd_exists a fd" and "min_internal_fd (ap_internal a) + int (length (free_fds (ap_internal a))) \<le> fd"
  shows "hook_close env a fd = None"
proof -
  have "slot (ap_internal a) fd = None" using assms(2) by (auto simp: slot_def Let_def)
  moreover have "\<not> fd < min_internal_fd (ap_internal a)" using assms(2) by linarith
  ultimately show ?thesis using assms(1) by (simp add: hook_close_def is_internal_fd_def)
qed

section \<open>The working directory\<close>

text \<open>
  A change to an existing directory of GekkoFS succeeds if the system's calls do; \<open>getcwd\<close> then reports it with the
  mount point in front, if the buffer is large enough, and a child process that inherits the environment starts
  there, while for the kernel the process is in the mount point.
\<close>

lemma chdir_then_getcwd:
  assumes "relativize_path (he_path env) (ap_ctx a) path True = Some (True, rel_path)"
    and "get_metadata (he_client env) (ap_client a) rel_path False = Some (Some md, c)" and "S_ISDIR (md_mode md)"
    and "chdir_ret (he_cwd env) = 0" and "setenv_err (he_cwd env) = None"
    and "length (internal_dir (ap_ctx a) rel_path) < unat sz"
  obtains a' where "hook_chdir env a path = Some (Ret 0 No_output, a')"
    and "hook_getcwd a' sz = Some (Ret (int (length (internal_dir (ap_ctx a) rel_path)) + 1)
      (Out_string (internal_dir (ap_ctx a) rel_path)), a')"
    and "init_cwd sys (ap_process a') ctx = Inr (ctx\<lparr>cwd := internal_dir (ap_ctx a) rel_path\<rparr>)"
    and "sys_cwd (ap_process a') = mountdir (ap_ctx a)"
  by (rule that)
    (use assms in \<open>auto simp: hook_chdir_def change_dir_def set_cwd_def set_sys_cwd_def set_env_cwd_def give_def
      hook_getcwd_def init_cwd_def Let_def\<close>)

end
