(* ===== verification/Spec2Isabelle.thy ===== *)
theory Spec2Isabelle
  imports Storage_Properties Metadata_Properties Path_Properties Client_Properties Directory_Properties Hook_Proofs
begin

text \<open>
  \<^bold>\<open>GekkoFS: a verification development.\<close>

  GekkoFS is a distributed file system in user space. A client library is preloaded into an application: it
  intercepts system calls, resolves their paths, and turns operations on files below the mount point into requests to
  daemons, one on each node. A file is cut into chunks of a fixed size; a distributor places every chunk, and the
  metadata of every path, on a daemon by hashing. A daemon keeps its chunks as files of its node and its metadata as
  entries of a RocksDB store, where updates are merge operands that RocksDB folds when it likes. Replicas are written
  as further copies of a chunk on other daemons. The paths below are those of the source tree under \<open>src/\<close>.

  \<^bold>\<open>Foundations.\<close> \<open>Gkfs_Prelude\<close> has the integer types, error numbers and shared lemmas; \<open>Block_Arith\<close> the power-of-two
  arithmetic (\<open>include/common/arithmetic/arithmetic.hpp\<close>) at 64 bits, shown to be division and remainder; \<open>Decimal\<close> the
  conversions of the C++ library between numbers and strings; \<open>Byte_Buffers\<close> positional writes and copies; \<open>Chunk_Pieces\<close>
  how a byte range is cut at chunk borders; \<open>Rpc_Bitset\<close> the bit set of a request and its base64 text
  (\<open>common/rpc/rpc_util.cpp\<close>), with the round trip; \<open>Path_Util\<close> the string functions on paths
  (\<open>common/path_util.cpp\<close>).

  \<^bold>\<open>Placement.\<close> \<open>Distributor\<close> models the four distributors (\<open>common/rpc/distributor.cpp\<close>). The locale \<open>placement\<close> is their
  contract (a well-formed distributor names an existing host); all four are interpreted.

  \<^bold>\<open>Data path of a daemon.\<close> \<open>Chunk_Store_Spec\<close> has the locale \<open>chunk_store\<close>, a store of chunks in which a write changes one
  chunk as \<open>pwrite\<close> does; its lemmas say that a batch of writes to different chunks has one result in every order.
  \<open>Chunk_Storage\<close> models \<open>daemon/backend/data/chunk_storage.cpp\<close> with the retry loops and interprets the locale.
  \<open>Chunk_Ops\<close> models the tasks of \<open>daemon/ops/data.cpp\<close>, \<open>Srv_Data\<close> the handlers of \<open>daemon/handler/srv_data.cpp\<close>.
  \<open>Srv_Data_Proofs\<close> and \<open>Srv_Read_Proofs\<close> show what a handler does for a request that meets the contract
  \<open>valid_request\<close>; \<open>Srv_Data_Safety\<close> what stays intact under any failures, for all states that a daemon can reach
  (\<open>daemon_fs\<close>).

  \<^bold>\<open>Data path of a client.\<close> \<open>Forward_Data\<close> models \<open>client/rpc/forward_data.cpp\<close>: grouping chunks by target, posting,
  collecting replies, choosing another replica. \<open>Forward_Proofs\<close> shows that its requests meet \<open>valid_request\<close>;
  \<open>Write_Refinement\<close> and \<open>Read_Refinement\<close> that writes and reads spread over the cluster refine writes and reads of one
  file (\<open>file_byte\<close>).

  \<^bold>\<open>Metadata path.\<close> \<open>Metadata_Codec\<close> models the metadata object and its text (\<open>common/metadata.cpp\<close>) for every build option,
  \<open>Merge_Op\<close> the merge operator (\<open>daemon/backend/metadata/merge.cpp\<close>), \<open>Metadata_DB\<close> the RocksDB backend and the
  operations of the daemon (\<open>rocksdb_backend.cpp\<close>, \<open>db.cpp\<close>, \<open>metadata_module.cpp\<close>, \<open>ops/metadentry.cpp\<close>),
  \<open>Srv_Metadata\<close> the handlers of \<open>handler/srv_metadata.cpp\<close> with the byte layout of listings. \<open>Metadata_DB_Proofs\<close> shows
  that the store is a map from paths to metadata whenever RocksDB runs the operator; \<open>Metadata_Backend\<close> states this as
  the locale \<open>metadata_backend\<close>, a refinement of a map, and interprets it; \<open>Metadata_Dirents\<close> is about listings.
  \<open>Forward_Metadata\<close> models \<open>client/rpc/forward_metadata.cpp\<close>, \<open>Metadata_Net\<close> shows that requests act on one map for the
  whole system, \<open>Remove_Proofs\<close> that a removal reaches all of a file.

  \<^bold>\<open>The client.\<close> \<open>Client_Path\<close> models both resolvers and the working directory (\<open>client/path.cpp\<close>), \<open>Path_Proofs\<close> relates
  them to the normal form of a path. \<open>Open_File_Map\<close> models open files and descriptors (\<open>client/open_file_map.cpp\<close>,
  \<open>open_dir.cpp\<close>), \<open>Client_Cache\<close> the two caches (\<open>client/cache.cpp\<close>), \<open>Client_Context\<close> the state of a client and
  metadata lookups (\<open>client/preload_util.cpp\<close>), \<open>Preload_Context\<close> the classification of paths and the library's own
  descriptors (\<open>client/preload_context.cpp\<close>). The operations of \<open>client/gkfs_functions.cpp\<close> are in \<open>Gkfs_IO\<close> (through
  descriptors), \<open>Gkfs_Dirs\<close> (directories) and \<open>Gkfs_Files\<close> (by path); \<open>Hooks\<close> models \<open>client/hooks.cpp\<close>.
  \<open>Client_Metadata_Proofs\<close>, \<open>Client_IO_Proofs\<close> and \<open>Directory_Proofs\<close> carry the laws of the daemons through these
  operations; \<open>Client_Invariant\<close> shows that all of them keep descriptors valid, \<open>Hook_Proofs\<close> that all hooks do.

  \<^bold>\<open>Properties\<close> are in this theory (data path and arithmetic), \<open>Storage_Properties\<close>, \<open>Metadata_Properties\<close>,
  \<open>Path_Properties\<close>, \<open>Client_Properties\<close>, \<open>Directory_Properties\<close>, \<open>Client_Cache\<close> and \<open>Open_File_Map\<close>. They are instantiated on
  \<open>Sample_Cluster\<close>, \<open>Sample_Store\<close> and \<open>Sample_Client\<close>, concrete instances on which every hypothesis about the
  environment holds. Some prove defects of the code against its own comments; they say so in their text.

  \<^bold>\<open>State and effects.\<close> The state of the system is what the daemons hold: chunk files (\<open>cluster\<close>, host to node-local file
  system) and metadata stores. A client adds its open files, caches and \<open>errno\<close>. Operations are functions that return
  their result and the new state; exceptions, error codes and early returns are values. One request is served at a
  time; within a daemon the order of tasks is an argument. None as the result of a client operation means that the call
  does not return: an exception that nothing catches, or a loop that does not end.

  \<^bold>\<open>Bounds.\<close> Integers keep their width: 64-bit sizes and offsets, 32-bit hosts, 16-bit bit positions and append
  identifiers, the \<open>int\<close> of a write's result. Properties therefore speak of ranges that do not run past \<open>2 ^ 64\<close>, of
  power-of-two chunk sizes below \<open>2 ^ 32\<close>, of at most 65536 chunks in a request and of writes below 2 GiB. There is no
  fuel: loops over lists recurse on them, other loops terminate by a measure, and those that may not end (following
  links and renames, retrying a read, searching a free descriptor) are partial functions in the option type; where a
  property says that such a loop returns, it shows that the result is Some. The draws of \<open>rand\<close> and the events of system
  calls are finite lists given by the environment.

  \<^bold>\<open>Environment.\<close> Code outside the repository is a parameter. Hypotheses name what is relied on: \<open>bulk_copies\<close> and
  \<open>keeps_size\<close> (Mercury's bulk transfers copy, or at least keep the size of the buffer), \<open>healthy_net\<close> and \<open>net_ok\<close>
  (requests are posted, served and answered), \<open>rocksdb_ok\<close> (Get, Merge, Delete, Write and iteration as RocksDB documents
  them), \<open>replicas_apart\<close> (copies of a chunk on different hosts), \<open>plain_client\<close> (no replicas, no
  directory cache), \<open>io_ok\<close> and \<open>dirents_ok\<close> (ranges and listings of a size the code can handle). \<open>std::hash\<close> is a function without assumptions.

  \<^bold>\<open>Assertions.\<close> The default build is a release build with \<open>-DNDEBUG\<close> (\<open>CMakeLists.txt\<close>), and that build is modelled:
  C++ assertions have no effect. Properties of operations whose arguments an assertion restricts have it as a
  hypothesis.

  \<^bold>\<open>Not modelled.\<close> The proxy process and the requests through it, malleability, and the Parallax backend (all optional
  and off by default); the dispatch from system call numbers, start-up of client and daemon, host files, logging,
  statistics and tools (input and output); the wire format of Hermes and Mercury. Interleavings of requests within one
  daemon are not modelled beyond the order of tasks, nor is the side effect that a directory scan may have on the table
  of append offsets.
\<close>

section \<open>The data path: client to chunk files and back\<close>

text \<open>
  C1. Reading a range right after it was written returns exactly the bytes that were written, and their
  number: with the primary write and the replica write of the client, for any placement that keeps the
  replicas of a chunk apart, any order in which the daemons run their tasks, and any buffer contents
  before, as long as no first host of a chunk is marked as failed.
\<close>

theorem write_then_read:
  assumes "plain_range csz offset sz" and "range_pieces csz offset sz \<le> 65536"
    and "bulk_copies bt" and "healthy_net env" and "unat sz \<le> length buf" and "unat sz \<le> length dst"
    and "replicas_apart locate path nc"
    and "\<And>c. ucast (locate path c 0) \<notin> set failed"
  shows "forward_read csz nhosts locate env bt
      (snd (forward_write csz nhosts locate env bt
        (snd (forward_write csz nhosts locate env bt cl path buf offset sz 0)) path buf offset sz nc))
      path dst offset sz nc failed draws =
    Some ((0, sz), take (unat sz) buf @ drop (unat sz) dst, failed)"
  by (rule held_range_read [OF assms(1-6) replicated_write_holds [OF assms(1-5,7) surjective_pairing surjective_pairing]
      assms(8)])

theorem write_then_read_witness:
  "forward_read 524288 6 sample_hosts sample_net sample_bulk
     (snd (forward_write 524288 6 sample_hosts sample_net sample_bulk
       (snd (forward_write 524288 6 sample_hosts sample_net sample_bulk (\<lambda>_. Map.empty) ''/f''
          (replicate 16 7) 524280 16 0)) ''/f'' (replicate 16 7) 524280 16 2))
     ''/f'' (replicate 16 0) 524280 16 2 [] (\<lambda>_. []) = Some ((0, 16), replicate 16 7, [])"
  using write_then_read [of 524288 524280 16 sample_bulk sample_net "replicate 16 7" "replicate 16 0"
      sample_hosts "''/f''" 2 "[]" 6 "\<lambda>_. Map.empty" "\<lambda>_. []"]
  by simp

text \<open>
  C2. Reading still returns the written data when hosts have failed, provided that for every chunk some
  draw of the replica loop hits a copy on a host that has not: the loop ends and the read succeeds from
  the replicas.
\<close>

theorem write_then_read_failover:
  assumes "plain_range csz offset sz" and "range_pieces csz offset sz \<le> 65536"
    and "bulk_copies bt" and "healthy_net env" and "unat sz \<le> length buf" and "unat sz \<le> length dst"
    and "replicas_apart locate path nc"
    and "\<And>c. \<exists>rnd \<in> set (draws c). ucast (locate path (ucast c) (int (rnd mod nc))) \<notin> set failed"
  shows "forward_read csz nhosts locate env bt
      (snd (forward_write csz nhosts locate env bt
        (snd (forward_write csz nhosts locate env bt cl path buf offset sz 0)) path buf offset sz nc))
      path dst offset sz nc failed draws =
    Some ((0, sz), take (unat sz) buf @ drop (unat sz) dst, failed)"
proof -
  obtain r1 cl1 where w1: "forward_write csz nhosts locate env bt cl path buf offset sz 0 = (r1, cl1)"
    by fastforce
  obtain r2 cl2 where w2: "forward_write csz nhosts locate env bt cl1 path buf offset sz nc = (r2, cl2)"
    by fastforce
  have "read_target locate path nc failed draws c \<noteq> None" for c using assms(8) [of c] read_target_some by metis
  then obtain pairs where "read_pairs locate path nc failed draws (chunk_range (block_index offset csz)
      (block_index (offset + sz - 1) csz)) = Some pairs"
    using read_pairs_some by metis
  then obtain res dst' failed' where
    r: "forward_read csz nhosts locate env bt cl2 path dst offset sz nc failed draws = Some (res, dst', failed')"
    by (rule forward_read_some)
  show ?thesis
    using forward_read_holds [OF assms(1-6) replicated_write_holds [OF assms(1-5,7) w1 w2] r] w1 w2 r
    by simp
qed

theorem write_then_read_failover_witness:
  "forward_read 524288 6 sample_hosts sample_net sample_bulk
     (snd (forward_write 524288 6 sample_hosts sample_net sample_bulk
       (snd (forward_write 524288 6 sample_hosts sample_net sample_bulk (\<lambda>_. Map.empty) ''/f''
          (replicate 16 7) 524280 16 0)) ''/f'' (replicate 16 7) 524280 16 2))
     ''/f'' (replicate 16 0) 524280 16 2 [0] (\<lambda>_. [4, 5]) = Some ((0, 16), replicate 16 7, [0])"
  using write_then_read_failover [of 524288 524280 16 sample_bulk sample_net "replicate 16 7" "replicate 16 0"
      sample_hosts "''/f''" 2 "\<lambda>_. [4, 5]" "[0]" 6 "\<lambda>_. Map.empty"]
  by (simp add: sample_replica)

text \<open>
  C3. The client's write is a write of the file: it reports the size it was given, and on every copy it
  writes each byte of the file inside the range becomes the byte of the buffer and each byte outside the
  range stays as it was.
\<close>

theorem forward_write_refines_file_write:
  assumes "plain_range csz offset sz" and "range_pieces csz offset sz \<le> 65536"
    and "bulk_copies bt" and "healthy_net env" and "unat sz \<le> length buf"
    and "replicas_apart locate path nc" and "copy \<in> set (copies nc)" and "i < 2 ^ 64"
    and "forward_write csz nhosts locate env bt cl path buf offset sz nc = (res, cl')"
  shows "res = (0, sz) \<and> file_byte csz env locate cl' path copy i =
    (if unat offset \<le> i \<and> i < unat offset + unat sz then buf ! (i - unat offset)
     else file_byte csz env locate cl path copy i)"
  using forward_write_bytes [OF assms(1-6,9,7,8)] forward_write_cluster(1) [OF assms(1-6,9)] by simp

theorem forward_write_refines_file_write_witness:
  "fst (forward_write 524288 6 sample_hosts sample_net sample_bulk (\<lambda>_. Map.empty) ''/f''
      (map of_nat [0..<16]) 524280 16 0) = (0, 16) \<and>
   file_byte 524288 sample_net sample_hosts
     (snd (forward_write 524288 6 sample_hosts sample_net sample_bulk (\<lambda>_. Map.empty) ''/f''
        (map of_nat [0..<16]) 524280 16 0)) ''/f'' 0 524290 = 10"
  using forward_write_refines_file_write [of 524288 524280 16 sample_bulk sample_net "map of_nat [0..<16]"
      sample_hosts "''/f''" 0 0 524290 6 "\<lambda>_. Map.empty", OF _ _ _ _ _ _ _ _ surjective_pairing]
  by (simp add: copies_def)

text \<open>
  C11. A write touches no file with another chunk directory: the chunks of every such path are the same
  before and after, on every host. Paths that differ only in a colon for a slash share their directory;
  different absolute paths without a colon never do.
\<close>

theorem forward_write_keeps_other_files:
  assumes "plain_range csz offset sz" and "range_pieces csz offset sz \<le> 65536"
    and "bulk_copies bt" and "healthy_net env" and "unat sz \<le> length buf"
    and "replicas_apart locate path nc" and "get_chunks_dir q \<noteq> get_chunks_dir path"
  shows "daemon_chunk env (snd (forward_write csz nhosts locate env bt cl path buf offset sz nc)) h q c =
    daemon_chunk env cl h q c"
  using assms(7) by (rule forward_write_cluster(4) [OF assms(1-6) surjective_pairing])

theorem forward_write_keeps_other_files_witness:
  "daemon_chunk sample_net (snd (forward_write 524288 6 sample_hosts sample_net sample_bulk (\<lambda>_. Map.empty) ''/f''
      (replicate 16 7) 524280 16 0)) 1 ''/g'' 1 = []"
  using forward_write_keeps_other_files [of 524288 524280 16 sample_bulk sample_net "replicate 16 7"
      sample_hosts "''/f''" 0 "''/g''" 6 "\<lambda>_. Map.empty" 1 1]
  by (simp add: get_chunks_dir_def daemon_chunk_def chunk_bytes_def chunk_content_eq)

text \<open>
  C12. The client's read is a read of the file: it succeeds, the size it reports is the number of bytes of
  the range that exist, every byte of the range that exists on the
  host the chunk is read from arrives at its place, and all other bytes of the buffer stay as they were
  (so the holes of a sparse file keep what the caller's buffer held).
\<close>

theorem forward_read_fetches_existing_bytes:
  assumes "plain_range csz offset sz" and "range_pieces csz offset sz \<le> 65536"
    and "bulk_copies bt" and "healthy_net env" and "unat sz \<le> length buf"
    and "\<And>c. ucast (locate path c 0) \<notin> set failed"
  shows "\<exists>buf'. forward_read csz nhosts locate env bt cl path buf offset sz nc failed draws =
      Some ((0, of_nat (card {j. j < unat sz \<and>
        (let c = of_nat ((unat offset + j) div unat csz)
         in (unat offset + j) mod unat csz < length (daemon_chunk env cl (host_of locate path c 0) path c))})),
       buf', failed) \<and> length buf' = length buf \<and>
      (\<forall>j < length buf. buf' ! j =
        (let c = of_nat ((unat offset + j) div unat csz); x = (unat offset + j) mod unat csz;
             d = daemon_chunk env cl (host_of locate path c 0) path c
         in if j < unat sz \<and> x < length d then d ! x else buf ! j))"
proof -
  define k K where "k = unat offset div unat csz" and "K = range_pieces csz offset sz"
  note num = client_numbers [OF assms(1), folded k_def K_def]
  have K: "0 < K" by (simp add: K_def piece_count_def)
  have kK: "k + K < 2 ^ 64" using range_pieces_end(3) [OF assms(1)] by (simp add: k_def K_def)
  let ?g = "\<lambda>r. host_of locate path (of_nat (k + r)) 0"
  have pairs: "read_pairs locate path nc failed draws (chunk_range (of_nat k) (of_nat (k + K - 1))) =
      Some (pairs_of k (\<lambda>r. [?g r]) K)"
    using assms(6) unfolding chunk_range_upt [OF K kK]
    by (subst read_pairs_first) (simp_all add: pairs_of_def comp_def)
  then obtain res buf' failed' where
    r: "forward_read csz nhosts locate env bt cl path buf offset sz nc failed draws = Some (res, buf', failed')"
    unfolding num(1,2) [symmetric] by (rule forward_read_some)
  note bytes = forward_read_bytes [OF assms(1-5) pairs [unfolded k_def K_def] r]
  have le: "k \<le> (unat offset + j) div unat csz" for j by (simp add: k_def div_le_mono)
  then have count: "snd res = of_nat (card {j. j < unat sz \<and> (let c = of_nat ((unat offset + j) div unat csz)
         in (unat offset + j) mod unat csz < length (daemon_chunk env cl (host_of locate path c 0) path c))})"
    using bytes(6) by (simp add: Let_def k_def)
  have "buf' ! j = (let c = of_nat ((unat offset + j) div unat csz); x = (unat offset + j) mod unat csz;
             d = daemon_chunk env cl (host_of locate path c 0) path c
         in if j < unat sz \<and> x < length d then d ! x else buf ! j)" for j
  proof (cases "j < unat sz")
    case True
    then show ?thesis using bytes(5) [OF True] le [of j] by (simp add: Let_def k_def)
  next
    case False
    then show ?thesis using bytes(4) [of j] by (simp add: Let_def)
  qed
  then show ?thesis using r bytes(1-3) count by (intro exI [of _ buf']) (simp add: prod_eq_iff)
qed

theorem forward_read_fetches_existing_bytes_witness:
  "\<exists>buf'. forward_read 524288 6 sample_hosts sample_net sample_bulk (\<lambda>_. Map.empty) ''/f'' (replicate 16 7)
     524280 16 0 [] (\<lambda>_. []) = Some ((0, 0), buf', []) \<and> length buf' = 16"
  using forward_read_fetches_existing_bytes [of 524288 524280 16 sample_bulk sample_net "replicate 16 7"
      sample_hosts "''/f''" "[]" 6 "\<lambda>_. Map.empty" 0 "\<lambda>_. []"]
  by (auto simp: daemon_chunk_def chunk_bytes_def chunk_content_eq Let_def)

text \<open>
  C13. The schedule does not matter: two runs of the same write on the same state, with the tasks of every
  daemon in any two orders and any interruptions the retry loops absorb, give the same answer and the same
  chunks on every host.
\<close>

theorem forward_write_schedule_independent:
  assumes "plain_range csz offset sz" and "range_pieces csz offset sz \<le> 65536"
    and "bulk_copies bt" and "healthy_net env" and "unat sz \<le> length buf"
    and "replicas_apart locate path nc" and "healthy_net env'" and "daemon_storage env' = daemon_storage env"
  shows "fst (forward_write csz nhosts locate env' bt cl path buf offset sz nc) =
      fst (forward_write csz nhosts locate env bt cl path buf offset sz nc) \<and>
    daemon_chunk env (snd (forward_write csz nhosts locate env' bt cl path buf offset sz nc)) h path c =
      daemon_chunk env (snd (forward_write csz nhosts locate env bt cl path buf offset sz nc)) h path c"
proof -
  obtain res cl1 where fw: "forward_write csz nhosts locate env bt cl path buf offset sz nc = (res, cl1)"
    by fastforce
  obtain res' cl1' where fw': "forward_write csz nhosts locate env' bt cl path buf offset sz nc = (res', cl1')"
    by fastforce
  note w = forward_write_cluster [OF assms(1-6) fw]
  have dc: "daemon_chunk env' = daemon_chunk env" by (intro ext) (simp add: daemon_chunk_def assms(8))
  note w' = forward_write_cluster [OF assms(1-3,7,5,6) fw', unfolded dc]
  have "daemon_chunk env cl1' h path c = daemon_chunk env cl1 h path c"
  proof (cases "\<exists>r < range_pieces csz offset sz. c = of_nat (unat offset div unat csz + r) \<and>
      h \<in> set (chunk_hosts locate path nc c)")
    case True
    then obtain r where "r < range_pieces csz offset sz" "c = of_nat (unat offset div unat csz + r)"
      "h \<in> set (chunk_hosts locate path nc (of_nat (unat offset div unat csz + r)))" by blast
    then show ?thesis using w(2) w'(2) by simp
  next
    case False
    then show ?thesis using w(3) w'(3) by metis
  qed
  then show ?thesis using w(1) w'(1) by (simp add: fw fw')
qed

theorem forward_write_schedule_independent_witness:
  "daemon_chunk sample_net (snd (forward_write 524288 6 sample_hosts sample_net' sample_bulk (\<lambda>_. Map.empty) ''/f''
      (replicate 16 7) 524280 16 0)) 1 ''/f'' 1 =
   daemon_chunk sample_net (snd (forward_write 524288 6 sample_hosts sample_net sample_bulk (\<lambda>_. Map.empty) ''/f''
      (replicate 16 7) 524280 16 0)) 1 ''/f'' 1"
  using forward_write_schedule_independent [of 524288 524280 16 sample_bulk sample_net "replicate 16 7"
      sample_hosts "''/f''" 0 sample_net' 6 "\<lambda>_. Map.empty" 1 1]
  by simp

text \<open>
  C14. Client and daemon agree on a request: from the bit set, the chunk range and the sizes the client
  sends to a target, the daemon's loop recovers exactly the chunks the client grouped for it, and ends
  with no bytes left to assign.
\<close>

theorem daemon_recovers_client_chunks:
  assumes "plain_range csz offset sz" and "range_pieces csz offset sz \<le> 65536"
    and "bulk_copies bt" and "\<And>i. create_ok abt i" and "length buf = unat sz"
    and "replicas_apart locate path nc"
    and "f = write_fan_out locate path (block_index offset csz) (block_index (offset + sz - 1) csz) nc"
    and "t \<in> set (targets f)"
    and "inp = data_request csz nhosts path offset sz (block_index offset csz) (block_index (offset + sz - 1) csz) f t"
  shows "\<exists>st. srv_write_loop csz bt abt inp (bit_mine inp) buf (chunk_range (in_chunk_start inp) (in_chunk_end inp))
      (srv_init csz inp sz) = Inr st \<and>
    chnk_size_left_host st = 0 \<and> map task_chunk (srv_tasks st) = chunks_of f t"
proof -
  define k K where "k = unat offset div unat csz" and "K = range_pieces csz offset sz"
  define tg where "tg = (\<lambda>r. chunk_hosts locate path nc (of_nat (k + r)))"
  define o' where "o' = unat offset mod unat csz"
  note num = client_numbers [OF assms(1), folded k_def K_def]
  have f: "f = write_fan_out locate path (of_nat k) (of_nat (k + K - 1)) nc"
    and inp: "inp = data_request csz nhosts path offset sz (of_nat k) (of_nat (k + K - 1)) f t"
    using assms(7,9) num(1,2) by simp_all
  have v: "valid_request csz k o' (unat sz) (\<lambda>r. t \<in> set (tg r)) inp (bit_mine inp)"
    using write_request_valid [OF assms(1,2,6), folded k_def K_def, folded tg_def f o'_def, OF assms(8)]
    by (simp only: inp tg_def)
  have init: "at_piece (unat csz) k o' (unat sz) (\<lambda>r. t \<in> set (tg r)) 0 (srv_init csz inp sz)"
    using at_piece_init [OF v] by simp
  have "length (bulk_buf (srv_init csz inp sz)) = unat (in_total_chunk_size inp)" by (simp add: srv_init_def)
  also have "\<dots> = sel_bytes (unat csz) o' (unat sz) (\<lambda>r. t \<in> set (tg r)) (piece_count (unat csz) o' (unat sz))"
    using valid_requestD(9) [OF v] valid_bounds(4) [OF v] by (simp add: unat_of_nat_small)
  finally obtain st where loop: "srv_write_loop csz bt abt inp (bit_mine inp) buf
      (map (\<lambda>r. of_nat (k + r)) [0..<piece_count (unat csz) o' (unat sz)]) (srv_init csz inp sz) = Inr st"
    and at: "at_piece (unat csz) k o' (unat sz) (\<lambda>r. t \<in> set (tg r)) (piece_count (unat csz) o' (unat sz)) st"
    using srv_write_loop_ok [OF v assms(3,4,5) _ init] by blast
  have "chunks_of f t = map (\<lambda>r. of_nat (k + r)) (filter (\<lambda>r. t \<in> set (tg r)) [0..<K])"
    unfolding forward_write_posts(1) [OF assms(1), of locate path nc, folded k_def K_def, folded tg_def f]
      chunks_of_fan_out
    using assms(6) by (intro chunks_for_pairs) (simp add: replicas_apart_def tg_def)
  then show ?thesis
    using loop at chunk_range_pieces [OF v]
    by (auto simp: at_piece_def Let_def sel_task_def comp_def K_def o'_def)
qed

theorem daemon_recovers_client_chunks_witness:
  "let f = write_fan_out sample_hosts ''/f'' (block_index 524280 524288) (block_index (524280 + 16 - 1) 524288) 0;
       inp = data_request 524288 6 ''/f'' 524280 16 (block_index 524280 524288)
         (block_index (524280 + 16 - 1) 524288) f 1
   in 1 \<in> set (targets f) \<and>
     (\<exists>st. srv_write_loop 524288 sample_bulk sample_abt inp (bit_mine inp) (replicate 16 7)
        (chunk_range (in_chunk_start inp) (in_chunk_end inp)) (srv_init 524288 inp 16) = Inr st \<and>
      chnk_size_left_host st = 0 \<and> map task_chunk (srv_tasks st) = chunks_of f 1)"
proof -
  have "1 \<in> set (targets (write_fan_out sample_hosts ''/f'' (block_index 524280 524288)
      (block_index (524280 + 16 - 1) 524288) 0))"
    by code_simp
  then show ?thesis
    using daemon_recovers_client_chunks [of 524288 524280 16 sample_bulk sample_abt "replicate 16 7" sample_hosts
        "''/f''" 0 _ 1 _ 6, OF _ _ _ _ _ _ refl _ refl]
    by (simp add: Let_def sample_abt_def)
qed

section \<open>Chunk arithmetic\<close>

text \<open>
  C15. For every power-of-two block size below \<open>2 ^ 32\<close> and every byte range that does not run past
  the 64-bit address space, \<open>block_count\<close> is the number of blocks the range touches.
\<close>

theorem block_count_counts_touched_blocks:
  assumes "is_power_of_2 bs" and "bs < 2 ^ 32" and "unat off + unat sz < 2 ^ 64"
  shows "unat (block_count off sz bs) =
    card ((\<lambda>i. i div unat bs) ` {unat off ..< unat off + unat sz})"
proof (cases "sz = 0")
  case True
  then show ?thesis using assms by (simp add: block_count_touched)
next
  case False
  then have pos: "0 < unat sz" by (simp add: unat_gt_0)
  have B: "0 < unat bs" using assms(1) by (auto simp: is_power_of_2_def unat_gt_0)
  show ?thesis
    using False assms pos
    by (simp add: block_count_touched div_image_interval [OF B pos] Suc_diff_le div_le_mono)
qed

theorem block_count_counts_touched_blocks_witness:
  "unat (block_count 1000 3000 1024) =
    card ((\<lambda>i. i div unat (1024 :: u64)) ` {unat (1000 :: u64) ..< unat (1000 :: u64) + unat (3000 :: u64)})"
  by (rule block_count_counts_touched_blocks) (simp_all add: is_power_of_2_def)

end
